(* ===== verification/Prelude.thy ===== *)
theory Prelude
  imports Main "HOL-Library.Multiset" "HOL-Library.Word"
begin

text \<open>
  What the components of the adapter share: JavaScript values and objects, the errors the
  code throws, Node's timers, the run of an event-driven component over a list of events,
  and the interfaces (locales) for property stores and for machines with an invariant.
\<close>

named_theorems obj_simps \<open>lookups and keys of JavaScript objects\<close>
named_theorems js_simps \<open>truthiness and property access\<close>
named_theorems step_simps \<open>the operations of a component, unfolded by invariant proofs\<close>

section \<open>JavaScript values\<close>

text \<open>
  A value as \<^verbatim>\<open>JSON.parse\<close> and the reviver of \<^verbatim>\<open>mcm.ts\<close> produce it. \<open>undefined\<close> is the
  value \<open>None\<close> of \<open>js option\<close>. Numbers are integers (the program's statuses, seconds and
  timestamps); a literal with a fraction or an exponent, beyond the safe integers, or of
  negative zero is kept as its text. An object is the list of its own properties in
  insertion order, a \<^verbatim>\<open>Buffer\<close> the list of its bytes.
\<close>

datatype js =
    JNull
  | JBool bool
  | JNum int
  | JFrac string
  | JStr string
  | JArr "js list"
  | JObj "(string \<times> js) list"
  | JBuf "8 word list"

text \<open>
  A literal denotes zero when no digit before its exponent is other than 0 (underflow, of
  literals below the smallest double, is not modelled).
\<close>

definition zero_literal :: "string \<Rightarrow> bool" where
  "zero_literal t \<longleftrightarrow> set (takeWhile (\<lambda>c. c \<notin> set ''eE'') t) \<inter> set ''123456789'' = {}"

fun truthy :: "js option \<Rightarrow> bool" where
  "truthy None = False"
| "truthy (Some JNull) = False"
| "truthy (Some (JBool b)) = b"
| "truthy (Some (JNum n)) = (n \<noteq> 0)"
| "truthy (Some (JFrac t)) = (\<not> zero_literal t)"
| "truthy (Some (JStr s)) = (s \<noteq> [])"
| "truthy (Some _) = True"

text \<open>The empty string is the only falsy string.\<close>

definition truthy_str :: "string option \<Rightarrow> bool" where
  "truthy_str s = (case s of None \<Rightarrow> False | Some t \<Rightarrow> t \<noteq> [])"

lemma truthy_str_simps [simp, js_simps]:
  "truthy_str None = False"
  "truthy_str (Some t) = (t \<noteq> [])"
  by (simp_all add: truthy_str_def)

lemma truthy_not_nullish: "truthy v \<Longrightarrow> v \<noteq> None \<and> v \<noteq> Some JNull"
  by (cases v rule: truthy.cases) auto

text \<open>
  The byte that a typed array stores for a value: integers modulo 256. An entry that JavaScript
  would first turn into a number (a numeric string, an array, a literal kept as text) counts as 0.
\<close>

definition to_uint8 :: "js \<Rightarrow> 8 word" where
  "to_uint8 v = (case v of JNum n \<Rightarrow> word_of_int n | JBool b \<Rightarrow> of_bool b | _ \<Rightarrow> 0)"

definition byte_entries :: "8 word list \<Rightarrow> js list" where
  "byte_entries bs = map (\<lambda>b. JNum (uint b)) bs"

lemma to_uint8_entries [simp]: "map to_uint8 (byte_entries bs) = bs"
  by (simp add: byte_entries_def to_uint8_def comp_def)

section \<open>Objects: ordered lists of properties\<close>

type_synonym 'v obj = "(string \<times> 'v) list"

definition oget :: "'v obj \<Rightarrow> string \<Rightarrow> 'v option" where
  "oget xs k = map_of xs k"

text \<open>Assignment keeps the place of an existing key and appends a new one.\<close>

fun oput :: "string \<Rightarrow> 'v \<Rightarrow> 'v obj \<Rightarrow> 'v obj" where
  "oput k v [] = [(k, v)]"
| "oput k v ((k', v') # xs) = (if k = k' then (k, v) # xs else (k', v') # oput k v xs)"

text \<open>Spread \<^verbatim>\<open>{ ...base, ...add }\<close>.\<close>

definition ospread :: "'v obj \<Rightarrow> 'v obj \<Rightarrow> 'v obj" where
  "ospread base add = fold (\<lambda>(k, v) acc. oput k v acc) add base"

definition okeys :: "'v obj \<Rightarrow> string list" where
  "okeys xs = map fst xs"

lemma oget_Nil [simp, obj_simps]: "oget [] k = None"
  by (simp add: oget_def)

lemma oget_Cons [simp, obj_simps]: "oget ((k', v) # xs) k = (if k = k' then Some v else oget xs k)"
  by (simp add: oget_def)

lemma oget_oput [simp, obj_simps]: "oget (oput k v xs) k' = (if k' = k then Some v else oget xs k')"
  by (induction xs) auto

lemma okeys_simps [simp, obj_simps]:
  "okeys [] = []"
  "okeys ((k, v) # xs) = k # okeys xs"
  by (simp_all add: okeys_def)

lemma okeys_oput: "okeys (oput k v xs) = (if k \<in> set (okeys xs) then okeys xs else okeys xs @ [k])"
  by (induction xs) auto

lemma set_okeys_oput [simp]: "set (okeys (oput k v xs)) = insert k (set (okeys xs))"
  by (auto simp: okeys_oput)

lemma distinct_okeys_oput [intro]: "distinct (okeys xs) \<Longrightarrow> distinct (okeys (oput k v xs))"
  by (auto simp: okeys_oput)

lemma oput_fresh: "k \<notin> set (okeys xs) \<Longrightarrow> oput k v xs = xs @ [(k, v)]"
  by (induction xs) auto

lemma oget_None_iff: "oget xs k = None \<longleftrightarrow> k \<notin> set (okeys xs)"
  by (simp add: oget_def okeys_def map_of_eq_None_iff)

lemma oget_Some_in: "oget xs k = Some v \<Longrightarrow> (k, v) \<in> set xs"
  by (simp add: oget_def map_of_SomeD)

lemma map_of_rev_distinct: "distinct (map fst xs) \<Longrightarrow> map_of (rev xs) = map_of xs"
  by (induction xs) (auto simp: map_add_upd_left dom_map_of_conv_image_fst)

text \<open>
  The interface of a property store. Its clients build header objects by a chain of
  assignments; the one lemma they need is what a lookup returns after such a chain.
\<close>

locale property_store =
  fixes get :: "'o \<Rightarrow> 'k \<Rightarrow> 'v option"
    and put :: "'k \<Rightarrow> 'v \<Rightarrow> 'o \<Rightarrow> 'o"
  assumes get_put: "get (put k v xs) k' = (if k' = k then Some v else get xs k')"
begin

lemma get_put_same: "get (put k v xs) k = Some v"
  by (simp add: get_put)

lemma get_puts:
  "get (fold (\<lambda>(k, v) acc. put k v acc) kvs xs) k =
     (case map_of (rev kvs) k of Some v \<Rightarrow> Some v | None \<Rightarrow> get xs k)"
proof (induction kvs arbitrary: xs)
  case Nil
  then show ?case by simp
next
  case (Cons kv kvs)
  then show ?case
    by (cases kv) (auto simp: get_put map_add_def split: option.split)
qed

lemma get_puts_absent:
  "k \<notin> fst ` set kvs \<Longrightarrow> get (fold (\<lambda>(k, v) acc. put k v acc) kvs xs) k = get xs k"
  by (induction kvs arbitrary: xs) (auto simp: get_put)

end

interpretation obj: property_store oget oput
  by unfold_locales simp

lemma oget_ospread:
  "oget (ospread base add) k =
     (case map_of (rev add) k of Some v \<Rightarrow> Some v | None \<Rightarrow> oget base k)"
  by (simp add: ospread_def obj.get_puts)

section \<open>Lists without repetition\<close>

text \<open>Taking the entry of one key out of an association list with distinct keys.\<close>

lemma mset_filter_key:
  "distinct (map fst xs) \<Longrightarrow> map_of xs t = Some a \<Longrightarrow>
     mset (map f xs) = add_mset (f (t, a)) (mset (map f (filter (\<lambda>p. fst p \<noteq> t) xs)))"
proof (induction xs)
  case Nil
  then show ?case by simp
next
  case (Cons p xs)
  obtain k b where p: "p = (k, b)" by (cases p)
  show ?case
  proof (cases "k = t")
    case True
    then have "filter (\<lambda>p. fst p \<noteq> t) xs = xs"
      using Cons.prems(1) by (force simp: p filter_id_conv)
    then show ?thesis using True Cons.prems(2) by (simp add: p)
  next
    case False
    then show ?thesis using Cons by (simp add: p add_mset_commute)
  qed
qed

lemma distinct_iff_count: "distinct xs \<longleftrightarrow> (\<forall>a. count (mset xs) a \<le> 1)"
proof
  show "distinct xs \<Longrightarrow> \<forall>a. count (mset xs) a \<le> 1"
    unfolding distinct_count_atmost_1 by (metis le_numeral_extra(4) zero_le_one)
next
  assume le: "\<forall>a. count (mset xs) a \<le> 1"
  show "distinct xs"
    unfolding distinct_count_atmost_1
  proof
    fix a
    show "count (mset xs) a = (if a \<in> set xs then 1 else 0)"
    proof (cases "a \<in> set xs")
      case True
      then have "count (mset xs) a \<noteq> 0" using count_mset_0_iff [of xs a] by blast
      moreover have "count (mset xs) a \<le> 1" using le by blast
      ultimately have "count (mset xs) a = 1" by linarith
      with True show ?thesis by (simp only: if_True)
    next
      case False
      then have "count (mset xs) a = 0" using count_mset_0_iff [of xs a] by blast
      with False show ?thesis by (simp only: if_False)
    qed
  qed
qed

lemma filter_key: "distinct (map f xs) \<Longrightarrow> x \<in> set xs \<Longrightarrow> filter (\<lambda>y. f y = f x) xs = [x]"
proof (induction xs)
  case (Cons a xs)
  then show ?case
    by (cases "a = x") (auto simp: filter_empty_conv rev_image_eqI)
qed simp

lemma find_key: "distinct (map f xs) \<Longrightarrow> x \<in> set xs \<Longrightarrow> find (\<lambda>y. f y = f x) xs = Some x"
  by (induction xs) (auto simp: rev_image_eqI)

lemma distinct_submset: "mset xs \<subseteq># mset ys \<Longrightarrow> distinct ys \<Longrightarrow> distinct xs"
  unfolding distinct_iff_count by (meson mset_subset_eq_count order_trans)

lemma mset_eq_distinct_set:
  assumes "mset xs = mset ys"
  shows "distinct xs = distinct ys \<and> set xs = set ys"
  using mset_eq_imp_distinct_iff [OF assms] mset_eq_setD [OF assms] by blast

section \<open>Strings\<close>

definition lower_char :: "char \<Rightarrow> char" where
  "lower_char c = (if 65 \<le> (of_char c :: nat) \<and> (of_char c :: nat) \<le> 90
                   then char_of ((of_char c :: nat) + 32) else c)"

text \<open>Header names compare without case.\<close>

definition lower :: "string \<Rightarrow> string" where
  "lower s = map lower_char s"

text \<open>\<^verbatim>\<open>s.includes(t)\<close>\<close>

fun starts_with :: "string \<Rightarrow> string \<Rightarrow> bool" where
  "starts_with s [] = True"
| "starts_with [] (c # cs) = False"
| "starts_with (d # ds) (c # cs) = (d = c \<and> starts_with ds cs)"

fun str_includes :: "string \<Rightarrow> string \<Rightarrow> bool" where
  "str_includes [] t = (t = [])"
| "str_includes (c # cs) t = (starts_with (c # cs) t \<or> str_includes cs t)"

lemma starts_with_iff: "starts_with s t \<longleftrightarrow> (\<exists>u. s = t @ u)"
  by (induction s t rule: starts_with.induct) auto

lemma str_includes_iff: "str_includes s t \<longleftrightarrow> (\<exists>u v. s = u @ t @ v)"
proof (induction s)
  case Nil
  then show ?case by auto
next
  case (Cons c cs)
  show ?case
  proof
    assume "str_includes (c # cs) t"
    then consider "starts_with (c # cs) t" | "str_includes cs t" by auto
    then show "\<exists>u v. c # cs = u @ t @ v"
    proof cases
      case 1
      then obtain v where "c # cs = [] @ t @ v" by (auto simp: starts_with_iff)
      then show ?thesis by blast
    next
      case 2
      then obtain u v where "cs = u @ t @ v" using Cons.IH by blast
      then have "c # cs = (c # u) @ t @ v" by simp
      then show ?thesis by blast
    qed
  next
    assume "\<exists>u v. c # cs = u @ t @ v"
    then obtain u v where uv: "c # cs = u @ t @ v" by blast
    show "str_includes (c # cs) t"
    proof (cases u)
      case Nil
      with uv have "\<exists>v. c # cs = t @ v" by auto
      then have "starts_with (c # cs) t" by (simp add: starts_with_iff)
      then show ?thesis by simp
    next
      case (Cons d u')
      with uv have "cs = u' @ t @ v" by simp
      then have "str_includes cs t" using Cons.IH by blast
      then show ?thesis by simp
    qed
  qed
qed

text \<open>\<^verbatim>\<open>s.split(d)\<close> and \<^verbatim>\<open>xs.join(d)\<close> for one character \<open>d\<close>.\<close>

fun split_on :: "char \<Rightarrow> string \<Rightarrow> string list" where
  "split_on d [] = [[]]"
| "split_on d (c # cs) =
     (if c = d then [] # split_on d cs
      else (case split_on d cs of [] \<Rightarrow> [[c]] | x # xs \<Rightarrow> (c # x) # xs))"

fun join_with :: "char \<Rightarrow> string list \<Rightarrow> string" where
  "join_with c [] = []"
| "join_with c [x] = x"
| "join_with c (x # xs) = x @ [c] @ join_with c xs"

lemma split_on_nonempty [simp]: "split_on d s \<noteq> []"
  by (induction s) (auto split: list.split)

lemma split_on_plain: "d \<notin> set s \<Longrightarrow> split_on d s = [s]"
  by (induction s) auto

lemma split_on_append: "d \<notin> set s \<Longrightarrow> split_on d (s @ d # t) = s # split_on d t"
  by (induction s) auto

lemma join_split [simp]: "join_with d (split_on d s) = s"
proof (induction s)
  case (Cons x xs)
  obtain y ys where y: "split_on d xs = y # ys" by (cases "split_on d xs") simp_all
  with Cons show ?case by (cases ys) auto
qed simp

lemma split_no_sep: "r \<in> set (split_on d s) \<Longrightarrow> d \<notin> set r"
proof (induction s arbitrary: r)
  case (Cons x xs)
  then show ?case by (cases "split_on d xs") (auto split: if_splits)
qed simp

text \<open>The decimal form of a number.\<close>

fun show_nat :: "nat \<Rightarrow> string" where
  "show_nat n = (if n < 10 then [char_of (48 + n)] else show_nat (n div 10) @ [char_of (48 + n mod 10)])"

declare show_nat.simps [simp del]

definition show_int :: "int \<Rightarrow> string" where
  "show_int i = (if i < 0 then ''-'' @ show_nat (nat (- i)) else show_nat (nat i))"

section \<open>Timers\<close>

text \<open>
  Node's \<^verbatim>\<open>setTimeout\<close> and \<^verbatim>\<open>setInterval\<close> accept a delay between 1 and 2147483647 ms;
  any other delay is replaced by 1 ms.
\<close>

definition node_delay :: "int \<Rightarrow> int" where
  "node_delay ms = (if 1 \<le> ms \<and> ms \<le> 2147483647 then ms else 1)"

lemma node_delay_pos: "1 \<le> node_delay ms"
  by (simp add: node_delay_def)

section \<open>Event-driven components\<close>

text \<open>
  A component is a function from its state and the event of one turn of the event loop to
  the new state and what the turn did to the outside. A run feeds it a list of events.
\<close>

fun exec :: "('s \<Rightarrow> 'e \<Rightarrow> 's \<times> 'o list) \<Rightarrow> 's \<Rightarrow> 'e list \<Rightarrow> 's \<times> 'o list" where
  "exec f s [] = (s, [])"
| "exec f s (e # es) =
     (let r = f s e; q = exec f (fst r) es in (fst q, snd r @ snd q))"

lemma exec_append:
  "exec f s (es @ fs) =
     (let r = exec f s es; q = exec f (fst r) fs in (fst q, snd r @ snd q))"
  by (induction es arbitrary: s) (simp_all add: Let_def)

lemma exec_append_eq:
  "exec f s es = (t, out1) \<Longrightarrow> exec f t fs = (u, out2) \<Longrightarrow> exec f s (es @ fs) = (u, out1 @ out2)"
  by (simp add: exec_append)

lemma exec_Cons_eq: "f s e = (t, out1) \<Longrightarrow> exec f t es = (u, out2) \<Longrightarrow> exec f s (e # es) = (u, out1 @ out2)"
  by simp

text \<open>A run all of whose events are allowed where they happen.\<close>

fun allowed :: "('s \<Rightarrow> 'e \<Rightarrow> 's \<times> 'o list) \<Rightarrow> ('s \<Rightarrow> 'e \<Rightarrow> bool) \<Rightarrow> 's \<Rightarrow> 'e list \<Rightarrow> bool" where
  "allowed f ok s [] = True"
| "allowed f ok s (e # es) = (ok s e \<and> allowed f ok (fst (f s e)) es)"

lemma allowed_all: "(\<And>s e. e \<in> set es \<Longrightarrow> ok s e) \<Longrightarrow> allowed f ok s es"
  by (induction es arbitrary: s) auto

lemma allowed_append:
  "allowed f ok s (es @ fs) \<longleftrightarrow> allowed f ok s es \<and> allowed f ok (fst (exec f s es)) fs"
  by (induction es arbitrary: s) (simp_all add: Let_def)

text \<open>
  The interface of a machine that keeps an invariant over the events it allows, and of one
  whose outputs satisfy a promise as long as the invariant holds.
\<close>

locale invariant_machine =
  fixes step :: "'s \<Rightarrow> 'e \<Rightarrow> 's \<times> 'o list"
    and ok :: "'s \<Rightarrow> 'e \<Rightarrow> bool"
    and inv :: "'s \<Rightarrow> bool"
  assumes step_inv: "inv s \<Longrightarrow> ok s e \<Longrightarrow> inv (fst (step s e))"
begin

lemma exec_inv: "inv s \<Longrightarrow> allowed step ok s es \<Longrightarrow> inv (fst (exec step s es))"
  by (induction es arbitrary: s) (simp_all add: Let_def step_inv)

end

locale promising_machine = invariant_machine +
  fixes promise :: "'o \<Rightarrow> bool"
  assumes step_out: "inv s \<Longrightarrow> ok s e \<Longrightarrow> x \<in> set (snd (step s e)) \<Longrightarrow> promise x"
begin

lemma exec_out:
  "inv s \<Longrightarrow> allowed step ok s es \<Longrightarrow> x \<in> set (snd (exec step s es)) \<Longrightarrow> promise x"
proof (induction es arbitrary: s)
  case Nil
  then show ?case by simp
next
  case (Cons e es)
  then show ?case
    using step_out [of s e x] step_inv [of s e] by (auto simp: Let_def)
qed

end

text \<open>
  The interface of a machine that an abstract one simulates: each turn, from a state with the
  invariant, is one possible step of the abstract machine, with the same outputs. Its lemmas carry
  this over to runs.
\<close>

fun events_along :: "('s \<Rightarrow> 'e \<Rightarrow> 's \<times> 'o list) \<Rightarrow> ('s \<Rightarrow> 'e \<Rightarrow> 'b) \<Rightarrow> 's \<Rightarrow> 'e list \<Rightarrow> 'b list" where
  "events_along f ev s [] = []"
| "events_along f ev s (e # es) = ev s e # events_along f ev (fst (f s e)) es"

locale simulated_machine =
  fixes step :: "'s \<Rightarrow> 'e \<Rightarrow> 's \<times> 'o list"
    and inv :: "'s \<Rightarrow> bool"
    and spec :: "'a \<Rightarrow> 'b \<Rightarrow> 'a \<times> 'o list"
    and possible :: "'a \<Rightarrow> 'b \<Rightarrow> bool"
    and abs :: "'s \<Rightarrow> 'a"
    and ev :: "'s \<Rightarrow> 'e \<Rightarrow> 'b"
  assumes sim_inv: "inv s \<Longrightarrow> inv (fst (step s e))"
    and sim_step: "inv s \<Longrightarrow> spec (abs s) (ev s e) = (abs (fst (step s e)), snd (step s e))"
    and sim_possible: "inv s \<Longrightarrow> possible (abs s) (ev s e)"
begin

lemma exec_sim:
  "inv s \<Longrightarrow> exec spec (abs s) (events_along step ev s es)
     = (abs (fst (exec step s es)), snd (exec step s es))"
  by (induction es arbitrary: s) (simp_all add: Let_def sim_inv sim_step)

lemma exec_possible: "inv s \<Longrightarrow> allowed spec possible (abs s) (events_along step ev s es)"
  by (induction es arbitrary: s) (simp_all add: sim_inv sim_step sim_possible)

end

end
