(* ===== verification/Settings.thy ===== *)
theory Settings
  imports Prelude
begin

text \<open>
  The configuration: the convict schema of \<^verbatim>\<open>src/config.ts\<close>, row by row, the typed
  configuration the code reads from it (\<^verbatim>\<open>AppConfig\<close> and its parts in
  \<^verbatim>\<open>infra/types.ts\<close>) and the constants of \<^verbatim>\<open>src/constants.ts\<close>. The convict library is a
  parameter: a function from a schema row (format, default, environment variable) to the
  value it resolves to in the process environment.
\<close>

section \<open>Constants\<close>

definition HEADER_SOURCE :: string where "HEADER_SOURCE = ''fspiop-source''"
definition HEADER_DESTINATION :: string where "HEADER_DESTINATION = ''fspiop-destination''"
definition HEADER_PROXY :: string where "HEADER_PROXY = ''fspiop-proxy''"
definition HEADER_SIGNATURE :: string where "HEADER_SIGNATURE = ''fspiop-signature''"
definition HEADER_HTTP_METHOD :: string where "HEADER_HTTP_METHOD = ''fspiop-http-method''"
definition AUTH_HEADER :: string where "AUTH_HEADER = ''Authorization''"
definition SCHEME_HTTP :: string where "SCHEME_HTTP = ''http''"
definition SCHEME_HTTPS :: string where "SCHEME_HTTPS = ''https''"
definition DEFAULT_ERROR_STATUS_CODE :: int where "DEFAULT_ERROR_STATUS_CODE = 503"
definition IN_ADVANCE_PERIOD_SEC :: int where "IN_ADVANCE_PERIOD_SEC = 30"

lemmas header_defs =
  HEADER_SOURCE_def HEADER_DESTINATION_def HEADER_PROXY_def HEADER_SIGNATURE_def
  HEADER_HTTP_METHOD_def AUTH_HEADER_def

datatype health_status = OK | DOWN

section \<open>The schema\<close>

datatype fmt = FString | FNumber | FPort | FBoolean | FArray

datatype cval = CNull | CNum int | CStr string | CBool bool | CArr "string list"

datatype row =
    Literal string
  | Setting fmt cval string bool \<comment> \<open>format, default, environment variable, sensitive\<close>

abbreviation setting :: "fmt \<Rightarrow> cval \<Rightarrow> string \<Rightarrow> bool \<Rightarrow> row" where
  "setting \<equiv> Setting"

type_synonym schema = "(string list \<times> row) list"

definition peerA_schema :: schema where
  "peerA_schema =
    [([''peer''], Literal ''A''),
     ([''peerEndpoint''], setting FString CNull ''PEER_ENDPOINT_A'' False),
     ([''pingCallbackEndpoint''], setting FString CNull ''PEER_ENDPOINT_B'' False),
     ([''authConfig'', ''tokenEndpoint''], setting FString CNull ''OAUTH_TOKEN_ENDPOINT_A'' False),
     ([''authConfig'', ''clientKey''], setting FString CNull ''OAUTH_CLIENT_KEY_A'' False),
     ([''authConfig'', ''clientSecret''], setting FString CNull ''OAUTH_CLIENT_SECRET_A'' True),
     ([''authConfig'', ''accessTokenUpdateIntervalSec''], setting FNumber (CNum 60) ''OAUTH_REFRESH_SECONDS_A'' False),
     ([''authConfig'', ''retryAccessTokenUpdatesTimeoutSec''], setting FNumber (CNum 5) ''RETRY_ACCESS_TOKEN_UPDATES_TIMEOUT_SEC'' False),
     ([''authConfig'', ''retryDnsErrorTimeoutSec''], setting FNumber (CNum 5) ''RETRY_DNS_ERROR_TIMEOUT_SEC'' False),
     ([''controlAgentConfig'', ''wsHost''], setting FString CNull ''MGMT_API_WS_URL_A'' False),
     ([''controlAgentConfig'', ''wsPort''], setting FPort CNull ''MGMT_API_WS_PORT_A'' False),
     ([''controlAgentConfig'', ''connectionTimeout''], setting FNumber (CNum 4000) ''MGMT_API_WS_CONNECTION_TIMEOUT_A'' False),
     ([''controlAgentConfig'', ''timeout''], setting FNumber (CNum 5000) ''MGMT_API_WS_TIMEOUT_A'' False),
     ([''controlAgentConfig'', ''reconnectInterval''], setting FNumber (CNum 5000) ''MGMT_API_WS_RECONNECT_INTERVAL_A'' False),
     ([''serverConfig'', ''port''], setting FPort (CNum 4100) ''INBOUND_LISTEN_PORT_A'' False),
     ([''serverConfig'', ''host''], setting FString (CStr ''0.0.0.0'') ''INBOUND_HOST_A'' False)]"

definition peerB_schema :: schema where
  "peerB_schema =
    [([''peer''], Literal ''B''),
     ([''peerEndpoint''], setting FString CNull ''PEER_ENDPOINT_B'' False),
     ([''pingCallbackEndpoint''], setting FString CNull ''PEER_ENDPOINT_A'' False),
     ([''authConfig'', ''tokenEndpoint''], setting FString CNull ''OAUTH_TOKEN_ENDPOINT_B'' False),
     ([''authConfig'', ''clientKey''], setting FString CNull ''OAUTH_CLIENT_KEY_B'' False),
     ([''authConfig'', ''clientSecret''], setting FString CNull ''OAUTH_CLIENT_SECRET_B'' True),
     ([''authConfig'', ''accessTokenUpdateIntervalSec''], setting FNumber (CNum 60) ''OAUTH_REFRESH_SECONDS_B'' False),
     ([''authConfig'', ''retryAccessTokenUpdatesTimeoutSec''], setting FNumber (CNum 5) ''RETRY_ACCESS_TOKEN_UPDATES_TIMEOUT_SEC'' False),
     ([''authConfig'', ''retryDnsErrorTimeoutSec''], setting FNumber (CNum 5) ''RETRY_DNS_ERROR_TIMEOUT_SEC'' False),
     ([''controlAgentConfig'', ''wsHost''], setting FString CNull ''MGMT_API_WS_URL_B'' False),
     ([''controlAgentConfig'', ''wsPort''], setting FPort CNull ''MGMT_API_WS_PORT_B'' False),
     ([''controlAgentConfig'', ''connectionTimeout''], setting FNumber (CNum 4000) ''MGMT_API_WS_CONNECTION_TIMEOUT_B'' False),
     ([''controlAgentConfig'', ''timeout''], setting FNumber (CNum 5000) ''MGMT_API_WS_TIMEOUT_B'' False),
     ([''controlAgentConfig'', ''reconnectInterval''], setting FNumber (CNum 5000) ''MGMT_API_WS_RECONNECT_INTERVAL_B'' False),
     ([''serverConfig'', ''port''], setting FPort (CNum 4200) ''INBOUND_LISTEN_PORT_B'' False),
     ([''serverConfig'', ''host''], setting FString (CStr ''0.0.0.0'') ''INBOUND_HOST_B'' False)]"

definition top_schema :: schema where
  "top_schema =
    [([''PROXY_ID''], setting FString CNull ''PROXY_ID'' False),
     ([''LOG_LEVEL''], setting FString (CStr ''info'') ''LOG_LEVEL'' False),
     ([''pm4mlEnabled''], setting FBoolean (CBool True) ''PM4ML_ENABLED'' False),
     ([''incomingHeadersRemoval''], setting FArray (CArr []) ''INCOMING_HEADERS_REMOVAL'' False),
     ([''checkPeerJwsInterval''], setting FNumber (CNum 1800000) ''CHECK_PEER_JWS_INTERVAL'' False),
     ([''retryStartTimeoutSec''], setting FNumber (CNum 60) ''RETRY_START_TIMEOUT_SEC'' False),
     ([''retryDnsErrorTimeoutSec''], setting FNumber (CNum 5) ''RETRY_DNS_ERROR_TIMEOUT_SEC'' False)]"

text \<open>
  \<open>conv\<close> is convict: what it makes of a row in the current environment. \<open>get\<close> is
  \<^verbatim>\<open>config.get(path)\<close> on a leaf.
\<close>

type_synonym convict = "fmt \<Rightarrow> cval \<Rightarrow> string \<Rightarrow> cval"

definition row_value :: "convict \<Rightarrow> row \<Rightarrow> cval" where
  "row_value conv r = (case r of Literal l \<Rightarrow> CStr l | Setting f d e _ \<Rightarrow> conv f d e)"

definition config_get :: "convict \<Rightarrow> schema \<Rightarrow> string list \<Rightarrow> cval" where
  "config_get conv sch path =
     (case map_of sch path of None \<Rightarrow> CNull | Some r \<Rightarrow> row_value conv r)"

text \<open>
  The declared types of the configuration. \<^verbatim>\<open>config.validate({ allowed: 'strict' })\<close> runs
  when the module loads and throws unless every value has its row's format; a setting with
  no default must come from the environment.
\<close>

fun conforms :: "fmt \<Rightarrow> cval \<Rightarrow> bool" where
  "conforms FString (CStr _) = True"
| "conforms FNumber (CNum _) = True"
| "conforms FPort (CNum n) = (0 \<le> n \<and> n \<le> 65535)"
| "conforms FBoolean (CBool _) = True"
| "conforms FArray (CArr _) = True"
| "conforms _ _ = False"

fun row_valid :: "convict \<Rightarrow> row \<Rightarrow> bool" where
  "row_valid conv (Literal l) = True"
| "row_valid conv (Setting f d e s) = conforms f (conv f d e)"

definition config_validate :: "convict \<Rightarrow> bool" where
  "config_validate conv =
     (\<forall>p \<in> set (top_schema @ peerA_schema @ peerB_schema). row_valid conv (snd p))"

section \<open>The typed configuration\<close>

datatype peer_label = PeerA | PeerB

record AuthConfig =
  tokenEndpoint :: string
  clientKey :: string
  clientSecret :: string
  accessTokenUpdateIntervalSec :: int
  retryAccessTokenUpdatesTimeoutSec :: int
  auth_retryDnsErrorTimeoutSec :: int

record ControlAgentConfig =
  wsHost :: string
  wsPort :: int
  connectionTimeout :: int
  msgTimeout :: int
  reconnectInterval :: int

record ServerConfig =
  srv_host :: string
  srv_port :: int

record PeerServerConfig =
  cfg_peer :: string
  cfg_peerEndpoint :: string
  cfg_pingCallbackEndpoint :: string
  authConfig :: AuthConfig
  controlAgentConfig :: ControlAgentConfig
  serverConfig :: ServerConfig

record AppConfig =
  PROXY_ID :: string
  LOG_LEVEL :: string
  peerAConfig :: PeerServerConfig
  peerBConfig :: PeerServerConfig
  pm4mlEnabled :: bool
  incomingHeadersRemoval :: "string list"
  checkPeerJwsInterval :: int
  retryStartTimeoutSec :: int
  retryDnsErrorTimeoutSec :: int

text \<open>Reading a value at its declared type; validation has excluded the other constructors.\<close>

fun c_str :: "cval \<Rightarrow> string" where
  "c_str (CStr s) = s" | "c_str _ = []"

fun c_num :: "cval \<Rightarrow> int" where
  "c_num (CNum n) = n" | "c_num _ = 0"

fun c_bool :: "cval \<Rightarrow> bool" where
  "c_bool (CBool b) = b" | "c_bool _ = False"

fun c_arr :: "cval \<Rightarrow> string list" where
  "c_arr (CArr xs) = xs" | "c_arr _ = []"

definition peer_config :: "convict \<Rightarrow> schema \<Rightarrow> PeerServerConfig" where
  "peer_config conv sch =
     (let str = \<lambda>p. c_str (config_get conv sch p); num = \<lambda>p. c_num (config_get conv sch p) in
      \<lparr> cfg_peer = str [''peer''],
        cfg_peerEndpoint = str [''peerEndpoint''],
        cfg_pingCallbackEndpoint = str [''pingCallbackEndpoint''],
        authConfig =
          \<lparr> tokenEndpoint = str [''authConfig'', ''tokenEndpoint''],
            clientKey = str [''authConfig'', ''clientKey''],
            clientSecret = str [''authConfig'', ''clientSecret''],
            accessTokenUpdateIntervalSec = num [''authConfig'', ''accessTokenUpdateIntervalSec''],
            retryAccessTokenUpdatesTimeoutSec =
              num [''authConfig'', ''retryAccessTokenUpdatesTimeoutSec''],
            auth_retryDnsErrorTimeoutSec = num [''authConfig'', ''retryDnsErrorTimeoutSec''] \<rparr>,
        controlAgentConfig =
          \<lparr> wsHost = str [''controlAgentConfig'', ''wsHost''],
            wsPort = num [''controlAgentConfig'', ''wsPort''],
            connectionTimeout = num [''controlAgentConfig'', ''connectionTimeout''],
            msgTimeout = num [''controlAgentConfig'', ''timeout''],
            reconnectInterval = num [''controlAgentConfig'', ''reconnectInterval''] \<rparr>,
        serverConfig =
          \<lparr> srv_host = str [''serverConfig'', ''host''],
            srv_port = num [''serverConfig'', ''port''] \<rparr> \<rparr>)"

definition app_config :: "convict \<Rightarrow> AppConfig" where
  "app_config conv =
     \<lparr> PROXY_ID = c_str (config_get conv top_schema [''PROXY_ID'']),
       LOG_LEVEL = c_str (config_get conv top_schema [''LOG_LEVEL'']),
       peerAConfig = peer_config conv peerA_schema,
       peerBConfig = peer_config conv peerB_schema,
       pm4mlEnabled = c_bool (config_get conv top_schema [''pm4mlEnabled'']),
       incomingHeadersRemoval = c_arr (config_get conv top_schema [''incomingHeadersRemoval'']),
       checkPeerJwsInterval = c_num (config_get conv top_schema [''checkPeerJwsInterval'']),
       retryStartTimeoutSec = c_num (config_get conv top_schema [''retryStartTimeoutSec'']),
       retryDnsErrorTimeoutSec =
         c_num (config_get conv top_schema [''retryDnsErrorTimeoutSec'']) \<rparr>"

text \<open>Projections that do not unfold the schemas.\<close>

lemma peer_config_sel [simp]:
  "cfg_peerEndpoint (peer_config conv sch) = c_str (config_get conv sch [''peerEndpoint''])"
  "cfg_pingCallbackEndpoint (peer_config conv sch) =
     c_str (config_get conv sch [''pingCallbackEndpoint''])"
  "auth_retryDnsErrorTimeoutSec (authConfig (peer_config conv sch)) =
     c_num (config_get conv sch [''authConfig'', ''retryDnsErrorTimeoutSec''])"
  "retryAccessTokenUpdatesTimeoutSec (authConfig (peer_config conv sch)) =
     c_num (config_get conv sch [''authConfig'', ''retryAccessTokenUpdatesTimeoutSec''])"
  "accessTokenUpdateIntervalSec (authConfig (peer_config conv sch)) =
     c_num (config_get conv sch [''authConfig'', ''accessTokenUpdateIntervalSec''])"
  by (simp_all add: peer_config_def Let_def)

lemma app_config_sel [simp]:
  "peerAConfig (app_config conv) = peer_config conv peerA_schema"
  "peerBConfig (app_config conv) = peer_config conv peerB_schema"
  "retryDnsErrorTimeoutSec (app_config conv) =
     c_num (config_get conv top_schema [''retryDnsErrorTimeoutSec''])"
  by (simp_all add: app_config_def)

section \<open>The type of the configuration\<close>

text \<open>The typed configuration, written back as what \<^verbatim>\<open>config.get\<close> gives at every path of the schemas.\<close>

definition peer_values :: "PeerServerConfig \<Rightarrow> (string list \<times> cval) list" where
  "peer_values c =
    [([''peer''], CStr (cfg_peer c)),
     ([''peerEndpoint''], CStr (cfg_peerEndpoint c)),
     ([''pingCallbackEndpoint''], CStr (cfg_pingCallbackEndpoint c)),
     ([''authConfig'', ''tokenEndpoint''], CStr (tokenEndpoint (authConfig c))),
     ([''authConfig'', ''clientKey''], CStr (clientKey (authConfig c))),
     ([''authConfig'', ''clientSecret''], CStr (clientSecret (authConfig c))),
     ([''authConfig'', ''accessTokenUpdateIntervalSec''], CNum (accessTokenUpdateIntervalSec (authConfig c))),
     ([''authConfig'', ''retryAccessTokenUpdatesTimeoutSec''], CNum (retryAccessTokenUpdatesTimeoutSec (authConfig c))),
     ([''authConfig'', ''retryDnsErrorTimeoutSec''], CNum (auth_retryDnsErrorTimeoutSec (authConfig c))),
     ([''controlAgentConfig'', ''wsHost''], CStr (wsHost (controlAgentConfig c))),
     ([''controlAgentConfig'', ''wsPort''], CNum (wsPort (controlAgentConfig c))),
     ([''controlAgentConfig'', ''connectionTimeout''], CNum (connectionTimeout (controlAgentConfig c))),
     ([''controlAgentConfig'', ''timeout''], CNum (msgTimeout (controlAgentConfig c))),
     ([''controlAgentConfig'', ''reconnectInterval''], CNum (reconnectInterval (controlAgentConfig c))),
     ([''serverConfig'', ''port''], CNum (srv_port (serverConfig c))),
     ([''serverConfig'', ''host''], CStr (srv_host (serverConfig c)))]"

definition app_values :: "AppConfig \<Rightarrow> (string list \<times> cval) list" where
  "app_values c =
    [([''PROXY_ID''], CStr (PROXY_ID c)), ([''LOG_LEVEL''], CStr (LOG_LEVEL c)),
     ([''pm4mlEnabled''], CBool (pm4mlEnabled c)),
     ([''incomingHeadersRemoval''], CArr (incomingHeadersRemoval c)),
     ([''checkPeerJwsInterval''], CNum (checkPeerJwsInterval c)),
     ([''retryStartTimeoutSec''], CNum (retryStartTimeoutSec c)),
     ([''retryDnsErrorTimeoutSec''], CNum (retryDnsErrorTimeoutSec c))]"

lemma conforms_typed:
  "conforms FString v \<Longrightarrow> CStr (c_str v) = v"
  "conforms FNumber v \<Longrightarrow> CNum (c_num v) = v"
  "conforms FPort v \<Longrightarrow> CNum (c_num v) = v"
  "conforms FBoolean v \<Longrightarrow> CBool (c_bool v) = v"
  "conforms FArray v \<Longrightarrow> CArr (c_arr v) = v"
  "conforms FPort v \<Longrightarrow> 0 \<le> c_num v \<and> c_num v \<le> 65535"
  by (cases v; simp)+

definition settings_values :: "convict \<Rightarrow> schema \<Rightarrow> (string list \<times> cval) list" where
  "settings_values conv sch = map (\<lambda>(p, r). (p, config_get conv sch p)) sch"

text \<open>Looking up the paths of a schema without repeated paths gives its rows.\<close>

lemma distinct_paths: "distinct (map fst peerA_schema)" "distinct (map fst peerB_schema)" "distinct (map fst top_schema)"
  by code_simp+

lemma settings_rows:
  assumes "sch = rs" and "distinct (map fst sch)"
  shows "settings_values conv sch = map (\<lambda>(p, r). (p, row_value conv r)) rs"
    and "list_all (\<lambda>(p, r). config_get conv sch p = row_value conv r) rs"
  using assms by (auto simp: settings_values_def config_get_def list_all_iff)

lemmas row_simps = list.pred_inject prod.case row_value_def row.case list.map snd_conv

lemmas peerA_lookups = settings_rows(2) [OF peerA_schema_def distinct_paths(1), unfolded row_simps]
lemmas peerB_lookups = settings_rows(2) [OF peerB_schema_def distinct_paths(2), unfolded row_simps]
lemmas top_lookups = settings_rows(2) [OF top_schema_def distinct_paths(3), unfolded row_simps]

lemmas schema_values =
  settings_rows(1) [OF peerA_schema_def distinct_paths(1), unfolded row_simps]
  settings_rows(1) [OF peerB_schema_def distinct_paths(2), unfolded row_simps]
  settings_rows(1) [OF top_schema_def distinct_paths(3), unfolded row_simps]

text \<open>The typed reading of each schema, and what its validation says of each row.\<close>

definition valid_schema :: "convict \<Rightarrow> schema \<Rightarrow> bool" where
  "valid_schema conv sch = list_all (row_valid conv) (map snd sch)"

lemma config_validate_schemas:
  "config_validate conv \<longleftrightarrow> valid_schema conv top_schema \<and> valid_schema conv peerA_schema \<and> valid_schema conv peerB_schema"
  by (auto simp: config_validate_def valid_schema_def list_all_iff)

lemma peerA_typed:
  assumes "valid_schema conv peerA_schema"
  shows "peer_values (peer_config conv peerA_schema) = settings_values conv peerA_schema
       \<and> wsPort (controlAgentConfig (peer_config conv peerA_schema)) \<in> {0..65535}
       \<and> srv_port (serverConfig (peer_config conv peerA_schema)) \<in> {0..65535}"
  using assms [unfolded valid_schema_def peerA_schema_def row_simps row_valid.simps]
  unfolding peer_values_def peer_config_def Let_def schema_values
  by (simp only: PeerServerConfig.simps AuthConfig.simps ControlAgentConfig.simps ServerConfig.simps
      peerA_lookups conforms_typed c_str.simps atLeastAtMost_iff simp_thms)

lemma peerB_typed:
  assumes "valid_schema conv peerB_schema"
  shows "peer_values (peer_config conv peerB_schema) = settings_values conv peerB_schema
       \<and> wsPort (controlAgentConfig (peer_config conv peerB_schema)) \<in> {0..65535}
       \<and> srv_port (serverConfig (peer_config conv peerB_schema)) \<in> {0..65535}"
  using assms [unfolded valid_schema_def peerB_schema_def row_simps row_valid.simps]
  unfolding peer_values_def peer_config_def Let_def schema_values
  by (simp only: PeerServerConfig.simps AuthConfig.simps ControlAgentConfig.simps ServerConfig.simps
      peerB_lookups conforms_typed c_str.simps atLeastAtMost_iff simp_thms)

lemma app_typed:
  assumes "valid_schema conv top_schema"
  shows "app_values (app_config conv) = settings_values conv top_schema"
  using assms [unfolded valid_schema_def top_schema_def row_simps row_valid.simps]
  unfolding app_values_def app_config_def schema_values
  by (simp only: AppConfig.simps top_lookups conforms_typed simp_thms)

text \<open>
  C30. A validated configuration has its declared type. When \<^verbatim>\<open>config.validate\<close> accepts what convict
  makes of the environment, the typed configuration of the application and of both peers, written
  back path by path, is exactly what \<^verbatim>\<open>config.get\<close> gives at every path of the three schemas, so no
  setting is read at a wrong type, dropped or taken for another; and every port is one.
\<close>

theorem validated_config_typed:
  assumes "config_validate conv"
  defines "c \<equiv> app_config conv"
  shows "app_values c = settings_values conv top_schema
       \<and> peer_values (peerAConfig c) = settings_values conv peerA_schema
       \<and> peer_values (peerBConfig c) = settings_values conv peerB_schema
       \<and> (\<forall>p \<in> {peerAConfig c, peerBConfig c}.
            wsPort (controlAgentConfig p) \<in> {0..65535} \<and> srv_port (serverConfig p) \<in> {0..65535})"
  using assms(1) peerA_typed [of conv] peerB_typed [of conv] app_typed [of conv]
  unfolding c_def config_validate_schemas app_config_sel by blast

theorem validated_config_typed_witness:
  "wsPort (controlAgentConfig (peerAConfig (app_config (\<lambda>f d e. case f of FString \<Rightarrow> CStr e | _ \<Rightarrow>
      if d = CNull then CNum 4005 else d)))) \<in> {0..65535}"
proof -
  have "config_validate (\<lambda>f d e. case f of FString \<Rightarrow> CStr e | _ \<Rightarrow> if d = CNull then CNum 4005 else d)"
    by code_simp
  then show ?thesis using validated_config_typed by blast
qed

section \<open>What the schema promises\<close>

text \<open>
  The two peers' schemas are the same up to the label: swapping the label suffix of an
  environment variable, and the literal label, turns one into the other.
\<close>

definition swap_suffix :: "string \<Rightarrow> string" where
  "swap_suffix s =
     (let base = take (length s - 2) s; suffix = drop (length s - 2) s in
      base @ (if suffix = ''_A'' then ''_B'' else if suffix = ''_B'' then ''_A'' else suffix))"

definition swap_label :: "string \<Rightarrow> string" where
  "swap_label l = (if l = ''A'' then ''B'' else if l = ''B'' then ''A'' else l)"

fun swap_row :: "row \<Rightarrow> row" where
  "swap_row (Literal l) = Literal (swap_label l)"
| "swap_row (Setting f d e s) = Setting f d (swap_suffix e) s"

text \<open>Two rows mirror each other; the listening port alone may have another default.\<close>

definition row_mirrors :: "string list \<times> row \<Rightarrow> string list \<times> row \<Rightarrow> bool" where
  "row_mirrors a b \<longleftrightarrow>
     fst a = fst b \<and>
     (case (swap_row (snd a), snd b) of
        (Literal l, Literal m) \<Rightarrow> l = m
      | (Setting f d e s, Setting f' d' e' s') \<Rightarrow>
          f = f' \<and> e = e' \<and> s = s' \<and> (d = d' \<or> fst a = [''serverConfig'', ''port''])
      | _ \<Rightarrow> False)"

text \<open>
  The schemas of peer A and peer B differ only in the label: they have the same rows in
  the same order, each row of A with its label (and the label suffix of its environment
  variable) swapped being the row of B, but for the default of the listening port. No
  setting is read under an environment variable of the wrong peer.
\<close>

theorem peer_schemas_symmetric: "list_all2 row_mirrors peerA_schema peerB_schema"
  by code_simp

text \<open>
  Whatever the environment holds, the endpoint to which a peer's \<^verbatim>\<open>PUT /ping\<close> callback
  goes is the other peer's hub endpoint, and both peers use the same intervals to retry a
  failed token request and a DNS error, the latter also being the interval after which a start
  that failed on a DNS error is retried.
\<close>

theorem callback_endpoint_is_other_hub:
  "cfg_pingCallbackEndpoint (peerAConfig (app_config conv)) = cfg_peerEndpoint (peerBConfig (app_config conv))
   \<and> cfg_pingCallbackEndpoint (peerBConfig (app_config conv)) = cfg_peerEndpoint (peerAConfig (app_config conv))
   \<and> auth_retryDnsErrorTimeoutSec (authConfig (peerAConfig (app_config conv)))
       = retryDnsErrorTimeoutSec (app_config conv)
   \<and> auth_retryDnsErrorTimeoutSec (authConfig (peerBConfig (app_config conv)))
       = retryDnsErrorTimeoutSec (app_config conv)
   \<and> retryAccessTokenUpdatesTimeoutSec (authConfig (peerAConfig (app_config conv)))
       = retryAccessTokenUpdatesTimeoutSec (authConfig (peerBConfig (app_config conv)))"
  by (simp add: peerA_lookups peerB_lookups top_lookups)

end
