(* ===== verification/Dto.thy ===== *)
theory Dto
  imports Settings
begin

text \<open>
  The data that crosses the components: the errors the code throws and catches
  (\<^verbatim>\<open>src/errors.ts\<close> and axios' error objects), HTTP responses, the state of a peer's server
  and its events (\<^verbatim>\<open>src/domain/types.ts\<close>), and the response bodies of \<^verbatim>\<open>src/dto.ts\<close>.
\<close>

section \<open>Thrown values\<close>

type_synonym headers = "string obj"

text \<open>
  What axios gives: a response, or an \<^verbatim>\<open>AxiosError\<close> with an optional code, status and the
  response of the server, if it sent one.
\<close>

record axios_response =
  ar_status :: int
  ar_data :: "js option"
  ar_headers :: "js option"

record axios_error =
  ae_message :: string
  ae_code :: "string option"
  ae_status :: "int option"
  ae_response :: "axios_response option"

text \<open>
  A thrown value: an axios error, another instance of \<^verbatim>\<open>Error\<close> (with the \<^verbatim>\<open>TypeError\<close>s of the
  language and of \<^verbatim>\<open>ControlAgent\<close> apart), or a value that is no \<^verbatim>\<open>Error\<close>.
\<close>

datatype thrown =
    ThrownAxios axios_error
  | ThrownError string
  | ThrownTypeError string
  | ThrownValue "js option"

definition is_error :: "thrown \<Rightarrow> bool" where
  "is_error e = (case e of ThrownValue _ \<Rightarrow> False | _ \<Rightarrow> True)"

fun error_message :: "thrown \<Rightarrow> string" where
  "error_message (ThrownAxios a) = ae_message a"
| "error_message (ThrownError m) = m"
| "error_message (ThrownTypeError m) = m"
| "error_message (ThrownValue _) = []"

definition DNS_RELATED_CODES :: "string list" where
  "DNS_RELATED_CODES = [''EAI_AGAIN'', ''ENOTFOUND'']"

definition isDnsRelatedError :: "thrown \<Rightarrow> bool" where
  "isDnsRelatedError e =
     (case e of
        ThrownAxios a \<Rightarrow> (case ae_code a of None \<Rightarrow> False | Some c \<Rightarrow> c \<in> set DNS_RELATED_CODES)
      | _ \<Rightarrow> False)"

lemma isDnsRelatedError_not_axios [simp]:
  "isDnsRelatedError (ThrownError m) = False"
  "isDnsRelatedError (ThrownTypeError m) = False"
  "isDnsRelatedError (ThrownValue v) = False"
  by (simp_all add: isDnsRelatedError_def)

section \<open>Property access\<close>

text \<open>
  \<^verbatim>\<open>v.k\<close>: a \<^verbatim>\<open>TypeError\<close> on \<open>undefined\<close> and \<open>null\<close>, the own property of an object, and
  \<open>undefined\<close> on the other values (the keys the code reads are properties of none of them).
\<close>

definition getp :: "js option \<Rightarrow> string \<Rightarrow> thrown + js option" where
  "getp v k =
     (case v of
        None \<Rightarrow> Inl (ThrownTypeError (''Cannot read properties of undefined (reading '' @ k @ '')''))
      | Some JNull \<Rightarrow> Inl (ThrownTypeError (''Cannot read properties of null (reading '' @ k @ '')''))
      | Some (JObj ps) \<Rightarrow> Inr (oget ps k)
      | Some _ \<Rightarrow> Inr None)"

text \<open>\<^verbatim>\<open>v?.k\<close>\<close>

definition opt_getp :: "js option \<Rightarrow> string \<Rightarrow> js option" where
  "opt_getp v k = (case getp v k of Inl _ \<Rightarrow> None | Inr w \<Rightarrow> w)"

lemma getp_simps [simp, js_simps]:
  "getp (Some (JObj ps)) k = Inr (oget ps k)"
  "getp (Some (JArr xs)) k = Inr None"
  "getp (Some (JStr s)) k = Inr None"
  "getp (Some (JNum n)) k = Inr None"
  "getp (Some (JBool b)) k = Inr None"
  "getp (Some (JBuf bs)) k = Inr None"
  "getp (Some (JFrac s)) k = Inr None"
  by (simp_all add: getp_def)

lemma opt_getp_simps [simp, js_simps]:
  "opt_getp None k = None"
  "opt_getp (Some JNull) k = None"
  "opt_getp (Some (JObj ps)) k = oget ps k"
  "opt_getp (Some (JArr xs)) k = None"
  "opt_getp (Some (JStr s)) k = None"
  "opt_getp (Some (JNum n)) k = None"
  "opt_getp (Some (JBool b)) k = None"
  "opt_getp (Some (JBuf bs)) k = None"
  "opt_getp (Some (JFrac s)) k = None"
  by (simp_all add: opt_getp_def getp_def)

lemma getp_ok_iff: "(\<exists>w. getp v k = Inr w) \<longleftrightarrow> v \<noteq> None \<and> v \<noteq> Some JNull"
  by (auto simp: getp_def split: option.splits js.splits)

lemma getp_truthy: "truthy v \<Longrightarrow> getp v k = Inr (opt_getp v k)"
  by (cases v rule: truthy.cases) auto

section \<open>Requests, responses and the state of a server\<close>

text \<open>The parts of an incoming URL that the proxy forwards.\<close>

record IncomingRequestDetails =
  url_pathname :: string
  url_search :: string
  req_method :: string
  req_headers :: headers
  req_payload :: "js option"

record ProxyHandlerResponse =
  res_status :: int
  res_data :: "js option"
  res_headers :: "js option"

text \<open>
  An HTTPS agent, by the number of its creation, with the credentials it was created from
  and the options it was given.
\<close>

record agent =
  agent_no :: nat
  agent_certs :: js
  agent_opts :: "js obj"

record ServerState =
  peerEndpoint :: string
  accessToken :: string
  httpsAgent :: "agent option"

record ServerStateEvent =
  ev_accessToken :: "string option"
  ev_certs :: "js option"

abbreviation token_event :: "string \<Rightarrow> ServerStateEvent" where
  "token_event t \<equiv> \<lparr> ev_accessToken = Some t, ev_certs = None \<rparr>"

abbreviation certs_event :: "js \<Rightarrow> ServerStateEvent" where
  "certs_event c \<equiv> \<lparr> ev_accessToken = None, ev_certs = Some c \<rparr>"

record HttpRequestOptions =
  opt_agent :: "agent option"
  opt_url :: string
  opt_method :: string
  opt_headers :: headers
  opt_data :: "js option"

section \<open>Response bodies\<close>

definition errorResponseDto :: "int \<Rightarrow> string \<Rightarrow> string \<Rightarrow> ProxyHandlerResponse" where
  "errorResponseDto st code descr =
     \<lparr> res_status = st,
       res_data = Some (JObj [(''errorInformation'',
          JObj [(''errorCode'', JStr code), (''errorDescription'', JStr descr)])]),
       res_headers = None \<rparr>"

definition errorResponsePeerFailedToStartDto :: ProxyHandlerResponse where
  "errorResponsePeerFailedToStartDto =
     errorResponseDto 503 ''2003'' ''Proxy Adapter is temporarily unavailable''"

record HealthcheckDetails =
  hd_accessToken :: "bool option"
  hd_certs :: "bool option"
  hd_isReady :: bool

definition serverStateToHealthcheckDetailsDto :: "bool \<Rightarrow> ServerState \<Rightarrow> HealthcheckDetails" where
  "serverStateToHealthcheckDetailsDto pm4ml st =
     (if \<not> pm4ml then \<lparr> hd_accessToken = None, hd_certs = None, hd_isReady = True \<rparr>
      else
        (let token = truthy_str (Some (accessToken st)); certs = (httpsAgent st \<noteq> None) in
         \<lparr> hd_accessToken = Some token, hd_certs = Some certs, hd_isReady = (token \<and> certs) \<rparr>))"

lemma hd_isReady_iff:
  "hd_isReady (serverStateToHealthcheckDetailsDto pm4ml st) \<longleftrightarrow>
     (pm4ml \<longrightarrow> accessToken st \<noteq> [] \<and> httpsAgent st \<noteq> None)"
  by (simp add: serverStateToHealthcheckDetailsDto_def Let_def)

section \<open>Sinks of server-state events\<close>

text \<open>
  Two components of the adapter consume the same stream of server-state events: the HTTP
  server of the peer that emits them and, through the adapter, the ping service of the
  other peer. The interface says what each keeps of an event: the token, when its own
  test accepts the event's token, and the credentials, when they are truthy.
\<close>

fun last_accepted :: "('a \<Rightarrow> 'b option) \<Rightarrow> 'b \<Rightarrow> 'a list \<Rightarrow> 'b" where
  "last_accepted sel d [] = d"
| "last_accepted sel d (e # es) =
     last_accepted sel (case sel e of None \<Rightarrow> d | Some v \<Rightarrow> v) es"

lemma last_accepted_append:
  "last_accepted sel d (es @ fs) = last_accepted sel (last_accepted sel d es) fs"
  by (induction es arbitrary: d) auto

lemma last_accepted_none: "(\<And>e. e \<in> set es \<Longrightarrow> sel e = None) \<Longrightarrow> last_accepted sel d es = d"
  by (induction es arbitrary: d) auto

definition accepted_token :: "(string \<Rightarrow> bool) \<Rightarrow> ServerStateEvent \<Rightarrow> string option" where
  "accepted_token accepts e =
     (case ev_accessToken e of None \<Rightarrow> None | Some t \<Rightarrow> if accepts t then Some t else None)"

definition accepted_certs :: "ServerStateEvent \<Rightarrow> js option option" where
  "accepted_certs e = (if truthy (ev_certs e) then Some (ev_certs e) else None)"

locale auth_sink =
  fixes consume :: "ServerStateEvent \<Rightarrow> 's \<Rightarrow> 's"
    and token :: "'s \<Rightarrow> string"
    and certs :: "'s \<Rightarrow> js option"
    and accepts :: "string \<Rightarrow> bool"
  assumes token_consume:
      "token (consume e s) = (case accepted_token accepts e of None \<Rightarrow> token s | Some t \<Rightarrow> t)"
    and certs_consume:
      "certs (consume e s) = (case accepted_certs e of None \<Rightarrow> certs s | Some c \<Rightarrow> c)"
begin

lemma token_run: "token (fold consume es s) = last_accepted (accepted_token accepts) (token s) es"
  by (induction es arbitrary: s) (simp_all add: token_consume)

lemma certs_run: "certs (fold consume es s) = last_accepted accepted_certs (certs s) es"
  by (induction es arbitrary: s) (simp_all add: certs_consume)

lemma certs_stay:
  "certs s \<noteq> None \<Longrightarrow> certs (consume e s) \<noteq> None"
  by (auto simp: certs_consume accepted_certs_def dest: truthy_not_nullish)

end

end
