(* ===== verification/Base64.thy ===== *)
theory Base64
  imports Prelude
begin

text \<open>
  Node's \<^verbatim>\<open>Buffer.from(s).toString('base64')\<close>, which \<^verbatim>\<open>AuthClient.createHttpOptions\<close> uses, and
  the decoding of RFC 4648 as its specification. A string is the list of its UTF-8 bytes.
\<close>

definition b64_alphabet :: string where
  "b64_alphabet = ''ABCDEFGHIJKLMNOPQRSTUVWXYZabcdefghijklmnopqrstuvwxyz0123456789+/''"

definition b64_char :: "nat \<Rightarrow> char" where
  "b64_char n = b64_alphabet ! n"

fun b64_encode :: "nat list \<Rightarrow> string" where
  "b64_encode [] = []"
| "b64_encode [a] = [b64_char (a div 4), b64_char ((a mod 4) * 16), CHR ''='', CHR ''='']"
| "b64_encode [a, b] =
     [b64_char (a div 4), b64_char ((a mod 4) * 16 + b div 16), b64_char ((b mod 16) * 4), CHR ''='']"
| "b64_encode (a # b # c # rest) =
     [b64_char (a div 4), b64_char ((a mod 4) * 16 + b div 16),
      b64_char ((b mod 16) * 4 + c div 64), b64_char (c mod 64)] @ b64_encode rest"

definition base64_of_string :: "string \<Rightarrow> string" where
  "base64_of_string s = b64_encode (map of_char s)"

section \<open>Decoding\<close>

fun index_of :: "char \<Rightarrow> string \<Rightarrow> nat option" where
  "index_of c [] = None"
| "index_of c (d # ds) = (if c = d then Some 0 else map_option Suc (index_of c ds))"

definition b64_val :: "char \<Rightarrow> nat option" where
  "b64_val c = index_of c b64_alphabet"

text \<open>A group of four characters gives one, two or three bytes, by its padding.\<close>

definition b64_group :: "char \<Rightarrow> char \<Rightarrow> char \<Rightarrow> char \<Rightarrow> nat list option" where
  "b64_group w x y z =
     (case (b64_val w, b64_val x) of
        (Some p, Some q) \<Rightarrow>
          let a = p * 4 + q div 16 in
          if y = CHR ''='' then (if z = CHR ''='' then Some [a] else None)
          else (case b64_val y of
             None \<Rightarrow> None
           | Some r \<Rightarrow>
               let b = (q mod 16) * 16 + r div 4 in
               if z = CHR ''='' then Some [a, b]
               else map_option (\<lambda>t. [a, b, (r mod 4) * 64 + t]) (b64_val z))
      | _ \<Rightarrow> None)"

fun b64_decode :: "string \<Rightarrow> nat list option" where
  "b64_decode [] = Some []"
| "b64_decode (w # x # y # z # rest) =
     (case (b64_group w x y z, b64_decode rest) of
        (Some bs, Some cs) \<Rightarrow> Some (bs @ cs)
      | _ \<Rightarrow> None)"
| "b64_decode _ = None"

definition string_of_base64 :: "string \<Rightarrow> string option" where
  "string_of_base64 t = map_option (map char_of) (b64_decode t)"

lemma b64_table: "list_all (\<lambda>n. b64_val (b64_char n) = Some n \<and> b64_char n \<noteq> CHR ''='') [0..<64]"
  by code_simp

lemma b64_val_char [simp]: "n < 64 \<Longrightarrow> b64_val (b64_char n) = Some n"
  using b64_table by (auto simp: list_all_iff)

lemma b64_char_not_pad [simp]: "n < 64 \<Longrightarrow> b64_char n \<noteq> CHR ''=''"
  using b64_table by (auto simp: list_all_iff)

text \<open>Packing two digits into one and taking them apart again.\<close>

lemma unpack: "(r::nat) < n \<Longrightarrow> (k * n + r) div n = k" "r < n \<Longrightarrow> (k * n + r) mod n = r"
  by simp_all

lemma digit_bounds:
  "(b::nat) < 256 \<Longrightarrow> b div 4 < 64"
  "(b::nat) < 256 \<Longrightarrow> b div 16 < 16"
  "(b::nat) < 256 \<Longrightarrow> b div 64 < 4"
  by auto

lemma six_bits:
  "(q::nat) < 16 \<Longrightarrow> a mod 4 * 16 + q < 64"
  "(r::nat) < 4 \<Longrightarrow> b mod 16 * 4 + r < 64"
  "(a::nat) mod 4 * 16 < 64"
  "(b::nat) mod 16 * 4 < 64"
proof -
  have m: "a mod 4 < 4" "b mod 16 < 16" by simp_all
  show "q < 16 \<Longrightarrow> a mod 4 * 16 + q < 64" "r < 4 \<Longrightarrow> b mod 16 * 4 + r < 64"
    "a mod 4 * 16 < 64" "b mod 16 * 4 < 64"
    using m by linarith+
qed

lemma group_of_three:
  assumes "a < 256" "b < 256" "c < 256"
  shows "b64_group (b64_char (a div 4)) (b64_char (a mod 4 * 16 + b div 16))
           (b64_char (b mod 16 * 4 + c div 64)) (b64_char (c mod 64)) = Some [a, b, c]"
  using assms by (simp add: b64_group_def Let_def digit_bounds six_bits unpack)

lemma group_of_two:
  assumes "a < 256" "b < 256"
  shows "b64_group (b64_char (a div 4)) (b64_char (a mod 4 * 16 + b div 16))
           (b64_char (b mod 16 * 4)) (CHR ''='') = Some [a, b]"
  using assms by (simp add: b64_group_def Let_def digit_bounds six_bits unpack)

lemma group_of_one:
  assumes "a < 256"
  shows "b64_group (b64_char (a div 4)) (b64_char (a mod 4 * 16)) (CHR ''='') (CHR ''='') = Some [a]"
  using assms by (simp add: b64_group_def Let_def digit_bounds six_bits)

lemma b64_decode_encode: "list_all (\<lambda>b. b < 256) bs \<Longrightarrow> b64_decode (b64_encode bs) = Some bs"
  by (induction bs rule: b64_encode.induct) (simp_all add: group_of_one group_of_two group_of_three)

lemma base64_roundtrip: "string_of_base64 (base64_of_string s) = Some s"
proof -
  have "list_all (\<lambda>b. b < (256::nat)) (map of_char s)"
    by (simp add: list_all_iff)
  then show ?thesis
    by (simp add: string_of_base64_def base64_of_string_def b64_decode_encode comp_def)
qed

end
