(* ===== verification/Auth_Client.thy ===== *)
theory Auth_Client
  imports Dto Base64
begin

text \<open>
  \<^verbatim>\<open>src/infra/AuthClient.ts\<close>: the OAuth token request and the loop that refreshes the token.
  One turn of the event loop is one step: a call starts a request, its response runs the
  code after the \<^verbatim>\<open>await\<close>, a timer that fires starts the next request.
\<close>

section \<open>The token request\<close>

record token_request =
  tr_url :: string
  tr_method :: string
  tr_data :: "string obj"
  tr_headers :: headers

definition createHttpOptions :: "AuthConfig \<Rightarrow> token_request" where
  "createHttpOptions cfg =
     \<lparr> tr_url = tokenEndpoint cfg,
       tr_method = ''POST'',
       tr_data = [(''grant_type'', ''client_credentials'')],
       tr_headers =
         [(''Authorization'', ''Basic '' @ base64_of_string (clientKey cfg @ '':'' @ clientSecret cfg)),
          (''Content-Type'', ''application/x-www-form-urlencoded'')] \<rparr>"

text \<open>How RFC 7617 reads the header: the text after the scheme, decoded, split at its first colon.\<close>

definition parse_basic :: "string \<Rightarrow> (string \<times> string) option" where
  "parse_basic h =
     (if take 6 h = ''Basic ''
      then (case string_of_base64 (drop 6 h) of
              None \<Rightarrow> None
            | Some s \<Rightarrow>
                (case dropWhile (\<lambda>c. c \<noteq> CHR '':'') s of
                   [] \<Rightarrow> None
                 | _ # secret \<Rightarrow> Some (takeWhile (\<lambda>c. c \<noteq> CHR '':'') s, secret)))
      else None)"

text \<open>
  The token endpoint gets the configured credentials back: reading the \<^verbatim>\<open>Authorization\<close>
  header of the token request as RFC 7617 says gives the client key and the client secret,
  whatever bytes they hold, as long as the key has no colon.
\<close>

theorem basic_credentials_roundtrip:
  assumes "CHR '':'' \<notin> set (clientKey cfg)"
  shows "map_option parse_basic (oget (tr_headers (createHttpOptions cfg)) ''Authorization'')
           = Some (Some (clientKey cfg, clientSecret cfg))"
  using assms
  by (simp add: createHttpOptions_def parse_basic_def base64_roundtrip
      takeWhile_append dropWhile_append)

theorem basic_credentials_roundtrip_witness:
  "map_option parse_basic (oget (tr_headers (createHttpOptions
     \<lparr> tokenEndpoint = ''http://idp/token'', clientKey = ''dfsp-jwt'', clientSecret = ''secret:A'',
       accessTokenUpdateIntervalSec = 60, retryAccessTokenUpdatesTimeoutSec = 5,
       auth_retryDnsErrorTimeoutSec = 5 \<rparr>)) ''Authorization'')
   = Some (Some (''dfsp-jwt'', ''secret:A''))"
  by (subst basic_credentials_roundtrip) simp_all

section \<open>The response\<close>

text \<open>
  The body of the token response, at its declared type but with both fields possibly absent
  on the wire; no body at all is \<open>None\<close>.
\<close>

record oidc_data =
  access_token :: "string option"
  expires_in :: "int option"

type_synonym oidc_http = "thrown + oidc_data option"

datatype OidcResponseData = OidcToken string int | OidcError thrown

definition invalid_format :: thrown where
  "invalid_format = ThrownError ''Invalid response format from oidcToken endpoint''"

definition getOidcToken :: "oidc_http \<Rightarrow> OidcResponseData" where
  "getOidcToken r =
     (case r of
        Inl e \<Rightarrow> OidcError e
      | Inr None \<Rightarrow>
          OidcError (ThrownTypeError ''Cannot read properties of undefined (reading access_token)'')
      | Inr (Some d) \<Rightarrow>
          (case (access_token d, expires_in d) of
             (Some t, Some n) \<Rightarrow> if t = [] \<or> n = 0 then OidcError invalid_format else OidcToken t n
           | _ \<Rightarrow> OidcError invalid_format))"

text \<open>The token that is emitted: the new one, or the empty string after a failure.\<close>

definition emitted_token :: "OidcResponseData \<Rightarrow> string" where
  "emitted_token d = (case d of OidcToken t n \<Rightarrow> t | OidcError e \<Rightarrow> [])"

definition updateTimeoutSec :: "AuthConfig \<Rightarrow> OidcResponseData \<Rightarrow> int" where
  "updateTimeoutSec cfg d =
     (case d of
        OidcError e \<Rightarrow>
          if isDnsRelatedError e then auth_retryDnsErrorTimeoutSec cfg
          else retryAccessTokenUpdatesTimeoutSec cfg
      | OidcToken t n \<Rightarrow> min (accessTokenUpdateIntervalSec cfg) n - IN_ADVANCE_PERIOD_SEC)"

text \<open>\<^verbatim>\<open>{ success: true }\<close> is \<open>None\<close>; a value that is no \<^verbatim>\<open>Error\<close> is wrapped into one.\<close>

definition makeAccessTokenUpdatesResult :: "OidcResponseData \<Rightarrow> thrown option" where
  "makeAccessTokenUpdatesResult d =
     (case d of
        OidcToken t n \<Rightarrow> None
      | OidcError e \<Rightarrow> Some (if is_error e then e else ThrownError ''Unknown Error in getOidcToken''))"

lemma emitted_token_nonempty: "emitted_token (getOidcToken r) = [] \<longleftrightarrow> (\<exists>e. getOidcToken r = OidcError e)"
  by (auto simp: emitted_token_def getOidcToken_def split: sum.split option.split)

lemma updates_result_ok_iff:
  "makeAccessTokenUpdatesResult (getOidcToken r) = None \<longleftrightarrow> emitted_token (getOidcToken r) \<noteq> []"
  by (auto simp: emitted_token_def getOidcToken_def makeAccessTokenUpdatesResult_def
      split: sum.split option.split)

section \<open>The refresh loop\<close>

text \<open>
  \<open>auth_timer\<close> is the field \<^verbatim>\<open>timer\<close>, \<open>auth_armed\<close> the timers pending in Node (number and
  delay in ms), \<open>in_flight\<close> the calls of \<^verbatim>\<open>startAccessTokenUpdates\<close> that await their response:
  \<open>True\<close> for one whose result \<^verbatim>\<open>PeerServer.getAccessToken\<close> awaits, \<open>False\<close> for one that a
  timer started.
\<close>

record AuthClient =
  auth_timer :: "nat option"
  auth_armed :: "(nat \<times> int) list"
  in_flight :: "bool list"
  auth_next :: nat

definition auth_init :: AuthClient where
  "auth_init = \<lparr> auth_timer = None, auth_armed = [], in_flight = [], auth_next = 0 \<rparr>"

datatype auth_out =
    TokenRequest token_request
  | EmitNewToken string
  | UpdatesResult "thrown option"

datatype auth_event =
    AuthStart
  | AuthResponse nat oidc_http
  | AuthFire nat
  | AuthStop

definition startAccessTokenUpdates :: "AuthConfig \<Rightarrow> bool \<Rightarrow> AuthClient \<Rightarrow> AuthClient \<times> auth_out list" where
  "startAccessTokenUpdates cfg awaited s =
     (s\<lparr> in_flight := in_flight s @ [awaited] \<rparr>, [TokenRequest (createHttpOptions cfg)])"

text \<open>After the \<^verbatim>\<open>await\<close>: emit the token, arm the next update, return to who awaits.\<close>

definition resume_updates ::
  "AuthConfig \<Rightarrow> bool \<Rightarrow> oidc_http \<Rightarrow> AuthClient \<Rightarrow> AuthClient \<times> auth_out list" where
  "resume_updates cfg awaited r s =
     (let d = getOidcToken r; t = auth_next s in
      (s\<lparr> auth_timer := Some t,
          auth_armed := auth_armed s @ [(t, node_delay (updateTimeoutSec cfg d * 1000))],
          auth_next := Suc t \<rparr>,
       EmitNewToken (emitted_token d)
         # (if awaited then [UpdatesResult (makeAccessTokenUpdatesResult d)] else [])))"

definition stopUpdates :: "AuthClient \<Rightarrow> AuthClient" where
  "stopUpdates s =
     (case auth_timer s of
        None \<Rightarrow> s
      | Some t \<Rightarrow> s\<lparr> auth_timer := None, auth_armed := filter (\<lambda>p. fst p \<noteq> t) (auth_armed s) \<rparr>)"

definition drop_nth :: "nat \<Rightarrow> 'a list \<Rightarrow> 'a list" where
  "drop_nth i xs = take i xs @ drop (Suc i) xs"

definition auth_step :: "AuthConfig \<Rightarrow> AuthClient \<Rightarrow> auth_event \<Rightarrow> AuthClient \<times> auth_out list" where
  "auth_step cfg s e =
     (case e of
        AuthStart \<Rightarrow> startAccessTokenUpdates cfg True s
      | AuthResponse i r \<Rightarrow>
          if i < length (in_flight s)
          then resume_updates cfg (in_flight s ! i) r (s\<lparr> in_flight := drop_nth i (in_flight s) \<rparr>)
          else (s, [])
      | AuthFire t \<Rightarrow>
          if t \<in> fst ` set (auth_armed s)
          then startAccessTokenUpdates cfg False
                 (s\<lparr> auth_armed := filter (\<lambda>p. fst p \<noteq> t) (auth_armed s) \<rparr>)
          else (s, [])
      | AuthStop \<Rightarrow> (stopUpdates s, []))"

lemmas auth_defs [step_simps] =
  auth_step_def startAccessTokenUpdates_def resume_updates_def stopUpdates_def drop_nth_def Let_def

section \<open>The loops that are pending\<close>

text \<open>
  Every call of \<^verbatim>\<open>startAccessTokenUpdates\<close> is a loop of its own: it requests a token, waits,
  and requests the next one. The abstract state forgets numbers and order: the loops whose request
  is in flight (each with whether a caller awaits its result), the loops that wait (each with its
  delay), and the delay of the one waiting loop that the client still holds the timer of.
\<close>

record token_loops =
  requesting :: "bool multiset"
  waiting :: "int multiset"
  held :: "int option"

datatype loop_event =
    LoopStart
  | LoopAnswer bool oidc_http
  | LoopWake int bool
  | LoopStop
  | LoopIgnored

text \<open>
  A start adds a loop. An answer emits the token and makes its loop wait, and the client now holds
  that timer and no other. A loop that wakes sends the next request. A stop ends the loop whose
  timer the client holds, and no other loop.
\<close>

fun loops_step :: "AuthConfig \<Rightarrow> token_loops \<Rightarrow> loop_event \<Rightarrow> token_loops \<times> auth_out list" where
  "loops_step cfg l LoopStart =
     (l\<lparr> requesting := add_mset True (requesting l) \<rparr>, [TokenRequest (createHttpOptions cfg)])"
| "loops_step cfg l (LoopAnswer awaited r) =
     (let d = getOidcToken r; ms = node_delay (updateTimeoutSec cfg d * 1000) in
      (\<lparr> requesting = requesting l - {#awaited#}, waiting = add_mset ms (waiting l), held = Some ms \<rparr>,
       EmitNewToken (emitted_token d)
         # (if awaited then [UpdatesResult (makeAccessTokenUpdatesResult d)] else [])))"
| "loops_step cfg l (LoopWake ms of_held) =
     (\<lparr> requesting = add_mset False (requesting l), waiting = waiting l - {#ms#},
        held = (if of_held then None else held l) \<rparr>,
      [TokenRequest (createHttpOptions cfg)])"
| "loops_step cfg l LoopStop =
     (case held l of
        None \<Rightarrow> (l, [])
      | Some ms \<Rightarrow> (l\<lparr> waiting := waiting l - {#ms#}, held := None \<rparr>, []))"
| "loops_step cfg l LoopIgnored = (l, [])"

text \<open>Only a loop that is pending answers or wakes, and only a loop that waits is held.\<close>

fun loop_possible :: "token_loops \<Rightarrow> loop_event \<Rightarrow> bool" where
  "loop_possible l (LoopAnswer awaited r) = (awaited \<in># requesting l)"
| "loop_possible l (LoopWake ms of_held) = (ms \<in># waiting l \<and> (of_held \<longrightarrow> held l = Some ms))"
| "loop_possible l LoopStop = (\<forall>ms. held l = Some ms \<longrightarrow> ms \<in># waiting l)"
| "loop_possible l e = True"

definition held_delay :: "AuthClient \<Rightarrow> int option" where
  "held_delay s = (case auth_timer s of None \<Rightarrow> None | Some t \<Rightarrow> map_of (auth_armed s) t)"

definition loops_of :: "AuthClient \<Rightarrow> token_loops" where
  "loops_of s = \<lparr> requesting = mset (in_flight s), waiting = mset (map snd (auth_armed s)),
                  held = held_delay s \<rparr>"

definition loop_event_of :: "AuthClient \<Rightarrow> auth_event \<Rightarrow> loop_event" where
  "loop_event_of s e =
     (case e of
        AuthStart \<Rightarrow> LoopStart
      | AuthResponse i r \<Rightarrow> if i < length (in_flight s) then LoopAnswer (in_flight s ! i) r else LoopIgnored
      | AuthFire t \<Rightarrow> (case map_of (auth_armed s) t of
            None \<Rightarrow> LoopIgnored
          | Some ms \<Rightarrow> LoopWake ms (auth_timer s = Some t))
      | AuthStop \<Rightarrow> LoopStop)"

text \<open>Timers are numbered in the order they are armed.\<close>

definition auth_numbered :: "AuthClient \<Rightarrow> bool" where
  "auth_numbered s \<longleftrightarrow>
     distinct (map fst (auth_armed s)) \<and> (\<forall>p \<in> set (auth_armed s). fst p < auth_next s)
     \<and> (\<forall>t. auth_timer s = Some t \<longrightarrow> t < auth_next s)"

lemma auth_numbered_init [simp]: "auth_numbered auth_init"
  by (simp add: auth_numbered_def auth_init_def)

lemma auth_step_numbered: "auth_numbered s \<Longrightarrow> auth_numbered (fst (auth_step cfg s e))"
  by (cases e) (auto simp: auth_numbered_def auth_defs distinct_map_filter split: option.split)

lemma mset_drop_nth: "i < length xs \<Longrightarrow> mset (drop_nth i xs) = mset xs - {# xs ! i #}"
  by (subst (3) id_take_nth_drop [of i]) (simp_all add: drop_nth_def)

lemma waiting_without:
  assumes "auth_numbered s" and "map_of (auth_armed s) t = Some ms"
  shows "image_mset snd {#p \<in># mset (auth_armed s). fst p \<noteq> t#} = image_mset snd (mset (auth_armed s)) - {#ms#}"
    and "ms \<in> snd ` set (auth_armed s)"
    and "length (auth_armed s) = Suc (length (filter (\<lambda>p. fst p \<noteq> t) (auth_armed s)))"
proof -
  have all: "mset (map f (auth_armed s)) = add_mset (f (t, ms)) (mset (map f (filter (\<lambda>p. fst p \<noteq> t) (auth_armed s))))"
    for f :: "nat \<times> int \<Rightarrow> 'x"
    using mset_filter_key [of "auth_armed s" t ms f] assms by (simp add: auth_numbered_def)
  show "image_mset snd {#p \<in># mset (auth_armed s). fst p \<noteq> t#} = image_mset snd (mset (auth_armed s)) - {#ms#}"
    using all [of snd] by simp
  show "ms \<in> snd ` set (auth_armed s)"
    using assms(2) by (force dest: map_of_SomeD)
  show "length (auth_armed s) = Suc (length (filter (\<lambda>p. fst p \<noteq> t) (auth_armed s)))"
    using all [of id, THEN arg_cong [of _ _ size]] by (simp flip: size_mset)
qed

lemma filter_absent_key: "map_of xs t = None \<Longrightarrow> filter (\<lambda>p. fst p \<noteq> t) xs = xs"
  by (force simp: map_of_eq_None_iff filter_id_conv)

lemma map_of_filter_key: "map_of (filter (\<lambda>p. fst p \<noteq> t) xs) u = (if u = t then None else map_of xs u)"
  by (induction xs) auto

lemma fresh_timer: "auth_numbered s \<Longrightarrow> map_of (auth_armed s) (auth_next s) = None"
  by (fastforce simp: auth_numbered_def map_of_eq_None_iff)

lemma response_simulated:
  assumes "auth_numbered s" and "i < length (in_flight s)"
  shows "loops_step cfg (loops_of s) (LoopAnswer (in_flight s ! i) r) =
           (loops_of (fst (auth_step cfg s (AuthResponse i r))), snd (auth_step cfg s (AuthResponse i r)))"
  using assms(2) fresh_timer [OF assms(1)]
  by (simp add: auth_step_def resume_updates_def loops_of_def held_delay_def mset_drop_nth map_add_def Let_def)

lemma fire_simulated:
  assumes "auth_numbered s" and "map_of (auth_armed s) t = Some ms"
  shows "loops_step cfg (loops_of s) (LoopWake ms (auth_timer s = Some t)) =
           (loops_of (fst (auth_step cfg s (AuthFire t))), snd (auth_step cfg s (AuthFire t)))"
proof -
  have "t \<in> fst ` set (auth_armed s)" using assms(2) by (force dest: map_of_SomeD)
  then show ?thesis
    by (simp add: auth_step_def startAccessTokenUpdates_def loops_of_def held_delay_def
        waiting_without(1) [OF assms] map_of_filter_key map_of_eq_None_iff split: option.split)
qed

lemma stop_simulated:
  assumes "auth_numbered s"
  shows "loops_step cfg (loops_of s) LoopStop =
           (loops_of (fst (auth_step cfg s AuthStop)), snd (auth_step cfg s AuthStop))"
proof (cases "auth_timer s")
  case None
  then show ?thesis by (simp add: auth_step_def stopUpdates_def loops_of_def held_delay_def)
next
  case (Some t)
  show ?thesis
  proof (cases "map_of (auth_armed s) t")
    case None
    with Some show ?thesis
      by (simp add: auth_step_def stopUpdates_def loops_of_def held_delay_def filter_absent_key)
  next
    case (Some ms)
    with \<open>auth_timer s = Some t\<close> show ?thesis
      by (simp add: auth_step_def stopUpdates_def loops_of_def held_delay_def waiting_without(1) [OF assms Some])
  qed
qed

interpretation token_loops: simulated_machine
  "auth_step cfg" auth_numbered "loops_step cfg" loop_possible loops_of loop_event_of for cfg
proof
  fix s e
  assume inv: "auth_numbered s"
  then show "auth_numbered (fst (auth_step cfg s e))" by (rule auth_step_numbered)
  show "loops_step cfg (loops_of s) (loop_event_of s e) =
      (loops_of (fst (auth_step cfg s e)), snd (auth_step cfg s e))"
  proof (cases e)
    case AuthStart
    then show ?thesis
      by (simp add: loop_event_of_def auth_step_def startAccessTokenUpdates_def loops_of_def held_delay_def
          split: option.split)
  next
    case (AuthResponse i r)
    then show ?thesis
      using response_simulated [OF inv] by (simp add: loop_event_of_def) (simp add: auth_step_def)
  next
    case (AuthFire t)
    then show ?thesis
      using fire_simulated [OF inv, of t]
      by (cases "map_of (auth_armed s) t")
         (simp_all add: loop_event_of_def, simp add: auth_step_def map_of_eq_None_iff)
  next
    case AuthStop
    then show ?thesis using stop_simulated [OF inv] by (simp add: loop_event_of_def)
  qed
  show "loop_possible (loops_of s) (loop_event_of s e)"
    using waiting_without(2) [OF inv]
    by (auto simp: loop_event_of_def loops_of_def held_delay_def split: auth_event.split option.split)
qed

definition loop_count :: "AuthClient \<Rightarrow> nat" where
  "loop_count s = length (in_flight s) + length (auth_armed s)"

lemma loop_count_step:
  assumes "auth_numbered s"
  shows "loop_count (fst (auth_step cfg s e)) \<le> loop_count s + of_bool (e = AuthStart)
       \<and> loop_count s + of_bool (e = AuthStart) \<le> loop_count (fst (auth_step cfg s e)) + of_bool (e = AuthStop)"
proof (cases e)
  case AuthStart
  then show ?thesis by (simp add: loop_count_def auth_step_def startAccessTokenUpdates_def)
next
  case (AuthResponse i r)
  then show ?thesis
    by (auto simp: loop_count_def auth_step_def resume_updates_def drop_nth_def Let_def)
next
  case (AuthFire t)
  show ?thesis
  proof (cases "map_of (auth_armed s) t")
    case None
    then have "t \<notin> fst ` set (auth_armed s)" by (simp add: map_of_eq_None_iff)
    then show ?thesis by (simp add: AuthFire auth_step_def)
  next
    case (Some ms)
    then show ?thesis
      using waiting_without(3) [OF assms Some]
      by (simp add: AuthFire loop_count_def auth_step_def startAccessTokenUpdates_def)
  qed
next
  case AuthStop
  show ?thesis
  proof (cases "auth_timer s")
    case None
    then show ?thesis by (simp add: AuthStop loop_count_def auth_step_def stopUpdates_def)
  next
    case (Some t)
    then show ?thesis
      using waiting_without(3) [OF assms, of t] filter_absent_key [of "auth_armed s" t]
      by (cases "map_of (auth_armed s) t")
         (simp_all add: AuthStop loop_count_def auth_step_def stopUpdates_def)
  qed
qed

lemma loop_count_run:
  "auth_numbered s \<Longrightarrow>
     loop_count (fst (exec (auth_step cfg) s es)) \<le> loop_count s + count_list es AuthStart
   \<and> loop_count s + count_list es AuthStart
       \<le> loop_count (fst (exec (auth_step cfg) s es)) + count_list es AuthStop"
proof (induction es arbitrary: s)
  case (Cons e es)
  then show ?case
    using loop_count_step [of s cfg e] Cons.IH [OF auth_step_numbered [OF Cons.prems, of cfg e]]
    by (auto simp: Let_def split: if_splits)
qed simp

text \<open>
  C10. The token loops of a client, in any order of calls, responses and timers. Forgetting the
  numbers of its timers, a run of the client is a run of the abstract loops with the same requests,
  tokens and results: a start adds a loop, an answer makes its loop wait for the delay that belongs
  to the response, a loop that wakes sends the next request, and a stop ends the one loop whose
  timer was armed last, if it still waits, and nothing else. So there are never more loops than
  starts, and no loop ends but by a stop.
\<close>

theorem auth_refines_loops:
  "let s = fst (exec (auth_step cfg) auth_init es);
       steps = events_along (auth_step cfg) loop_event_of auth_init es
   in exec (loops_step cfg) (loops_of auth_init) steps = (loops_of s, snd (exec (auth_step cfg) auth_init es))
    \<and> allowed (loops_step cfg) loop_possible (loops_of auth_init) steps
    \<and> loop_count s \<le> count_list es AuthStart
    \<and> count_list es AuthStart \<le> loop_count s + count_list es AuthStop"
  using token_loops.exec_sim [OF auth_numbered_init, of cfg es]
    token_loops.exec_possible [OF auth_numbered_init, of cfg es]
    loop_count_run [OF auth_numbered_init, of cfg es]
  by (simp add: Let_def loop_count_def auth_init_def)

section \<open>A single loop\<close>

text \<open>The phase of a client with at most one loop.\<close>

datatype auth_phase = Stopped | Requesting | Waiting int

definition phase_of :: "AuthClient \<Rightarrow> auth_phase" where
  "phase_of s =
     (if in_flight s \<noteq> [] then Requesting
      else case auth_armed s of [] \<Rightarrow> Stopped | p # _ \<Rightarrow> Waiting (snd p))"

text \<open>One request or one timer, never both, and the field holds the armed timer.\<close>

definition single_loop :: "AuthClient \<Rightarrow> bool" where
  "single_loop s \<longleftrightarrow>
     (in_flight s = [] \<and> auth_armed s = []) \<or>
     (length (in_flight s) = 1 \<and> auth_armed s = []) \<or>
     (\<exists>t d. in_flight s = [] \<and> auth_armed s = [(t, d)] \<and> auth_timer s = Some t)"

lemma single_loop_init [simp]: "single_loop auth_init"
  by (simp add: single_loop_def auth_init_def)

lemma single_loop_cases:
  assumes "single_loop s"
  obtains (stopped) "in_flight s = []" "auth_armed s = []"
  | (requesting) b where "in_flight s = [b]" "auth_armed s = []"
  | (waiting) t d where "in_flight s = []" "auth_armed s = [(t, d)]" "auth_timer s = Some t"
  using assms by (auto simp: single_loop_def length_Suc_conv)

text \<open>Nothing pending: no request in flight and no timer armed.\<close>

definition quiescent :: "AuthClient \<Rightarrow> bool" where
  "quiescent s \<longleftrightarrow> in_flight s = [] \<and> auth_armed s = []"

interpretation auth_quiet: promising_machine "auth_step cfg" "\<lambda>s e. e \<noteq> AuthStart" quiescent "\<lambda>_. False" for cfg
  by unfold_locales (auto simp: quiescent_def auth_defs split: auth_event.splits option.splits)

lemma stop_quiescent:
  assumes "single_loop s" and "in_flight s = []"
  shows "quiescent (stopUpdates s)"
  using assms(1)
  by (cases rule: single_loop_cases) (auto simp: quiescent_def auth_defs assms(2) split: option.split)

text \<open>
  Stopping the updates of a single loop while no token request is in flight ends them for good:
  after \<^verbatim>\<open>stopUpdates\<close> no event but a new start makes the client send a request or emit a
  token, whatever responses and timers are still delivered.
\<close>

theorem stopUpdates_ends_updates:
  assumes "single_loop s" and "in_flight s = []" and "AuthStart \<notin> set fs"
  shows "snd (exec (auth_step cfg) (stopUpdates s) fs) = []"
proof -
  have "quiescent (stopUpdates s)"
    using assms(1,2) by (rule stop_quiescent)
  moreover have "allowed (auth_step cfg) (\<lambda>s e. e \<noteq> AuthStart) t fs" for t
    using assms(3) by (intro allowed_all) auto
  ultimately show ?thesis
    using auth_quiet.exec_out by (fastforce intro: last_in_set)
qed

definition sample_auth :: AuthConfig where
  "sample_auth =
     \<lparr> tokenEndpoint = ''http://idp/token'', clientKey = ''dfsp-jwt'', clientSecret = ''secretA'',
       accessTokenUpdateIntervalSec = 60, retryAccessTokenUpdatesTimeoutSec = 5,
       auth_retryDnsErrorTimeoutSec = 5 \<rparr>"

definition sample_token :: oidc_http where
  "sample_token = Inr (Some \<lparr> access_token = Some ''tok'', expires_in = Some 300 \<rparr>)"

lemma sample_token_ok [simp]: "getOidcToken sample_token = OidcToken ''tok'' 300"
  by (simp add: sample_token_def getOidcToken_def)

theorem stopUpdates_ends_updates_witness:
  "snd (exec (auth_step sample_auth)
      (stopUpdates (fst (exec (auth_step sample_auth) auth_init [AuthStart, AuthResponse 0 sample_token])))
      [AuthFire 0, AuthResponse 0 sample_token, AuthStop]) = []"
  by (rule stopUpdates_ends_updates)
     (simp_all add: auth_init_def single_loop_def auth_defs)

text \<open>
  Stopping the updates while a token request is in flight does not end them: the response
  still emits the token and arms the next update, so the loop goes on after the stop.
\<close>

theorem stop_in_flight_is_ignored:
  assumes "single_loop s" and "in_flight s = [b]"
  shows "phase_of (fst (exec (auth_step cfg) s [AuthStop, AuthResponse 0 r])) =
           Waiting (node_delay (updateTimeoutSec cfg (getOidcToken r) * 1000))
         \<and> EmitNewToken (emitted_token (getOidcToken r))
             \<in> set (snd (exec (auth_step cfg) s [AuthStop, AuthResponse 0 r]))"
  using assms
  by (cases rule: single_loop_cases) (auto simp: phase_of_def auth_defs split: option.split)

theorem stop_in_flight_is_ignored_witness:
  "phase_of (fst (exec (auth_step sample_auth) (fst (auth_step sample_auth auth_init AuthStart))
     [AuthStop, AuthResponse 0 sample_token])) = Waiting 30000"
  using stop_in_flight_is_ignored [of "fst (auth_step sample_auth auth_init AuthStart)" True
      sample_auth sample_token]
  by (simp add: auth_init_def auth_defs single_loop_def updateTimeoutSec_def sample_auth_def
      IN_ADVANCE_PERIOD_SEC_def node_delay_def)

section \<open>When the next update comes\<close>

lemma armed_after_response:
  "i < length (in_flight s) \<Longrightarrow>
     auth_armed (fst (auth_step cfg s (AuthResponse i r))) =
       auth_armed s @ [(auth_next s, node_delay (updateTimeoutSec cfg (getOidcToken r) * 1000))]"
  by (simp add: auth_defs)

lemma node_delay_sec:
  "node_delay ((m - 30) * 1000) = (if 30 < m \<and> m \<le> 2147513 then 1000 * (m - 30) else 1)"
  by (auto simp: node_delay_def)

text \<open>
  C38. When the next token request goes out. Let \<open>m\<close> be the smaller of the configured interval
  and the token's life in seconds. A successful response arms a timer of \<open>m\<close> less 30 s, so that
  the token is refreshed at least 30 s before it expires and never later than the interval;
  but if \<open>m\<close> is at most 30 s, or beyond the 24.8 days a Node timer can wait, the timer fires
  after 1 ms and the loop spins, one request after every response.
\<close>

theorem refresh_delay:
  assumes "i < length (in_flight s)" and "getOidcToken r = OidcToken t n"
  shows "auth_armed (fst (auth_step cfg s (AuthResponse i r))) = auth_armed s @
           [(auth_next s,
             let m = min (accessTokenUpdateIntervalSec cfg) n
             in if 30 < m \<and> m \<le> 2147513 then 1000 * (m - 30) else 1)]"
  by (simp only: armed_after_response [OF assms(1)] assms(2) updateTimeoutSec_def
      OidcResponseData.case IN_ADVANCE_PERIOD_SEC_def node_delay_sec Let_def)

theorem refresh_delay_witness:
  "auth_armed (fst (auth_step sample_auth (auth_init\<lparr> in_flight := [True] \<rparr>) (AuthResponse 0 sample_token)))
     = [(0, 30000)]
   \<and> auth_armed (fst (auth_step (sample_auth\<lparr> accessTokenUpdateIntervalSec := 30 \<rparr>)
     (auth_init\<lparr> in_flight := [True] \<rparr>) (AuthResponse 0 sample_token))) = [(0, 1)]"
  using refresh_delay [of 0 "auth_init\<lparr> in_flight := [True] \<rparr>" sample_token "''tok''" 300 sample_auth]
    refresh_delay [of 0 "auth_init\<lparr> in_flight := [True] \<rparr>" sample_token "''tok''" 300
      "sample_auth\<lparr> accessTokenUpdateIntervalSec := 30 \<rparr>"]
  by (simp add: auth_init_def sample_auth_def)

end
