(* ===== verification/Http_Client.thy ===== *)
theory Http_Client
  imports Dto
begin

text \<open>
  \<^verbatim>\<open>src/infra/HttpClient.ts\<close> and the retry policy of \<^verbatim>\<open>src/infra/configureAxios.ts\<close>. The axios
  instance is a parameter: a function from a request to the response or the thrown value.
\<close>

type_synonym axios = "HttpRequestOptions \<Rightarrow> thrown + axios_response"

definition response_of :: "axios_response \<Rightarrow> ProxyHandlerResponse" where
  "response_of r = \<lparr> res_status = ar_status r, res_data = ar_data r, res_headers = ar_headers r \<rparr>"

definition prepareErrorResponse :: "thrown \<Rightarrow> ProxyHandlerResponse" where
  "prepareErrorResponse e =
     (case e of
        ThrownAxios a \<Rightarrow>
          (case ae_response a of
             Some r \<Rightarrow> response_of r
           | None \<Rightarrow>
               \<lparr> res_status = (case ae_status a of None \<Rightarrow> DEFAULT_ERROR_STATUS_CODE | Some s \<Rightarrow> s),
                 res_data = Some (JStr (ae_message a)), res_headers = None \<rparr>)
      | _ \<Rightarrow>
          \<lparr> res_status = DEFAULT_ERROR_STATUS_CODE,
            res_data = Some (JStr (if is_error e then error_message e else ''Unexpected proxy error'')),
            res_headers = None \<rparr>)"

text \<open>
  \<open>sendRequest\<close> returns the requests it handed to axios, with the response: exactly one
  request, and a response even when axios throws.
\<close>

definition sendRequest ::
  "axios \<Rightarrow> HttpRequestOptions \<Rightarrow> HttpRequestOptions list \<times> ProxyHandlerResponse" where
  "sendRequest axios opts =
     ([opts], case axios opts of Inr r \<Rightarrow> response_of r | Inl e \<Rightarrow> prepareErrorResponse e)"

text \<open>The default retry policy; a \<open>retryConfig\<close> of the caller replaces it as a whole.\<close>

definition DEFAULT_RETRIES :: nat where "DEFAULT_RETRIES = 3"
definition DEFAULT_RETRY_DELAY_MS :: int where "DEFAULT_RETRY_DELAY_MS = 50"
definition RETRYABLE_STATUS_CODES :: "int list" where "RETRYABLE_STATUS_CODES = [502, 503, 504]"

record retry_config =
  retries :: nat
  retryCondition :: "axios_error \<Rightarrow> bool"
  retryDelay :: "nat \<Rightarrow> int"

definition default_retry_config :: "(axios_error \<Rightarrow> bool) \<Rightarrow> retry_config" where
  "default_retry_config isNetworkError =
     \<lparr> retries = DEFAULT_RETRIES,
       retryCondition = (\<lambda>err.
         (case ae_status err of None \<Rightarrow> False | Some s \<Rightarrow> s \<in> set RETRYABLE_STATUS_CODES)
         \<or> isNetworkError err),
       retryDelay = (\<lambda>_. DEFAULT_RETRY_DELAY_MS) \<rparr>"

definition configureAxios :: "(axios_error \<Rightarrow> bool) \<Rightarrow> retry_config option \<Rightarrow> retry_config" where
  "configureAxios isNetworkError cfg =
     (case cfg of Some c \<Rightarrow> c | None \<Rightarrow> default_retry_config isNetworkError)"

lemma sendRequest_one [simp]: "fst (sendRequest axios opts) = [opts]"
  by (simp add: sendRequest_def)

text \<open>The answer of a server, whether axios counts its status as success or as an error.\<close>

definition server_answer :: "thrown + axios_response \<Rightarrow> axios_response option" where
  "server_answer r =
     (case r of
        Inr a \<Rightarrow> Some a
      | Inl (ThrownAxios e) \<Rightarrow> ae_response e
      | Inl _ \<Rightarrow> None)"

text \<open>
  The HTTP client never throws: every outcome of axios becomes a response. A server's
  answer, with a success or an error status, is passed on unchanged (status, data and
  headers); only when no server answered is a response made up: a text body, no headers, and
  the status that axios gave the error or else 503.
\<close>

theorem sendRequest_outcomes:
  "case server_answer (axios opts) of
     Some a \<Rightarrow> snd (sendRequest axios opts) =
       \<lparr> res_status = ar_status a, res_data = ar_data a, res_headers = ar_headers a \<rparr>
   | None \<Rightarrow>
       (\<exists>text. snd (sendRequest axios opts) =
          \<lparr> res_status = (case axios opts of
               Inl (ThrownAxios e) \<Rightarrow> (case ae_status e of Some n \<Rightarrow> n | None \<Rightarrow> 503) | _ \<Rightarrow> 503),
            res_data = Some (JStr text), res_headers = None \<rparr>)"
  by (auto simp: server_answer_def sendRequest_def prepareErrorResponse_def response_of_def
      DEFAULT_ERROR_STATUS_CODE_def split: sum.split thrown.split option.split)

end
