(* ===== verification/Proxy_Service.thy ===== *)
theory Proxy_Service
  imports Http_Client
begin

text \<open>
  \<^verbatim>\<open>src/domain/ProxyService.ts\<close>: the target of a proxied request and the guard in front of
  it. \<open>cleanup\<close> is \<^verbatim>\<open>cleanupIncomingHeaders\<close> of the SDK (a parameter; it takes the headers
  and the optional list of names to remove).
\<close>

type_synonym cleaner = "headers \<Rightarrow> string list option \<Rightarrow> headers"

record ProxyTarget =
  target_url :: string
  target_headers :: headers

definition cleanupIncomingHeaders :: "cleaner \<Rightarrow> AppConfig \<Rightarrow> headers \<Rightarrow> headers" where
  "cleanupIncomingHeaders cleanup cfg hs = cleanup hs (Some (incomingHeadersRemoval cfg))"

definition getProxyTarget ::
  "cleaner \<Rightarrow> AppConfig \<Rightarrow> IncomingRequestDetails \<Rightarrow> ServerState \<Rightarrow> ProxyTarget" where
  "getProxyTarget cleanup cfg req st =
     \<lparr> target_url = (if pm4mlEnabled cfg then SCHEME_HTTPS else SCHEME_HTTP) @ ''://''
          @ peerEndpoint st @ url_pathname req @ url_search req,
       target_headers =
         oput AUTH_HEADER (''Bearer '' @ accessToken st)
           (oput HEADER_PROXY (PROXY_ID cfg) (cleanupIncomingHeaders cleanup cfg (req_headers req))) \<rparr>"

definition proxy_options :: "ProxyTarget \<Rightarrow> IncomingRequestDetails \<Rightarrow> ServerState \<Rightarrow> HttpRequestOptions" where
  "proxy_options target req st =
     \<lparr> opt_agent = httpsAgent st, opt_url = target_url target, opt_method = req_method req,
       opt_headers = target_headers target, opt_data = req_payload req \<rparr>"

definition sendProxyRequest ::
  "cleaner \<Rightarrow> AppConfig \<Rightarrow> axios \<Rightarrow> IncomingRequestDetails \<Rightarrow> ServerState
     \<Rightarrow> HttpRequestOptions list \<times> ProxyHandlerResponse" where
  "sendProxyRequest cleanup cfg axios req st =
     (if \<not> hd_isReady (serverStateToHealthcheckDetailsDto (pm4mlEnabled cfg) st)
      then ([], errorResponsePeerFailedToStartDto)
      else sendRequest axios (proxy_options (getProxyTarget cleanup cfg req st) req st))"

section \<open>Header lookups\<close>

lemma header_names_distinct [simp]: "HEADER_PROXY \<noteq> AUTH_HEADER" "AUTH_HEADER \<noteq> HEADER_PROXY"
  by (simp_all add: header_defs)

lemma target_headers_lookup:
  "oget (target_headers (getProxyTarget cleanup cfg req st)) k =
     (if k = AUTH_HEADER then Some (''Bearer '' @ accessToken st)
      else if k = HEADER_PROXY then Some (PROXY_ID cfg)
      else oget (cleanupIncomingHeaders cleanup cfg (req_headers req)) k)"
  by (simp add: getProxyTarget_def)

text \<open>
  HTTP compares header names without case, and axios merges names that differ in case, a
  later entry replacing an earlier one. \<open>effective\<close> is what a lookup of a name then finds:
  the last entry under the name in any case.
\<close>

definition effective :: "headers \<Rightarrow> string \<Rightarrow> string option" where
  "effective hs n = map_of (rev (map (\<lambda>(k, v). (lower k, v)) hs)) (lower n)"

lemma effective_oput_fresh:
  "k \<notin> set (okeys hs) \<Longrightarrow>
     effective (oput k v hs) n = (if lower k = lower n then Some v else effective hs n)"
  by (simp add: oput_fresh effective_def)

text \<open>On distinct lower-case names the effective value is the plain lookup.\<close>

definition lower_keys :: "headers \<Rightarrow> bool" where
  "lower_keys hs \<longleftrightarrow> (\<forall>k \<in> set (okeys hs). lower k = k)"

lemma effective_lower_keys:
  assumes "lower_keys hs" and "distinct (okeys hs)"
  shows "effective hs n = oget hs (lower n)"
proof -
  have "map (\<lambda>(k, v). (lower k, v)) hs = hs"
    using assms(1) by (induction hs) (auto simp: lower_keys_def)
  then show ?thesis
    using assms(2) by (simp add: effective_def oget_def okeys_def map_of_rev_distinct)
qed

lemma lower_header_names:
  "lower HEADER_PROXY = HEADER_PROXY"
  "lower AUTH_HEADER \<noteq> AUTH_HEADER"
  "lower AUTH_HEADER \<noteq> HEADER_PROXY"
  by code_simp+

lemma proxy_headers_effective:
  assumes lower_names: "lower_keys (req_headers req)"
    and cleanup_names: "\<And>hs rm. set (okeys (cleanup hs rm)) \<subseteq> set (okeys hs)"
    and cleanup_object: "\<And>hs rm. distinct (okeys hs) \<Longrightarrow> distinct (okeys (cleanup hs rm))"
    and object: "distinct (okeys (req_headers req))"
  shows "effective (target_headers (getProxyTarget cleanup cfg req st)) n =
           (if lower n = lower AUTH_HEADER then Some (''Bearer '' @ accessToken st)
            else if lower n = HEADER_PROXY then Some (PROXY_ID cfg)
            else effective (cleanup (req_headers req) (Some (incomingHeadersRemoval cfg))) n)"
proof -
  let ?hs = "cleanupIncomingHeaders cleanup cfg (req_headers req)"
  let ?ps = "oput HEADER_PROXY (PROXY_ID cfg) ?hs"
  have low: "lower_keys ?hs"
    using lower_names cleanup_names by (auto simp: cleanupIncomingHeaders_def lower_keys_def)
  have dist: "distinct (okeys ?hs)"
    using cleanup_object object by (simp add: cleanupIncomingHeaders_def)
  have low': "lower_keys ?ps" and dist': "distinct (okeys ?ps)"
    using low dist by (auto simp: lower_keys_def lower_header_names)
  have "AUTH_HEADER \<notin> set (okeys ?ps)"
    using low' lower_header_names(2) by (auto simp only: lower_keys_def)
  then show ?thesis
    by (simp add: getProxyTarget_def effective_oput_fresh effective_lower_keys [OF low' dist']
        effective_lower_keys [OF low dist] eq_commute [of "lower AUTH_HEADER"]
        flip: cleanupIncomingHeaders_def)
qed

text \<open>
  C8. A client cannot smuggle its own credentials through the proxy. Node gives incoming
  header names in lower case and the header cleanup invents no names; under these two
  documented facts the request to the hub carries, under any case of the name, the peer's
  own access token as \<^verbatim>\<open>Authorization\<close> and the proxy's id as \<^verbatim>\<open>fspiop-proxy\<close>, whatever the
  client sent under these names, and every other header is what the cleanup left of it.
\<close>

theorem proxy_headers_win:
  assumes lower_names: "lower_keys (req_headers req)"
    and cleanup_names: "\<And>hs rm. set (okeys (cleanup hs rm)) \<subseteq> set (okeys hs)"
    and cleanup_object: "\<And>hs rm. distinct (okeys hs) \<Longrightarrow> distinct (okeys (cleanup hs rm))"
    and object: "distinct (okeys (req_headers req))"
  shows "effective (target_headers (getProxyTarget cleanup cfg req st)) n =
           (if lower n = lower AUTH_HEADER then Some (''Bearer '' @ accessToken st)
            else if lower n = HEADER_PROXY then Some (PROXY_ID cfg)
            else effective (cleanup (req_headers req) (Some (incomingHeadersRemoval cfg))) n)"
  by (rule proxy_headers_effective [OF assms])

theorem proxy_headers_win_witness:
  "effective (target_headers (getProxyTarget (\<lambda>hs rm. filter (\<lambda>h. fst h \<noteq> ''host'') hs)
       (app_config (\<lambda>f d e. d))
       \<lparr> url_pathname = ''/parties'', url_search = [], req_method = ''get'',
         req_headers = [(''host'', ''h''), (''authorization'', ''Bearer stolen'')], req_payload = None \<rparr>
       \<lparr> peerEndpoint = ''hub'', accessToken = ''tok'', httpsAgent = None \<rparr>)) ''AUTHORIZATION''
     = Some ''Bearer tok''"
proof -
  have upper: "lower ''AUTHORIZATION'' = lower AUTH_HEADER"
    by code_simp
  have low: "lower_keys [(''host'', ''h''), (''authorization'', ''Bearer stolen'')]"
    by code_simp
  show ?thesis
    by (subst proxy_headers_win) (auto simp: upper low okeys_def distinct_map_filter)
qed

end
