(* ===== verification/Validation.thy ===== *)
theory Validation
  imports Dto
begin

text \<open>
  \<^verbatim>\<open>src/domain/validationSchemas.ts\<close>: the regular expression of a ping's request id, and the
  two Joi schemas as data. The Joi library is a parameter of the components that validate.
\<close>

section \<open>The request id\<close>

text \<open>A bracket expression is a list of ranges; a counted one is repeated.\<close>

type_synonym char_class = "(char \<times> char) list"

definition in_class :: "char_class \<Rightarrow> char \<Rightarrow> bool" where
  "in_class cl c = list_ex (\<lambda>(lo, hi). (of_char lo :: nat) \<le> of_char c \<and> (of_char c :: nat) \<le> of_char hi) cl"

definition hex_class :: char_class where
  "hex_class = [(CHR ''0'', CHR ''9''), (CHR ''a'', CHR ''f'')]"

definition dash_class :: char_class where
  "dash_class = [(CHR ''-'', CHR ''-'')]"

definition version_class :: char_class where
  "version_class = [(CHR ''1'', CHR ''7'')]"

definition variant_class :: char_class where
  "variant_class = [(CHR ''8'', CHR ''9''), (CHR ''a'', CHR ''b'')]"

definition ulid_class :: char_class where
  "ulid_class = [(CHR ''0'', CHR ''9''), (CHR ''A'', CHR ''H''), (CHR ''J'', CHR ''K''),
     (CHR ''M'', CHR ''N''), (CHR ''P'', CHR ''T''), (CHR ''V'', CHR ''Z'')]"

type_synonym pattern = "(char_class \<times> nat) list"

definition uuid_pattern :: pattern where
  "uuid_pattern =
     [(hex_class, 8), (dash_class, 1), (hex_class, 4), (dash_class, 1),
      (version_class, 1), (hex_class, 3), (dash_class, 1),
      (variant_class, 1), (hex_class, 3), (dash_class, 1), (hex_class, 12)]"

definition ulid_pattern :: pattern where
  "ulid_pattern = [(ulid_class, 26)]"

text \<open>An anchored match: each item takes as many characters as it counts, and nothing is left.\<close>

fun match_pattern :: "pattern \<Rightarrow> string \<Rightarrow> bool" where
  "match_pattern [] s = (s = [])"
| "match_pattern ((cl, n) # ps) s =
     (n \<le> length s \<and> list_all (in_class cl) (take n s) \<and> match_pattern ps (drop n s))"

definition requestId_regex :: "string \<Rightarrow> bool" where
  "requestId_regex s = (match_pattern uuid_pattern s \<or> match_pattern ulid_pattern s)"

section \<open>The schemas\<close>

record joi_string =
  js_regex :: "(string \<Rightarrow> bool) option"
  js_required :: bool

record joi_object =
  jo_keys :: "(string \<times> joi_string) list"
  jo_allowUnknown :: bool
  jo_presence_required :: bool

definition requiredHeadersSchema :: joi_object where
  "requiredHeadersSchema =
     \<lparr> jo_keys = [(HEADER_SOURCE, \<lparr> js_regex = None, js_required = False \<rparr>)],
       jo_allowUnknown = True, jo_presence_required = True \<rparr>"

definition pingPayloadSchema :: joi_object where
  "pingPayloadSchema =
     \<lparr> jo_keys = [(''requestId'', \<lparr> js_regex = Some requestId_regex, js_required = True \<rparr>)],
       jo_allowUnknown = False, jo_presence_required = False \<rparr>"

text \<open>
  What Joi documents of such an object schema. \<^verbatim>\<open>undefined\<close> passes unless the schema is required
  (\<^verbatim>\<open>presence: 'required'\<close>), which \<open>pingPayloadSchema\<close> is not. Any other value passes only if it is
  an object whose required keys (all of them under \<^verbatim>\<open>presence: 'required'\<close>) hold non-empty strings
  that match their regular expressions, and that has no other key unless unknown keys are allowed.
\<close>

definition joi_accepts :: "joi_object \<Rightarrow> js option \<Rightarrow> bool" where
  "joi_accepts sch v =
     (case v of
        None \<Rightarrow> \<not> jo_presence_required sch
      | Some (JObj ps) \<Rightarrow>
          list_all (\<lambda>(k, t).
            (case oget ps k of
               Some (JStr s) \<Rightarrow> s \<noteq> [] \<and> (case js_regex t of None \<Rightarrow> True | Some r \<Rightarrow> r s)
             | None \<Rightarrow> \<not> (js_required t \<or> jo_presence_required sch)
             | _ \<Rightarrow> False)) (jo_keys sch)
          \<and> (jo_allowUnknown sch \<or> set (okeys ps) \<subseteq> fst ` set (jo_keys sch))
      | _ \<Rightarrow> False)"

lemma joi_accepts_object: "joi_accepts sch (Some v) \<Longrightarrow> \<exists>ps. v = JObj ps"
  by (cases v) (simp_all add: joi_accepts_def)

text \<open>A payload that passes is \<^verbatim>\<open>undefined\<close> or holds a request id of the right form.\<close>

lemma accepted_ping_payload:
  assumes "joi_accepts pingPayloadSchema v" and "v \<noteq> None"
  obtains ps rid where "v = Some (JObj ps)" "oget ps ''requestId'' = Some (JStr rid)"
    "requestId_regex rid"
proof -
  obtain ps where v: "v = Some (JObj ps)" using joi_accepts_object assms by blast
  have "case oget ps ''requestId'' of Some (JStr s) \<Rightarrow> requestId_regex s | _ \<Rightarrow> False"
    using assms by (auto simp: v joi_accepts_def pingPayloadSchema_def split: option.splits js.splits)
  then show thesis
    using that [OF v] by (cases "oget ps ''requestId''" rule: truthy.cases) simp_all
qed

lemma undefined_ping_payload [simp]: "joi_accepts pingPayloadSchema None"
  by (simp add: joi_accepts_def pingPayloadSchema_def)

section \<open>What the regular expression accepts\<close>

fun expand :: "pattern \<Rightarrow> char_class list" where
  "expand [] = []"
| "expand ((cl, n) # ps) = replicate n cl @ expand ps"

lemma list_all2_replicate_take:
  "list_all2 in_class (replicate n cl @ xs) s \<longleftrightarrow>
     n \<le> length s \<and> list_all (in_class cl) (take n s) \<and> list_all2 in_class xs (drop n s)"
proof (induction n arbitrary: s)
  case 0
  then show ?case by simp
next
  case (Suc n)
  then show ?case by (cases s) auto
qed

lemma match_pattern_expand: "match_pattern ps s \<longleftrightarrow> list_all2 in_class (expand ps) s"
  by (induction ps s rule: match_pattern.induct) (auto simp: list_all2_replicate_take)

lemma match_pattern_nth:
  "match_pattern ps s \<longleftrightarrow>
     length s = length (expand ps) \<and> (\<forall>i < length s. in_class (expand ps ! i) (s ! i))"
  by (auto simp: match_pattern_expand list_all2_conv_all_nth)

text \<open>Where the five kinds of character stand in a UUID.\<close>

definition uuid_class_at :: "nat \<Rightarrow> char_class" where
  "uuid_class_at i =
     (if i \<in> {8, 13, 18, 23} then dash_class
      else if i = 14 then version_class
      else if i = 19 then variant_class
      else hex_class)"

lemma expand_uuid: "expand uuid_pattern = map uuid_class_at [0..<36]"
  by code_simp

lemma expand_ulid: "expand ulid_pattern = replicate 26 ulid_class"
  by (simp add: ulid_pattern_def)

definition path_safe :: "char \<Rightarrow> bool" where
  "path_safe c = (c = CHR ''-'' \<or> in_class [(CHR ''0'', CHR ''9''), (CHR ''A'', CHR ''Z''), (CHR ''a'', CHR ''z'')] c)"

lemma is_dash: "(of_char c :: nat) = 45 \<Longrightarrow> c = CHR ''-''"
proof -
  assume "(of_char c :: nat) = 45"
  then have "c = char_of (45 :: nat)" using char_of_char [of c] by metis
  moreover have "char_of (45 :: nat) = CHR ''-''" by code_simp
  ultimately show ?thesis by simp
qed

lemma classes_path_safe:
  "in_class hex_class c \<Longrightarrow> path_safe c"
  "in_class dash_class c \<Longrightarrow> path_safe c"
  "in_class version_class c \<Longrightarrow> path_safe c"
  "in_class variant_class c \<Longrightarrow> path_safe c"
  "in_class ulid_class c \<Longrightarrow> path_safe c"
  by (auto simp: in_class_def path_safe_def hex_class_def dash_class_def version_class_def
      variant_class_def ulid_class_def intro: is_dash)

lemma uuid_class_path_safe: "in_class (uuid_class_at i) c \<Longrightarrow> path_safe c"
  by (auto simp: uuid_class_at_def classes_path_safe split: if_splits)

text \<open>
  C39. The regular expression accepts exactly the lower-case UUIDs of versions 1 to 7 (36
  characters, dashes at 8, 13, 18 and 23, the version at 14, the variant at 19) and the
  ULIDs (26 Crockford base32 characters); so an accepted id holds only letters, digits and
  dashes, and cannot change the path of the callback URL it becomes part of.
\<close>

theorem requestId_regex_spec:
  "(requestId_regex s \<longleftrightarrow>
     (length s = 36 \<and> (\<forall>i < 36. in_class (uuid_class_at i) (s ! i)))
     \<or> (length s = 26 \<and> (\<forall>c \<in> set s. in_class ulid_class c)))
   \<and> (requestId_regex s \<longrightarrow> (\<forall>c \<in> set s. path_safe c))"
proof -
  have uuid: "match_pattern uuid_pattern s \<longleftrightarrow>
      length s = 36 \<and> (\<forall>i < 36. in_class (uuid_class_at i) (s ! i))"
    by (auto simp: match_pattern_nth expand_uuid)
  have ulid: "match_pattern ulid_pattern s \<longleftrightarrow> length s = 26 \<and> (\<forall>c \<in> set s. in_class ulid_class c)"
    by (auto simp: match_pattern_nth expand_ulid all_set_conv_all_nth)
  have spec: "requestId_regex s \<longleftrightarrow>
     (length s = 36 \<and> (\<forall>i < 36. in_class (uuid_class_at i) (s ! i)))
     \<or> (length s = 26 \<and> (\<forall>c \<in> set s. in_class ulid_class c))"
    by (simp add: requestId_regex_def uuid ulid)
  moreover have "requestId_regex s \<longrightarrow> (\<forall>c \<in> set s. path_safe c)"
    unfolding spec by (auto simp: all_set_conv_all_nth classes_path_safe intro: uuid_class_path_safe)
  ultimately show ?thesis by blast
qed

theorem requestId_regex_spec_witness:
  "list_all path_safe ''01JYNRSYHQTMKFW2QG57MASRSH''
   \<and> \<not> (\<forall>i < 36. in_class (uuid_class_at i) (''../../participants/../ping/AAAAAAAAA'' ! i))"
proof -
  have ok: "requestId_regex ''01JYNRSYHQTMKFW2QG57MASRSH''" by code_simp
  have bad: "\<not> requestId_regex ''../../participants/../ping/AAAAAAAAA''" by code_simp
  have len: "length ''../../participants/../ping/AAAAAAAAA'' = 36" by simp
  show ?thesis
    using ok bad len requestId_regex_spec [of "''01JYNRSYHQTMKFW2QG57MASRSH''"]
      requestId_regex_spec [of "''../../participants/../ping/AAAAAAAAA''"]
    unfolding list_all_iff by blast
qed

end
