(* ===== verification/Ping_Service.thy ===== *)
theory Ping_Service
  imports Proxy_Service Validation
begin

text \<open>
  \<^verbatim>\<open>src/domain/InboundPingService.ts\<close> and \<^verbatim>\<open>src/infra/mlPingRequests.ts\<close>: the answer to a
  \<^verbatim>\<open>POST /ping\<close> and the \<^verbatim>\<open>PUT /ping\<close> callback. The credentials and the token it uses are
  those of the other peer; the adapter feeds them in. The SDK's ping client is an effect:
  the parameters it is created with and called with.
\<close>

section \<open>The ping client\<close>

record MlPingOptions =
  ml_proxyId :: string
  ml_pingCallbackEndpoint :: string
  ml_mTlsEnabled :: bool

record MlPingConfig =
  mp_mutualTLS_enabled :: bool
  mp_tls_enabled :: bool
  mp_creds :: js
  mp_dfspId :: string
  mp_peerEndpoint :: string
  mp_pingEndpoint :: string
  mp_jwsSign :: bool

definition createMlPingRequestsFactory :: "MlPingOptions \<Rightarrow> js \<Rightarrow> MlPingConfig" where
  "createMlPingRequestsFactory opts creds =
     \<lparr> mp_mutualTLS_enabled = ml_mTlsEnabled opts,
       mp_tls_enabled = ml_mTlsEnabled opts,
       mp_creds = creds,
       mp_dfspId = ml_proxyId opts,
       mp_peerEndpoint = ml_pingCallbackEndpoint opts,
       mp_pingEndpoint = ml_pingCallbackEndpoint opts,
       mp_jwsSign = False \<rparr>"

record PutPing =
  pp_client :: MlPingConfig
  pp_requestId :: "js option"
  pp_destination :: string
  pp_headers :: headers

section \<open>The service\<close>

record PingDeps =
  pd_proxyId :: string
  pd_cleanup :: cleaner
  pd_createMlPingRequests :: "js \<Rightarrow> MlPingConfig"

record PingService =
  mTlsCreds :: "js option"
  ps_accessToken :: string

definition ping_init :: PingService where
  "ping_init = \<lparr> mTlsCreds = None, ps_accessToken = [] \<rparr>"

definition updateAuthDetails :: "ServerStateEvent \<Rightarrow> PingService \<Rightarrow> PingService" where
  "updateAuthDetails e s =
     (let s1 = (if truthy (ev_certs e) then s\<lparr> mTlsCreds := ev_certs e \<rparr> else s)
      in if truthy_str (ev_accessToken e)
         then s1\<lparr> ps_accessToken := the (ev_accessToken e) \<rparr> else s1)"

definition createCallbackHeaders :: "PingDeps \<Rightarrow> PingService \<Rightarrow> headers \<Rightarrow> headers" where
  "createCallbackHeaders deps s hs =
     oput HEADER_HTTP_METHOD ''PUT''
       (oput HEADER_SOURCE (pd_proxyId deps)
         (oput HEADER_DESTINATION (case oget hs HEADER_SOURCE of None \<Rightarrow> [] | Some v \<Rightarrow> v)
           (oput AUTH_HEADER (''Bearer '' @ ps_accessToken s) (pd_cleanup deps hs None))))"

definition sendPutPingRequest ::
  "PingDeps \<Rightarrow> PingService \<Rightarrow> js option \<Rightarrow> headers \<Rightarrow> thrown + PutPing" where
  "sendPutPingRequest deps s requestId hs =
     (case oget hs HEADER_SOURCE of
        None \<Rightarrow> Inl (ThrownError (''No '' @ HEADER_SOURCE @ '' header''))
      | Some sourceFspId \<Rightarrow>
          if sourceFspId = [] then Inl (ThrownError (''No '' @ HEADER_SOURCE @ '' header''))
          else (case mTlsCreds s of
             None \<Rightarrow> Inl (ThrownError ''No mTlsCreds defined'')
           | Some creds \<Rightarrow>
               if \<not> truthy (opt_getp (Some creds) ''cert'')
               then Inl (ThrownError ''No mTlsCreds.cert defined'')
               else Inr \<lparr> pp_client = pd_createMlPingRequests deps creds,
                          pp_requestId = requestId,
                          pp_destination = sourceFspId,
                          pp_headers = createCallbackHeaders deps s hs \<rparr>))"

text \<open>
  \<open>handlePostPing\<close> returns its response and the callbacks it sent; the error of a callback
  that cannot be sent is caught and logged. A payload without properties throws.
\<close>

definition handlePostPing ::
  "PingDeps \<Rightarrow> PingService \<Rightarrow> headers \<Rightarrow> js option \<Rightarrow> thrown + (bool \<times> PutPing list)" where
  "handlePostPing deps s hs payload =
     (case getp payload ''requestId'' of
        Inl e \<Rightarrow> Inl e
      | Inr requestId \<Rightarrow>
          Inr (True, case sendPutPingRequest deps s requestId hs of Inl e \<Rightarrow> [] | Inr p \<Rightarrow> [p]))"

definition handleFailedValidation :: "string option \<Rightarrow> js" where
  "handleFailedValidation err =
     JObj [(''errorInformation'',
        JObj [(''errorCode'', JStr ''3100''),
              (''errorDescription'', JStr (if truthy_str err then the err else ''Validation error''))])]"

section \<open>The service as a sink of server-state events\<close>

interpretation ping_sink: auth_sink updateAuthDetails ps_accessToken mTlsCreds "\<lambda>t. t \<noteq> []"
  by unfold_locales
     (auto simp: updateAuthDetails_def Let_def accepted_token_def accepted_certs_def truthy_str_def
       split: option.split)

section \<open>The callback\<close>

lemma callback_header_names [simp]:
  "HEADER_HTTP_METHOD \<noteq> HEADER_SOURCE" "HEADER_HTTP_METHOD \<noteq> HEADER_DESTINATION"
  "HEADER_HTTP_METHOD \<noteq> AUTH_HEADER" "HEADER_SOURCE \<noteq> HEADER_DESTINATION"
  "HEADER_SOURCE \<noteq> AUTH_HEADER" "HEADER_DESTINATION \<noteq> AUTH_HEADER"
  "HEADER_SOURCE \<noteq> HEADER_HTTP_METHOD" "HEADER_DESTINATION \<noteq> HEADER_HTTP_METHOD"
  "AUTH_HEADER \<noteq> HEADER_HTTP_METHOD" "HEADER_DESTINATION \<noteq> HEADER_SOURCE"
  "AUTH_HEADER \<noteq> HEADER_SOURCE" "AUTH_HEADER \<noteq> HEADER_DESTINATION"
  by (simp_all add: header_defs)

lemma callback_headers_lookup:
  "oget (createCallbackHeaders deps s hs) k =
     (if k = HEADER_HTTP_METHOD then Some ''PUT''
      else if k = HEADER_SOURCE then Some (pd_proxyId deps)
      else if k = HEADER_DESTINATION then Some (case oget hs HEADER_SOURCE of None \<Rightarrow> [] | Some v \<Rightarrow> v)
      else if k = AUTH_HEADER then Some (''Bearer '' @ ps_accessToken s)
      else oget (pd_cleanup deps hs None) k)"
  by (simp add: createCallbackHeaders_def)

definition can_call_back :: "PingService \<Rightarrow> headers \<Rightarrow> bool" where
  "can_call_back s hs \<longleftrightarrow>
     truthy_str (oget hs HEADER_SOURCE) \<and> truthy (opt_getp (mTlsCreds s) ''cert'')"

text \<open>
  C29. A ping with an object as payload is always accepted, and answered by exactly one
  callback when it names its source and the service holds client certificates with a
  \<^verbatim>\<open>cert\<close>, and by none otherwise. The callback goes to the source of the ping, comes from the
  proxy, carries the bearer token of the service and the id of the request, and keeps every
  other cleaned header.
\<close>

theorem handlePostPing_callback:
  "case handlePostPing deps s hs (Some (JObj ps)) of
     Inl e \<Rightarrow> False
   | Inr (success, sent) \<Rightarrow>
       success \<and>
       (if can_call_back s hs
        then (\<exists>p creds. sent = [p]
          \<and> mTlsCreds s = Some creds \<and> pp_client p = pd_createMlPingRequests deps creds
          \<and> pp_requestId p = oget ps ''requestId''
          \<and> oget hs HEADER_SOURCE = Some (pp_destination p)
          \<and> oget (pp_headers p) HEADER_DESTINATION = Some (pp_destination p)
          \<and> oget (pp_headers p) HEADER_SOURCE = Some (pd_proxyId deps)
          \<and> oget (pp_headers p) HEADER_HTTP_METHOD = Some ''PUT''
          \<and> oget (pp_headers p) AUTH_HEADER = Some (''Bearer '' @ ps_accessToken s)
          \<and> (\<forall>k. k \<notin> {HEADER_DESTINATION, HEADER_SOURCE, HEADER_HTTP_METHOD, AUTH_HEADER} \<longrightarrow>
                oget (pp_headers p) k = oget (pd_cleanup deps hs None) k))
        else sent = [])"
  by (auto simp: handlePostPing_def sendPutPingRequest_def can_call_back_def callback_headers_lookup
      split: option.split sum.split)

definition sample_ping_deps :: PingDeps where
  "sample_ping_deps =
     \<lparr> pd_proxyId = ''proxy1'', pd_cleanup = (\<lambda>hs rm. hs),
       pd_createMlPingRequests = createMlPingRequestsFactory
         \<lparr> ml_proxyId = ''proxy1'', ml_pingCallbackEndpoint = ''hub-b'', ml_mTlsEnabled = True \<rparr> \<rparr>"

definition sample_ping :: PingService where
  "sample_ping = \<lparr> mTlsCreds = Some (JObj [(''cert'', JStr ''c'')]), ps_accessToken = ''tok'' \<rparr>"

theorem handlePostPing_callback_witness:
  "case handlePostPing sample_ping_deps sample_ping [(HEADER_SOURCE, ''dfsp1'')]
     (Some (JObj [(''requestId'', JStr ''123'')])) of
     Inl e \<Rightarrow> False
   | Inr (success, sent) \<Rightarrow>
       success \<and> (\<exists>p. sent = [p] \<and> pp_destination p = ''dfsp1'' \<and> mp_peerEndpoint (pp_client p) = ''hub-b'')"
proof -
  let ?r = "handlePostPing sample_ping_deps sample_ping [(HEADER_SOURCE, ''dfsp1'')]
     (Some (JObj [(''requestId'', JStr ''123'')]))"
  have can: "can_call_back sample_ping [(HEADER_SOURCE, ''dfsp1'')]"
    by (simp add: can_call_back_def sample_ping_def)
  have client: "mp_peerEndpoint (pd_createMlPingRequests sample_ping_deps c) = ''hub-b''" for c
    by (simp add: sample_ping_deps_def createMlPingRequestsFactory_def)
  show ?thesis
    using handlePostPing_callback [where deps = sample_ping_deps and s = sample_ping and hs = "[(HEADER_SOURCE, ''dfsp1'')]"
        and ps = "[(''requestId'', JStr ''123'')]"] can client
    by (cases ?r) (auto split: prod.splits)
qed

end
