(* ===== verification/Http_Server.thy ===== *)
theory Http_Server
  imports Ping_Service
begin

text \<open>
  \<^verbatim>\<open>src/infra/httpServer/HttpServer.ts\<close> and \<^verbatim>\<open>src/infra/createHttpsAgent.ts\<close>: the state a
  peer's server keeps (access token, HTTPS agent), its update by server-state events, the
  delayed shutdown of a replaced agent, the three routes and the response to the client.
  Hapi is outside: the routes are functions from a request to the response and its effects.
\<close>

section \<open>HTTPS agents\<close>

definition GRACEFUL_AGENT_SHUTDOWN_MS :: int where "GRACEFUL_AGENT_SHUTDOWN_MS = 5000"

definition defaultHttpsAgentConfig :: "js obj" where
  "defaultHttpsAgentConfig =
     [(''keepAlive'', JBool True), (''maxSockets'', JNum 100), (''maxFreeSockets'', JNum 50),
      (''timeout'', JNum 25000)]"

text \<open>The own enumerable properties of a value, as spread and \<^verbatim>\<open>Object.entries\<close> see them.\<close>

definition indexed :: "js list \<Rightarrow> js obj" where
  "indexed xs = map (\<lambda>(i, v). (show_nat i, v)) (enumerate 0 xs)"

definition own_props :: "js \<Rightarrow> js obj" where
  "own_props v =
     (case v of
        JObj ps \<Rightarrow> ps
      | JArr xs \<Rightarrow> indexed xs
      | JBuf bs \<Rightarrow> indexed (byte_entries bs)
      | JStr s \<Rightarrow> indexed (map (\<lambda>c. JStr [c]) s)
      | _ \<Rightarrow> [])"

text \<open>The options of the agent: the fixed pool settings, overridden by the credentials' properties.\<close>

definition agent_options :: "js \<Rightarrow> js obj" where
  "agent_options creds = ospread defaultHttpsAgentConfig (own_props creds)"

definition createHttpsAgent :: "nat \<Rightarrow> js \<Rightarrow> agent" where
  "createHttpsAgent n creds = \<lparr> agent_no = n, agent_certs = creds, agent_opts = agent_options creds \<rparr>"

section \<open>The state and its events\<close>

text \<open>
  \<open>hs_armed\<close> are the pending shutdown timers, oldest first, each with the agent it will
  destroy; \<open>oldAgentShutdownTimer\<close> is the one the field refers to.
\<close>

record HttpServer =
  hs_state :: ServerState
  oldAgentShutdownTimer :: "nat option"
  hs_armed :: "(nat \<times> agent) list"
  hs_destroyed :: "nat list"
  hs_listening :: bool
  hs_next_agent :: nat
  hs_next_timer :: nat

definition http_init :: "string \<Rightarrow> HttpServer" where
  "http_init endpoint =
     \<lparr> hs_state = \<lparr> peerEndpoint = endpoint, accessToken = [], httpsAgent = None \<rparr>,
       oldAgentShutdownTimer = None, hs_armed = [], hs_destroyed = [], hs_listening = True,
       hs_next_agent = 0, hs_next_timer = 0 \<rparr>"

datatype http_out = ArmShutdown nat int | DestroyAgent nat

datatype http_event =
    HttpEmit "ServerStateEvent option"
  | HttpTimer nat
  | HttpStop

definition reCreateHttpsAgent :: "js \<Rightarrow> HttpServer \<Rightarrow> HttpServer \<times> http_out list" where
  "reCreateHttpsAgent creds s =
     (let oldAgent = httpsAgent (hs_state s);
          s1 = s\<lparr> hs_state := (hs_state s)\<lparr> httpsAgent := Some (createHttpsAgent (hs_next_agent s) creds) \<rparr>,
                  hs_next_agent := Suc (hs_next_agent s) \<rparr>
      in case oldAgent of
           None \<Rightarrow> (s1, [])
         | Some a \<Rightarrow>
             let t = hs_next_timer s in
             (s1\<lparr> oldAgentShutdownTimer := Some t, hs_armed := hs_armed s @ [(t, a)],
                  hs_next_timer := Suc t \<rparr>,
              [ArmShutdown t GRACEFUL_AGENT_SHUTDOWN_MS]))"

text \<open>The listener of the \<^verbatim>\<open>serverState\<close> event.\<close>

definition on_serverState :: "ServerStateEvent option \<Rightarrow> HttpServer \<Rightarrow> HttpServer \<times> http_out list" where
  "on_serverState data s =
     (case data of
        None \<Rightarrow> (s, [])
      | Some e \<Rightarrow>
          let s1 = (case ev_accessToken e of
                      None \<Rightarrow> s
                    | Some t \<Rightarrow> s\<lparr> hs_state := (hs_state s)\<lparr> accessToken := t \<rparr> \<rparr>)
          in if truthy (ev_certs e) then reCreateHttpsAgent (the (ev_certs e)) s1 else (s1, []))"

text \<open>\<^verbatim>\<open>emit\<close> reaches the listener until \<^verbatim>\<open>stop\<close> removes it.\<close>

definition http_emit :: "ServerStateEvent option \<Rightarrow> HttpServer \<Rightarrow> HttpServer \<times> http_out list" where
  "http_emit data s = (if hs_listening s then on_serverState data s else (s, []))"

definition shutdown_timer :: "nat \<Rightarrow> HttpServer \<Rightarrow> HttpServer \<times> http_out list" where
  "shutdown_timer t s =
     (case map_of (hs_armed s) t of
        None \<Rightarrow> (s, [])
      | Some a \<Rightarrow>
          (s\<lparr> hs_armed := filter (\<lambda>p. fst p \<noteq> t) (hs_armed s),
              hs_destroyed := agent_no a # hs_destroyed s,
              oldAgentShutdownTimer := None \<rparr>,
           [DestroyAgent (agent_no a)]))"

text \<open>\<^verbatim>\<open>stop\<close>, after \<^verbatim>\<open>server.stop()\<close>; the field keeps the number of the timer it clears.\<close>

definition http_stop :: "HttpServer \<Rightarrow> HttpServer" where
  "http_stop s =
     s\<lparr> hs_listening := False,
        hs_armed := (case oldAgentShutdownTimer s of
            None \<Rightarrow> hs_armed s
          | Some t \<Rightarrow> filter (\<lambda>p. fst p \<noteq> t) (hs_armed s)) \<rparr>"

definition http_step :: "HttpServer \<Rightarrow> http_event \<Rightarrow> HttpServer \<times> http_out list" where
  "http_step s e =
     (case e of
        HttpEmit data \<Rightarrow> http_emit data s
      | HttpTimer t \<Rightarrow> shutdown_timer t s
      | HttpStop \<Rightarrow> (http_stop s, []))"

lemmas http_defs [step_simps] =
  http_step_def http_emit_def on_serverState_def reCreateHttpsAgent_def shutdown_timer_def
  http_stop_def createHttpsAgent_def Let_def

section \<open>Routes and responses\<close>

record HealthcheckState =
  hc_status :: health_status
  hc_details :: HealthcheckDetails
  hc_startTime :: string
  hc_versionNumber :: string

definition heathCheck :: "bool \<Rightarrow> string \<Rightarrow> string \<Rightarrow> HttpServer \<Rightarrow> HealthcheckState" where
  "heathCheck pm4ml startTime serviceName s =
     \<lparr> hc_status = OK, hc_details = serverStateToHealthcheckDetailsDto pm4ml (hs_state s),
       hc_startTime = startTime, hc_versionNumber = serviceName \<rparr>"

definition health_route :: "bool \<Rightarrow> string \<Rightarrow> string \<Rightarrow> HttpServer \<Rightarrow> HealthcheckState \<times> int" where
  "health_route pm4ml startTime serviceName s =
     (let h = heathCheck pm4ml startTime serviceName s
      in (h, if hc_status h = OK then 200 else 502))"

record hapi_response =
  hr_body :: "js option"
  hr_code :: int
  hr_headers :: "(string \<times> string) list"

text \<open>\<^verbatim>\<open>String(v)\<close>; in an array \<open>null\<close> becomes the empty string.\<close>

fun js_String :: "js \<Rightarrow> string" where
  "js_String JNull = ''null''"
| "js_String (JBool b) = (if b then ''true'' else ''false'')"
| "js_String (JNum n) = show_int n"
| "js_String (JFrac s) = s"
| "js_String (JStr s) = s"
| "js_String (JArr xs) = join_with (CHR '','') (map (\<lambda>x. if x = JNull then [] else js_String x) xs)"
| "js_String (JObj ps) = ''[object Object]''"
| "js_String (JBuf bs) = map (\<lambda>b. char_of (unat b)) bs"

definition prepareHapiResponse :: "ProxyHandlerResponse \<Rightarrow> hapi_response" where
  "prepareHapiResponse r =
     \<lparr> hr_body = (if truthy (res_data r) then res_data r else None),
       hr_code = res_status r,
       hr_headers = (case res_headers r of
           Some (JObj ps) \<Rightarrow> map (\<lambda>(k, v). (k, js_String v)) ps
         | Some (JArr xs) \<Rightarrow> map (\<lambda>(k, v). (k, js_String v)) (indexed xs)
         | Some (JBuf bs) \<Rightarrow> map (\<lambda>(k, v). (k, js_String v)) (indexed (byte_entries bs))
         | _ \<Rightarrow> []) \<rparr>"

text \<open>\<open>joi\<close> is Joi's \<^verbatim>\<open>validate\<close>: the message of the validation error, if there is one.\<close>

type_synonym joi = "joi_object \<Rightarrow> js option \<Rightarrow> string option"

definition headers_js :: "headers \<Rightarrow> js" where
  "headers_js hs = JObj (map (\<lambda>(k, v). (k, JStr v)) hs)"

text \<open>
  \<open>validate\<close> are the schemas of the headers and of the payload in the route's options; without them
  nothing is validated.
\<close>

definition ping_route ::
  "joi \<Rightarrow> (joi_object \<times> joi_object) option \<Rightarrow> PingDeps \<Rightarrow> PingService \<Rightarrow> headers \<Rightarrow> js option
     \<Rightarrow> thrown + (hapi_response \<times> PutPing list)" where
  "ping_route joi validate deps ping hs payload =
     (let failed = \<lambda>msg. Inr (\<lparr> hr_body = Some (handleFailedValidation (Some msg)), hr_code = 400, hr_headers = [] \<rparr>, [])
      in case Option.bind validate (\<lambda>v. joi (fst v) (Some (headers_js hs))) of
           Some msg \<Rightarrow> failed msg
         | None \<Rightarrow>
             (case Option.bind validate (\<lambda>v. joi (snd v) payload) of
                Some msg \<Rightarrow> failed msg
              | None \<Rightarrow>
                  (case handlePostPing deps ping hs payload of
                     Inl e \<Rightarrow> Inl e
                   | Inr (success, sent) \<Rightarrow>
                       Inr (\<lparr> hr_body = None, hr_code = (if success then 202 else 400), hr_headers = [] \<rparr>, sent))))"

definition proxy_route ::
  "(IncomingRequestDetails \<Rightarrow> ServerState \<Rightarrow> HttpRequestOptions list \<times> ProxyHandlerResponse)
     \<Rightarrow> HttpServer \<Rightarrow> IncomingRequestDetails \<Rightarrow> HttpRequestOptions list \<times> hapi_response" where
  "proxy_route proxyHandlerFn s req =
     (let r = proxyHandlerFn req (hs_state s) in (fst r, prepareHapiResponse (snd r)))"

section \<open>The server as a sink of server-state events\<close>

definition consume_state :: "ServerStateEvent \<Rightarrow> HttpServer \<Rightarrow> HttpServer" where
  "consume_state e s = fst (on_serverState (Some e) s)"

definition server_certs :: "HttpServer \<Rightarrow> js option" where
  "server_certs s = map_option agent_certs (httpsAgent (hs_state s))"

interpretation server_sink:
  auth_sink consume_state "\<lambda>s. accessToken (hs_state s)" server_certs "\<lambda>_. True"
  by unfold_locales
     (auto simp: consume_state_def server_certs_def http_defs accepted_token_def accepted_certs_def
       dest: truthy_not_nullish split: option.split)

lemma accepted_certs_some:
  "last_accepted accepted_certs c es \<noteq> None \<longleftrightarrow> c \<noteq> None \<or> (\<exists>e \<in> set es. truthy (ev_certs e))"
  by (induction es arbitrary: c) (auto simp: accepted_certs_def dest: truthy_not_nullish)

lemma accepted_token_any: "accepted_token (\<lambda>_. True) = ev_accessToken"
  by (rule ext) (simp add: accepted_token_def split: option.split)

lemma http_init_empty [simp]:
  "server_certs (http_init endpoint) = None" "accessToken (hs_state (http_init endpoint)) = []"
  by (simp_all add: server_certs_def http_init_def)

text \<open>
  C28. What credentials a server and a ping service hold after the same sequence of updates. Both
  have the last truthy certificates, which are never lost again. The server has the last access
  token, the empty one of a failed refresh included, and is ready exactly when this token is not
  empty and some certificates have arrived; the ping service has the last token that is not
  empty, so after a failed refresh it goes on with a token that the server has dropped.
\<close>

theorem credentials_after:
  "let s = fold consume_state es (http_init endpoint); p = fold updateAuthDetails es ping_init in
     server_certs s = last_accepted accepted_certs None es
     \<and> mTlsCreds p = server_certs s
     \<and> accessToken (hs_state s) = last_accepted ev_accessToken [] es
     \<and> ps_accessToken p = last_accepted (accepted_token (\<lambda>t. t \<noteq> [])) [] es
     \<and> (hd_isReady (serverStateToHealthcheckDetailsDto True (hs_state s)) \<longleftrightarrow>
          last_accepted ev_accessToken [] es \<noteq> [] \<and> (\<exists>e \<in> set es. truthy (ev_certs e)))"
proof -
  let ?s = "fold consume_state es (http_init endpoint)"
  have certs: "server_certs ?s = last_accepted accepted_certs None es"
    and tok: "accessToken (hs_state ?s) = last_accepted ev_accessToken [] es"
    by (simp_all add: server_sink.certs_run server_sink.token_run accepted_token_any)
  have "server_certs ?s \<noteq> None \<longleftrightarrow> (\<exists>e \<in> set es. truthy (ev_certs e))"
    by (simp only: certs accepted_certs_some) simp
  then have "httpsAgent (hs_state ?s) \<noteq> None \<longleftrightarrow> (\<exists>e \<in> set es. truthy (ev_certs e))"
    by (simp add: server_certs_def)
  with certs tok show ?thesis
    by (simp add: Let_def hd_isReady_iff ping_sink.certs_run ping_sink.token_run)
       (simp add: ping_init_def)
qed

section \<open>The life of the agents\<close>

text \<open>Every agent that is in use, about to be destroyed or destroyed.\<close>

definition current_agent :: "HttpServer \<Rightarrow> nat list" where
  "current_agent s = (case httpsAgent (hs_state s) of None \<Rightarrow> [] | Some a \<Rightarrow> [agent_no a])"

definition retiring :: "HttpServer \<Rightarrow> nat list" where
  "retiring s = map (\<lambda>p. agent_no (snd p)) (hs_armed s)"

definition agents_of :: "HttpServer \<Rightarrow> nat list" where
  "agents_of s = current_agent s @ retiring s @ hs_destroyed s"

definition http_inv :: "HttpServer \<Rightarrow> bool" where
  "http_inv s \<longleftrightarrow>
     distinct (agents_of s) \<and> (\<forall>n \<in> set (agents_of s). n < hs_next_agent s)
     \<and> distinct (map fst (hs_armed s)) \<and> (\<forall>p \<in> set (hs_armed s). fst p < hs_next_timer s)
     \<and> (\<forall>t. oldAgentShutdownTimer s = Some t \<longrightarrow> t < hs_next_timer s)"

text \<open>No agent was forgotten: as many are accounted for as were created.\<close>

definition no_leak :: "HttpServer \<Rightarrow> bool" where
  "no_leak s \<longleftrightarrow> length (agents_of s) = hs_next_agent s"

lemmas agent_defs = agents_of_def current_agent_def retiring_def

lemma http_inv_init [simp]: "http_inv (http_init endpoint)" "no_leak (http_init endpoint)"
  by (simp_all add: http_inv_def no_leak_def agent_defs http_init_def)

lemma reCreateHttpsAgent_agents:
  "mset (agents_of (fst (reCreateHttpsAgent c s))) = add_mset (hs_next_agent s) (mset (agents_of s))"
  "hs_next_agent (fst (reCreateHttpsAgent c s)) = Suc (hs_next_agent s)"
  by (auto simp: agent_defs http_defs split: option.split)

lemma shutdown_timer_agents:
  assumes "distinct (map fst (hs_armed s))"
  shows "mset (agents_of (fst (shutdown_timer t s))) = mset (agents_of s)"
    and "hs_next_agent (fst (shutdown_timer t s)) = hs_next_agent s"
  using mset_filter_key [OF assms, of t _ "\<lambda>p. agent_no (snd p)"]
  by (auto simp: agent_defs http_defs split: option.split)

lemma http_stop_agents:
  "mset (agents_of (http_stop s)) \<subseteq># mset (agents_of s)"
  by (auto simp: agent_defs http_defs image_mset_subseteq_mono multiset_filter_subset split: option.split)

text \<open>Every operation keeps the invariant.\<close>

lemma reCreateHttpsAgent_inv: "http_inv s \<Longrightarrow> http_inv (fst (reCreateHttpsAgent c s))"
proof -
  assume inv: "http_inv s"
  let ?s = "fst (reCreateHttpsAgent c s)"
  have "mset (agents_of ?s) = mset (hs_next_agent s # agents_of s)"
    by (simp add: reCreateHttpsAgent_agents)
  then have "distinct (agents_of ?s) \<and> (\<forall>n \<in> set (agents_of ?s). n < hs_next_agent ?s)"
    using inv mset_eq_distinct_set [of "agents_of ?s" "hs_next_agent s # agents_of s"]
    by (auto simp: http_inv_def reCreateHttpsAgent_agents less_Suc_eq)
  moreover have "distinct (map fst (hs_armed ?s)) \<and> (\<forall>p \<in> set (hs_armed ?s). fst p < hs_next_timer ?s)
      \<and> (\<forall>t. oldAgentShutdownTimer ?s = Some t \<longrightarrow> t < hs_next_timer ?s)"
    using inv by (fastforce simp: http_inv_def http_defs split: option.split)
  ultimately show ?thesis by (simp add: http_inv_def)
qed

lemma shutdown_timer_inv: "http_inv s \<Longrightarrow> http_inv (fst (shutdown_timer t s))"
proof -
  assume inv: "http_inv s"
  let ?s = "fst (shutdown_timer t s)"
  have "distinct (agents_of ?s) = distinct (agents_of s) \<and> set (agents_of ?s) = set (agents_of s)"
    using inv by (intro mset_eq_distinct_set shutdown_timer_agents) (simp add: http_inv_def)
  moreover have "distinct (map fst (hs_armed ?s)) \<and> (\<forall>p \<in> set (hs_armed ?s). fst p < hs_next_timer ?s)
      \<and> (\<forall>t. oldAgentShutdownTimer ?s = Some t \<longrightarrow> t < hs_next_timer ?s)"
    using inv by (auto simp: http_inv_def http_defs distinct_map_filter split: option.split)
  ultimately show ?thesis
    using inv by (simp add: http_inv_def shutdown_timer_agents)
qed

lemma http_stop_inv: "http_inv s \<Longrightarrow> http_inv (http_stop s)"
proof -
  assume inv: "http_inv s"
  have sub: "set (agents_of (http_stop s)) \<subseteq> set (agents_of s)"
    using set_mset_mono [OF http_stop_agents [of s]] by simp
  have "distinct (agents_of (http_stop s))"
    using http_stop_agents inv by (auto simp: http_inv_def intro: distinct_submset)
  moreover have "hs_next_agent (http_stop s) = hs_next_agent s"
    "hs_next_timer (http_stop s) = hs_next_timer s"
    "oldAgentShutdownTimer (http_stop s) = oldAgentShutdownTimer s"
    by (simp_all add: http_defs)
  moreover have "distinct (map fst (hs_armed (http_stop s)))"
    "set (hs_armed (http_stop s)) \<subseteq> set (hs_armed s)"
    using inv by (auto simp: http_inv_def http_defs distinct_map_filter split: option.split)
  ultimately show ?thesis
    using inv sub by (auto simp: http_inv_def)
qed

lemma token_update_agents [simp]:
  "agents_of (s\<lparr> hs_state := (hs_state s)\<lparr> accessToken := t \<rparr> \<rparr>) = agents_of s"
  "http_inv (s\<lparr> hs_state := (hs_state s)\<lparr> accessToken := t \<rparr> \<rparr>) = http_inv s"
  by (simp_all add: agent_defs http_inv_def)

lemma on_serverState_inv: "http_inv s \<Longrightarrow> http_inv (fst (on_serverState data s))"
  by (auto simp: on_serverState_def Let_def reCreateHttpsAgent_inv split: option.split)

lemma http_step_inv: "http_inv s \<Longrightarrow> http_inv (fst (http_step s e))"
  by (cases e) (simp_all add: http_step_def http_emit_def on_serverState_inv shutdown_timer_inv http_stop_inv)

interpretation http_machine: invariant_machine http_step "\<lambda>s e. True" http_inv
  by unfold_locales (rule http_step_inv)

definition http_full_inv :: "HttpServer \<Rightarrow> bool" where
  "http_full_inv s \<longleftrightarrow> http_inv s \<and> no_leak s"

lemma length_agents: "mset xs = mset ys \<Longrightarrow> length xs = length ys"
  by (metis size_mset)

lemma reCreateHttpsAgent_no_leak: "no_leak s \<Longrightarrow> no_leak (fst (reCreateHttpsAgent c s))"
  using length_agents [of "agents_of (fst (reCreateHttpsAgent c s))" "hs_next_agent s # agents_of s"]
  by (simp add: no_leak_def reCreateHttpsAgent_agents)

lemma shutdown_timer_no_leak: "http_full_inv s \<Longrightarrow> no_leak (fst (shutdown_timer t s))"
  using length_agents [of "agents_of (fst (shutdown_timer t s))" "agents_of s"]
  by (simp add: no_leak_def http_full_inv_def http_inv_def shutdown_timer_agents)

lemma on_serverState_no_leak: "no_leak s \<Longrightarrow> no_leak (fst (on_serverState data s))"
  by (auto simp: on_serverState_def Let_def no_leak_def
      intro!: reCreateHttpsAgent_no_leak [unfolded no_leak_def] split: option.split)

interpretation http_running: invariant_machine http_step "\<lambda>s e. e \<noteq> HttpStop" http_full_inv
proof
  fix s e
  assume inv: "http_full_inv s" and ok: "e \<noteq> HttpStop"
  from inv have "no_leak s" by (simp add: http_full_inv_def)
  with inv ok have "no_leak (fst (http_step s e))"
    by (cases e) (simp_all add: http_step_def http_emit_def shutdown_timer_no_leak on_serverState_no_leak)
  with inv show "http_full_inv (fst (http_step s e))"
    by (simp add: http_full_inv_def http_step_inv)
qed

text \<open>The agents created until a stop are all accounted for.\<close>

lemma agents_until_stop:
  assumes "HttpStop \<notin> set es"
  shows "mset (agents_of (fst (exec http_step (http_init endpoint) es)))
           = mset [0..<hs_next_agent (fst (exec http_step (http_init endpoint) es))]"
proof -
  let ?s = "fst (exec http_step (http_init endpoint) es)"
  have "http_full_inv ?s"
    using assms by (intro http_running.exec_inv allowed_all) (auto simp: http_full_inv_def)
  then have inv: "distinct (agents_of ?s)" "set (agents_of ?s) \<subseteq> {0..<hs_next_agent ?s}"
    "length (agents_of ?s) = hs_next_agent ?s"
    by (auto simp: http_full_inv_def http_inv_def no_leak_def)
  then have "set (agents_of ?s) = set [0..<hs_next_agent ?s]"
    by (simp add: card_subset_eq distinct_card)
  with inv(1) show ?thesis
    by (simp only: set_eq_iff_mset_eq_distinct distinct_upt)
qed

text \<open>
  C27. The life of the HTTPS agents. After any sequence of state events, timers and stops, in any
  order, the agent through which requests go is neither destroyed nor waiting for its shutdown
  timer, and no agent was destroyed twice; and as long as the server was not stopped no agent
  leaks: the agents created so far are exactly the current one, those waiting for their timer
  and those destroyed, each once.
\<close>

theorem agents_accounted_for:
  "let s = fst (exec http_step (http_init endpoint) es) in
     (\<forall>a. httpsAgent (hs_state s) = Some a \<longrightarrow>
        agent_no a \<notin> set (hs_destroyed s) \<and> agent_no a \<notin> set (retiring s))
     \<and> distinct (hs_destroyed s)
     \<and> (HttpStop \<notin> set es \<longrightarrow>
          mset (current_agent s @ retiring s @ hs_destroyed s) = mset [0..<hs_next_agent s])"
proof -
  have "http_inv (fst (exec http_step (http_init endpoint) es))"
    by (rule http_machine.exec_inv) (simp_all add: allowed_all)
  then show ?thesis
    using agents_until_stop [of es endpoint]
    by (auto simp: Let_def http_inv_def agents_of_def current_agent_def)
qed

theorem agents_accounted_for_witness:
  "let s = fst (exec http_step (http_init ''hub'')
        [HttpEmit (Some (certs_event (JObj []))), HttpEmit (Some (certs_event (JObj []))), HttpTimer 0]) in
     hs_destroyed s = [0] \<and> agent_no (the (httpsAgent (hs_state s))) \<notin> set (hs_destroyed s)
     \<and> mset (current_agent s @ retiring s @ hs_destroyed s) = mset [0..<2]"
  using agents_accounted_for [of "''hub''"
      "[HttpEmit (Some (certs_event (JObj []))), HttpEmit (Some (certs_event (JObj []))), HttpTimer 0]"]
  by (simp add: Let_def http_defs http_init_def agent_defs numeral_2_eq_2 add_mset_commute)

section \<open>Stopping the server\<close>

text \<open>Certificates only change after the previous agent's shutdown timer has fired.\<close>

definition spaced :: "HttpServer \<Rightarrow> http_event \<Rightarrow> bool" where
  "spaced s e =
     (case e of
        HttpEmit (Some ev) \<Rightarrow> truthy (ev_certs ev) \<longrightarrow> hs_armed s = []
      | HttpStop \<Rightarrow> False
      | _ \<Rightarrow> True)"

definition one_timer :: "HttpServer \<Rightarrow> bool" where
  "one_timer s \<longleftrightarrow>
     hs_armed s = [] \<or> (\<exists>t a. hs_armed s = [(t, a)] \<and> oldAgentShutdownTimer s = Some t)"

lemma one_timer_init [simp]: "one_timer (http_init endpoint)"
  by (simp add: one_timer_def http_init_def)

interpretation http_spaced: invariant_machine http_step spaced one_timer
  by unfold_locales
     (auto simp: one_timer_def spaced_def http_defs split: http_event.splits option.splits if_splits)

text \<open>
  When certificates change no faster than agents are shut down, stopping the server
  leaves no timer behind, whatever else happened before.
\<close>

theorem spaced_stop_is_clean:
  assumes "allowed http_step spaced (http_init endpoint) es"
  shows "hs_armed (fst (exec http_step (http_init endpoint) (es @ [HttpStop]))) = []"
proof -
  have "one_timer (fst (exec http_step (http_init endpoint) es))"
    using assms by (intro http_spaced.exec_inv) simp_all
  then show ?thesis
    by (auto simp: exec_append one_timer_def http_step_def http_stop_def Let_def split: option.split)
qed

theorem spaced_stop_is_clean_witness:
  "hs_armed (fst (exec http_step (http_init ''hub'')
     ([HttpEmit (Some (certs_event (JObj []))), HttpEmit (Some (certs_event (JObj []))), HttpTimer 0,
       HttpEmit (Some (certs_event (JObj [])))] @ [HttpStop]))) = []"
  by (rule spaced_stop_is_clean) (simp add: spaced_def http_defs http_init_def)

text \<open>
  C40. Two certificate updates within the grace period leave a timer behind a stop: the field
  refers to the later timer only, so the earlier one is still pending after \<^verbatim>\<open>stop\<close> and will
  destroy its agent afterwards.
\<close>

theorem overlapping_rotation_outlives_stop:
  assumes "hs_listening s" and "httpsAgent (hs_state s) = Some a"
    and "truthy (Some c1)" and "truthy (Some c2)"
  shows "(hs_next_timer s, a) \<in> set (hs_armed (fst (exec http_step s
           [HttpEmit (Some (certs_event c1)), HttpEmit (Some (certs_event c2)), HttpStop])))"
  using assms by (simp add: http_defs)

theorem overlapping_rotation_outlives_stop_witness:
  "hs_armed (fst (exec http_step
     (fst (http_emit (Some (certs_event (JObj []))) (http_init ''hub'')))
     [HttpEmit (Some (certs_event (JStr ''a''))), HttpEmit (Some (certs_event (JStr ''b''))), HttpStop])) \<noteq> []"
  using overlapping_rotation_outlives_stop
    [of "fst (http_emit (Some (certs_event (JObj []))) (http_init ''hub''))"
        "createHttpsAgent 0 (JObj [])" "JStr ''a''" "JStr ''b''"]
  by (auto simp: http_defs http_init_def)

section \<open>What the routes answer\<close>

text \<open>
  The response of the hub goes back to the client with its status and all of its headers
  in order, each once and as text; a header with several values (a list, as axios gives
  \<^verbatim>\<open>set-cookie\<close>) becomes one header whose values are joined by commas.
\<close>

theorem proxied_response:
  "let r = snd (proxy_route (\<lambda>_ _. (out, resp)) s req) in
     hr_code r = res_status resp
     \<and> (\<forall>ps. res_headers resp = Some (JObj ps) \<longrightarrow>
          map fst (hr_headers r) = map fst ps
          \<and> (\<forall>k v. (k, JStr v) \<in> set ps \<longrightarrow> (k, v) \<in> set (hr_headers r))
          \<and> (\<forall>k v w. (k, JArr [JStr v, JStr w]) \<in> set ps \<longrightarrow> (k, v @ '','' @ w) \<in> set (hr_headers r)))
     \<and> (truthy (res_data resp) \<longrightarrow> hr_body r = res_data resp)"
  by (force simp: proxy_route_def prepareHapiResponse_def Let_def image_iff)

theorem proxied_response_witness:
  "(''set-cookie'', ''a=1'' @ '','' @ ''b=2'') \<in> set (hr_headers (snd (proxy_route
     (\<lambda>_ _. ([], \<lparr> res_status = 200, res_data = Some (JStr ''ok''),
        res_headers = Some (JObj [(''set-cookie'', JArr [JStr ''a=1'', JStr ''b=2''])]) \<rparr>))
     (http_init ''hub'')
     \<lparr> url_pathname = ''/'', url_search = [], req_method = ''get'', req_headers = [], req_payload = None \<rparr>)))"
  using proxied_response [of "[]" "\<lparr> res_status = 200, res_data = Some (JStr ''ok''),
        res_headers = Some (JObj [(''set-cookie'', JArr [JStr ''a=1'', JStr ''b=2''])]) \<rparr>"
      "http_init ''hub''"
      "\<lparr> url_pathname = ''/'', url_search = [], req_method = ''get'', req_headers = [], req_payload = None \<rparr>"]
  by (simp add: Let_def del: append.simps append_Cons)

text \<open>
  Only a well-formed ping is called back: a rejected one is answered 400 and causes nothing. The
  handler throws for one payload that passes the validation, \<^verbatim>\<open>undefined\<close>.
\<close>

lemma ping_route_outcomes:
  assumes joi: "\<And>sch v. joi sch v = None \<Longrightarrow> joi_accepts sch v"
  shows "case ping_route joi (Some (requiredHeadersSchema, pingPayloadSchema)) deps ping hs payload of
     Inl e \<Rightarrow> payload = None
   | Inr (resp, sent) \<Rightarrow>
       (hr_code resp = 202 \<and> hr_body resp = None \<or>
        hr_code resp = 400 \<and> sent = [] \<and> (\<exists>msg. hr_body resp = Some (handleFailedValidation msg)))
       \<and> length sent \<le> 1
       \<and> (\<forall>p \<in> set sent. \<exists>rid. pp_requestId p = Some (JStr rid) \<and> requestId_regex rid)"
proof (cases "joi requiredHeadersSchema (Some (headers_js hs)) = None \<and> joi pingPayloadSchema payload = None")
  case True
  then have ok: "joi_accepts pingPayloadSchema payload" using joi by blast
  show ?thesis
  proof (cases payload)
    case None
    with True show ?thesis
      by (auto simp: ping_route_def handlePostPing_def getp_def Let_def)
  next
    case (Some v)
    with ok obtain ps rid where payload: "payload = Some (JObj ps)"
      and rid: "oget ps ''requestId'' = Some (JStr rid)" "requestId_regex rid"
      using accepted_ping_payload [OF ok] by blast
    obtain sent where post: "handlePostPing deps ping hs payload = Inr (True, sent)"
      and sent: "length sent \<le> 1" "\<forall>p \<in> set sent. pp_requestId p = Some (JStr rid)"
      by (auto simp: handlePostPing_def payload rid sendPutPingRequest_def split: option.split sum.split)
    with True rid(2) show ?thesis
      by (auto simp: ping_route_def Let_def)
  qed
next
  case False
  then show ?thesis
    by (auto simp: ping_route_def Let_def split: option.split)
qed

end
