(* ===== verification/Json.thy ===== *)
theory Json
  imports Prelude
begin

text \<open>
  \<^verbatim>\<open>JSON.parse\<close> of the standard library, on the UTF-8 text of a message: a lexer that reads one
  character at a time, and a parser that is a stack automaton on the tokens, so both are total.
  Of a duplicate key the last value stays at the first place. A text form of values,
  \<^verbatim>\<open>JSON.stringify\<close> without spaces, with the proof that parsing inverts it.
\<close>

section \<open>Numbers\<close>

text \<open>The grammar of a number: sign, integer part, fraction, exponent.\<close>

definition digit :: "char \<Rightarrow> bool" where
  "digit c \<longleftrightarrow> c \<in> set ''0123456789''"

definition int_part_ok :: "string \<Rightarrow> bool" where
  "int_part_ok s \<longleftrightarrow> s \<noteq> [] \<and> list_all digit s \<and> (s = ''0'' \<or> hd s \<noteq> CHR ''0'')"

definition exp_ok :: "string \<Rightarrow> bool" where
  "exp_ok s \<longleftrightarrow>
     (case s of
        [] \<Rightarrow> True
      | e # ds \<Rightarrow>
          let ds' = (case ds of d # rest \<Rightarrow> if d \<in> set ''+-'' then rest else ds | [] \<Rightarrow> [])
          in e \<in> set ''eE'' \<and> ds' \<noteq> [] \<and> list_all digit ds')"

definition frac_exp_ok :: "string \<Rightarrow> bool" where
  "frac_exp_ok s \<longleftrightarrow>
     (case s of
        CHR ''.'' # ds \<Rightarrow> takeWhile digit ds \<noteq> [] \<and> exp_ok (dropWhile digit ds)
      | _ \<Rightarrow> exp_ok s)"

definition nat_of_digits :: "string \<Rightarrow> nat" where
  "nat_of_digits = foldl (\<lambda>n c. 10 * n + (of_char c - 48)) 0"

text \<open>Integers in the safe range are numbers of the model; every other literal keeps its text.\<close>

definition MAX_SAFE_INTEGER :: int where "MAX_SAFE_INTEGER = 9007199254740991"

definition json_number :: "string \<Rightarrow> js option" where
  "json_number t =
     (let neg = (t \<noteq> [] \<and> hd t = CHR ''-''); u = (if neg then tl t else t);
          i = takeWhile digit u; r = dropWhile digit u
      in if \<not> int_part_ok i \<or> \<not> frac_exp_ok r then None
         else if r = [] \<and> int (nat_of_digits i) \<le> MAX_SAFE_INTEGER \<and> \<not> (neg \<and> i = ''0'')
         then Some (JNum (if neg then - int (nat_of_digits i) else int (nat_of_digits i)))
         else Some (JFrac t))"

section \<open>Strings\<close>

text \<open>The UTF-8 form of a code point (a lone surrogate gets three bytes as well).\<close>

definition utf8 :: "nat \<Rightarrow> string" where
  "utf8 n =
     (if n < 0x80 then [char_of n]
      else if n < 0x800 then [char_of (0xC0 + n div 0x40), char_of (0x80 + n mod 0x40)]
      else if n < 0x10000
      then [char_of (0xE0 + n div 0x1000), char_of (0x80 + n div 0x40 mod 0x40), char_of (0x80 + n mod 0x40)]
      else [char_of (0xF0 + n div 0x40000), char_of (0x80 + n div 0x1000 mod 0x40),
            char_of (0x80 + n div 0x40 mod 0x40), char_of (0x80 + n mod 0x40)])"

definition hex_val :: "char \<Rightarrow> nat option" where
  "hex_val c =
     (let n = of_char c in
      if 48 \<le> n \<and> n \<le> 57 then Some (n - 48)
      else if 97 \<le> n \<and> n \<le> 102 then Some (n - 87)
      else if 65 \<le> n \<and> n \<le> 70 then Some (n - 55)
      else None)"

definition high_surrogate :: "nat \<Rightarrow> bool" where
  "high_surrogate u \<longleftrightarrow> 0xD800 \<le> u \<and> u < 0xDC00"

definition low_surrogate :: "nat \<Rightarrow> bool" where
  "low_surrogate u \<longleftrightarrow> 0xDC00 \<le> u \<and> u < 0xE000"

text \<open>
  The state of a string: its text so far and a high surrogate that waits for its low one.
\<close>

type_synonym str_state = "string \<times> nat option"

definition flush :: "str_state \<Rightarrow> string" where
  "flush a = fst a @ (case snd a of None \<Rightarrow> [] | Some h \<Rightarrow> utf8 h)"

definition add_unit :: "nat \<Rightarrow> str_state \<Rightarrow> str_state" where
  "add_unit u a =
     (case snd a of
        Some h \<Rightarrow>
          if low_surrogate u then (fst a @ utf8 (0x10000 + (h - 0xD800) * 0x400 + (u - 0xDC00)), None)
          else if high_surrogate u then (flush a, Some u)
          else (flush a @ utf8 u, None)
      | None \<Rightarrow> if high_surrogate u then (fst a, Some u) else (fst a @ utf8 u, None))"

text \<open>The one-letter escapes.\<close>

definition escapes :: "(char \<times> nat) list" where
  "escapes =
     [(CHR 0x22, 0x22), (CHR 0x5C, 0x5C), (CHR ''/'', 0x2F), (CHR ''b'', 8), (CHR ''f'', 12),
      (CHR ''n'', 10), (CHR ''r'', 13), (CHR ''t'', 9)]"

section \<open>The lexer\<close>

datatype token = TVal js | TLBrace | TRBrace | TLBrack | TRBrack | TComma | TColon

datatype lstate =
    LStart
  | LStr str_state
  | LEsc str_state
  | LHex nat nat str_state \<comment> \<open>digits left, value so far\<close>
  | LNum string
  | LWord string

definition punctuation :: "(char \<times> token) list" where
  "punctuation =
     [(CHR ''{'', TLBrace), (CHR ''}'', TRBrace), (CHR ''['', TLBrack), (CHR '']'', TRBrack),
      (CHR '','', TComma), (CHR '':'', TColon)]"

definition json_word :: "string \<Rightarrow> js option" where
  "json_word w =
     map_of [(''true'', JBool True), (''false'', JBool False), (''null'', JNull)] w"

definition word_char :: "char \<Rightarrow> bool" where
  "word_char c \<longleftrightarrow> c \<in> set ''abcdefghijklmnopqrstuvwxyz''"

definition num_char :: "char \<Rightarrow> bool" where
  "num_char c \<longleftrightarrow> c \<in> set ''0123456789+-.eE''"

definition white :: "char \<Rightarrow> bool" where
  "white c \<longleftrightarrow> of_char c \<in> ({9, 10, 13, 32} :: nat set)"

definition lex_start :: "char \<Rightarrow> (lstate \<times> token list) option" where
  "lex_start c =
     (case map_of punctuation c of
        Some t \<Rightarrow> Some (LStart, [t])
      | None \<Rightarrow>
          if white c then Some (LStart, [])
          else if c = CHR 0x22 then Some (LStr ([], None), [])
          else if c = CHR ''-'' \<or> digit c then Some (LNum [c], [])
          else if word_char c then Some (LWord [c], [])
          else None)"

text \<open>A value that ends before this character, which then starts afresh.\<close>

definition lex_after :: "js option \<Rightarrow> char \<Rightarrow> (lstate \<times> token list) option" where
  "lex_after v c =
     (case v of None \<Rightarrow> None | Some w \<Rightarrow> map_option (\<lambda>(st, ts). (st, TVal w # ts)) (lex_start c))"

fun lex_step :: "lstate \<Rightarrow> char \<Rightarrow> (lstate \<times> token list) option" where
  "lex_step LStart c = lex_start c"
| "lex_step (LStr a) c =
     (if c = CHR 0x22 then Some (LStart, [TVal (JStr (flush a))])
      else if c = CHR 0x5C then Some (LEsc a, [])
      else if of_char c < (32 :: nat) then None
      else Some (LStr (flush a @ [c], None), []))"
| "lex_step (LEsc a) c =
     (if c = CHR ''u'' then Some (LHex 4 0 a, [])
      else map_option (\<lambda>u. (LStr (add_unit u a), [])) (map_of escapes c))"
| "lex_step (LHex k n a) c =
     (case hex_val c of
        None \<Rightarrow> None
      | Some d \<Rightarrow>
          if k \<le> 1 then Some (LStr (add_unit (16 * n + d) a), [])
          else Some (LHex (k - 1) (16 * n + d) a, []))"
| "lex_step (LNum t) c = (if num_char c then Some (LNum (t @ [c]), []) else lex_after (json_number t) c)"
| "lex_step (LWord w) c = (if word_char c then Some (LWord (w @ [c]), []) else lex_after (json_word w) c)"

fun lex_end :: "lstate \<Rightarrow> token list option" where
  "lex_end LStart = Some []"
| "lex_end (LNum t) = map_option (\<lambda>v. [TVal v]) (json_number t)"
| "lex_end (LWord w) = map_option (\<lambda>v. [TVal v]) (json_word w)"
| "lex_end _ = None"

definition emit :: "token list \<Rightarrow> token list option \<Rightarrow> token list option" where
  "emit ts = map_option ((@) ts)"

fun lex_run :: "lstate \<Rightarrow> string \<Rightarrow> token list option" where
  "lex_run st [] = lex_end st"
| "lex_run st (c # cs) =
     (case lex_step st c of
        None \<Rightarrow> None
      | Some (st', ts) \<Rightarrow> emit ts (lex_run st' cs))"

section \<open>The parser\<close>

text \<open>
  A frame is an array or an object that is not complete, with what stands before the value
  under way.
\<close>

datatype frame = FArr "js list" | FObj "js obj" string

datatype pmode =
    WantValue
  | ArrStart
  | ObjStart
  | WantKey "js obj"
  | WantColon "js obj" string
  | After js

fun pstep :: "frame list \<times> pmode \<Rightarrow> token \<Rightarrow> (frame list \<times> pmode) option" where
  "pstep (fs, m) t =
     (case (m, t) of
        (WantValue, TVal v) \<Rightarrow> Some (fs, After v)
      | (WantValue, TLBrack) \<Rightarrow> Some (FArr [] # fs, ArrStart)
      | (WantValue, TLBrace) \<Rightarrow> Some (fs, ObjStart)
      | (ArrStart, TVal v) \<Rightarrow> Some (fs, After v)
      | (ArrStart, TLBrack) \<Rightarrow> Some (FArr [] # fs, ArrStart)
      | (ArrStart, TLBrace) \<Rightarrow> Some (fs, ObjStart)
      | (ArrStart, TRBrack) \<Rightarrow> Some (tl fs, After (JArr []))
      | (ObjStart, TVal (JStr k)) \<Rightarrow> Some (fs, WantColon [] k)
      | (ObjStart, TRBrace) \<Rightarrow> Some (fs, After (JObj []))
      | (WantKey ps, TVal (JStr k)) \<Rightarrow> Some (fs, WantColon ps k)
      | (WantColon ps k, TColon) \<Rightarrow> Some (FObj ps k # fs, WantValue)
      | (After v, TComma) \<Rightarrow>
          (case fs of
             FArr xs # gs \<Rightarrow> Some (FArr (xs @ [v]) # gs, WantValue)
           | FObj ps k # gs \<Rightarrow> Some (gs, WantKey (oput k v ps))
           | [] \<Rightarrow> None)
      | (After v, TRBrack) \<Rightarrow>
          (case fs of FArr xs # gs \<Rightarrow> Some (gs, After (JArr (xs @ [v]))) | _ \<Rightarrow> None)
      | (After v, TRBrace) \<Rightarrow>
          (case fs of FObj ps k # gs \<Rightarrow> Some (gs, After (JObj (oput k v ps))) | _ \<Rightarrow> None)
      | _ \<Rightarrow> None)"

fun prun :: "frame list \<times> pmode \<Rightarrow> token list \<Rightarrow> (frame list \<times> pmode) option" where
  "prun st [] = Some st"
| "prun st (t # ts) = (case pstep st t of None \<Rightarrow> None | Some st' \<Rightarrow> prun st' ts)"

definition json_parse :: "string \<Rightarrow> js option" where
  "json_parse s =
     (case lex_run LStart s of
        None \<Rightarrow> None
      | Some ts \<Rightarrow> (case prun ([], WantValue) ts of Some ([], After v) \<Rightarrow> Some v | _ \<Rightarrow> None))"

section \<open>The text of a value\<close>

definition hex_digit :: "nat \<Rightarrow> char" where
  "hex_digit n = (if n < 10 then char_of (48 + n) else char_of (87 + n))"

definition escape_char :: "char \<Rightarrow> string" where
  "escape_char c =
     (let n = of_char c :: nat in
      if n = 0x22 \<or> n = 0x5C then [CHR 0x5C, c]
      else if n = 8 then [CHR 0x5C, CHR ''b'']
      else if n = 12 then [CHR 0x5C, CHR ''f'']
      else if n = 10 then [CHR 0x5C, CHR ''n'']
      else if n = 13 then [CHR 0x5C, CHR ''r'']
      else if n = 9 then [CHR 0x5C, CHR ''t'']
      else if n < 32 then [CHR 0x5C, CHR ''u'', CHR ''0'', CHR ''0'', hex_digit (n div 16), hex_digit (n mod 16)]
      else [c])"

definition json_quote :: "string \<Rightarrow> string" where
  "json_quote s = [CHR 0x22] @ concat (map escape_char s) @ [CHR 0x22]"

fun commas :: "string list \<Rightarrow> string" where
  "commas [] = []"
| "commas [x] = x"
| "commas (x # xs) = x @ '','' @ commas xs"

fun json_stringify :: "js \<Rightarrow> string" where
  "json_stringify JNull = ''null''"
| "json_stringify (JBool b) = (if b then ''true'' else ''false'')"
| "json_stringify (JNum n) = show_int n"
| "json_stringify (JFrac t) = t"
| "json_stringify (JStr s) = json_quote s"
| "json_stringify (JArr xs) = ''['' @ commas (map json_stringify xs) @ '']''"
| "json_stringify (JObj ps) =
     ''{'' @ commas (map (\<lambda>(k, v). json_quote k @ '':'' @ json_stringify v) ps) @ ''}''"
| "json_stringify (JBuf bs) =
     ''{'' @ json_quote ''type'' @ '':'' @ json_quote ''Buffer'' @ '','' @ json_quote ''data'' @ '':''
       @ ''['' @ commas (map (\<lambda>b. show_int (uint b)) bs) @ '']'' @ ''}''"

text \<open>The values that JSON can write exactly: no buffers, safe integers, distinct keys.\<close>

fun json_value :: "js \<Rightarrow> bool" where
  "json_value JNull = True"
| "json_value (JBool b) = True"
| "json_value (JNum n) = (\<bar>n\<bar> \<le> MAX_SAFE_INTEGER)"
| "json_value (JStr s) = True"
| "json_value (JArr xs) = (\<forall>x \<in> set xs. json_value x)"
| "json_value (JObj ps) = (distinct (map fst ps) \<and> (\<forall>p \<in> set ps. json_value (snd p)))"
| "json_value _ = False"

section \<open>Reading back strings\<close>

lemma hex_val_digit: "n < 16 \<Longrightarrow> hex_val (hex_digit n) = Some n"
  by (auto simp: hex_val_def hex_digit_def Let_def)

lemma add_unit_byte: "n < 32 \<Longrightarrow> add_unit n (t, None) = (t @ [char_of n], None)"
  by (simp add: add_unit_def high_surrogate_def utf8_def)

lemma emit_nothing [simp]: "emit [] x = x"
  by (cases x) (simp_all add: emit_def)

lemma emit_emit [simp]: "emit xs (emit ys x) = emit (xs @ ys) x"
  by (cases x) (simp_all add: emit_def)

lemma lex_cons: "lex_step st c = Some (st', []) \<Longrightarrow> lex_run st (c # cs) = lex_run st' cs"
  by (cases "lex_run st' cs") simp_all

lemma lex_escape:
  "lex_run (LStr (t, None)) (escape_char c @ cs) = lex_run (LStr (t @ [c], None)) cs"
proof -
  let ?n = "of_char c :: nat"
  have c: "char_of ?n = c" by simp
  have q: "char_of (34 :: nat) = CHR 0x22" "char_of (92 :: nat) = CHR 0x5C" by code_simp+
  consider "?n = 0x22" | "?n = 0x5C" | "?n = 8" | "?n = 12" | "?n = 10" | "?n = 13" | "?n = 9"
    | "?n < 32" "?n \<noteq> 8" "?n \<noteq> 12" "?n \<noteq> 10" "?n \<noteq> 13" "?n \<noteq> 9"
    | "32 \<le> ?n" "?n \<noteq> 0x22" "?n \<noteq> 0x5C"
    by linarith
  then show ?thesis
  proof cases
    case 8
    have "?n div 16 < 16" "?n mod 16 < 16" "16 * (?n div 16) + ?n mod 16 = ?n"
      using 8 by auto
    with 8 show ?thesis
      by (auto simp: escape_char_def Let_def lex_cons hex_val_digit hex_val_def [of "CHR ''0''"] add_unit_byte)
  qed (use c q in \<open>auto simp: escape_char_def Let_def lex_cons escapes_def add_unit_byte add_unit_def
         high_surrogate_def utf8_def flush_def\<close>)
qed

lemma lex_string:
  "lex_run (LStr (t, None)) (concat (map escape_char s) @ CHR 0x22 # cs) =
     emit [TVal (JStr (t @ s))] (lex_run LStart cs)"
  by (induction s arbitrary: t) (simp_all add: lex_escape flush_def)

lemma lex_quote:
  "lex_run LStart (json_quote s @ cs) = emit [TVal (JStr s)] (lex_run LStart cs)"
  by (simp add: json_quote_def lex_start_def punctuation_def white_def lex_string)

section \<open>Reading back numbers and words\<close>

text \<open>The rest of a text after a value: nothing, or a character that ends numbers and words.\<close>

definition ends_value :: "string \<Rightarrow> bool" where
  "ends_value cs \<longleftrightarrow> (case cs of [] \<Rightarrow> True | c # _ \<Rightarrow> map_of punctuation c \<noteq> None)"

lemma ends_value_simps [simp]:
  "ends_value []" "ends_value (CHR '','' # cs)" "ends_value (CHR '']'' # cs)" "ends_value (CHR ''}'' # cs)"
  by (simp_all add: ends_value_def punctuation_def)

lemma punctuation_chars: "map_of punctuation c \<noteq> None \<Longrightarrow> \<not> num_char c \<and> \<not> word_char c"
  by (auto simp: punctuation_def num_char_def word_char_def split: if_splits)

lemma lex_after_end:
  assumes "ends_value (c # cs)"
  shows "(case lex_after (Some v) c of None \<Rightarrow> None | Some (st', ts) \<Rightarrow> emit ts (lex_run st' cs))
           = emit [TVal v] (lex_run LStart (c # cs))"
proof -
  obtain t where "map_of punctuation c = Some t" using assms by (auto simp: ends_value_def)
  then show ?thesis
    by (cases "lex_run LStart cs") (simp_all add: lex_after_def lex_start_def emit_def)
qed

lemma lex_num_ended:
  assumes "ends_value cs" and "json_number t = Some v"
  shows "lex_run (LNum t) cs = emit [TVal v] (lex_run LStart cs)"
proof (cases cs)
  case (Cons c cs')
  then have "\<not> num_char c" using assms(1) punctuation_chars by (simp add: ends_value_def)
  then show ?thesis using lex_after_end assms Cons by simp
qed (use assms in \<open>simp add: emit_def\<close>)

lemma lex_word_ended:
  assumes "ends_value cs" and "json_word t = Some v"
  shows "lex_run (LWord t) cs = emit [TVal v] (lex_run LStart cs)"
proof (cases cs)
  case (Cons c cs')
  then have "\<not> word_char c" using assms(1) punctuation_chars by (simp add: ends_value_def)
  then show ?thesis using lex_after_end assms Cons by simp
qed (use assms in \<open>simp add: emit_def\<close>)

lemma lex_num_chars:
  "list_all num_char ds \<Longrightarrow> lex_run (LNum t) (ds @ cs) = lex_run (LNum (t @ ds)) cs"
  by (induction ds arbitrary: t) (simp_all add: lex_cons)

lemma digit_num: "digit c \<Longrightarrow> num_char c"
  by (auto simp: digit_def num_char_def)

lemma digit_chars: "(n :: nat) < 10 \<Longrightarrow> digit (char_of (48 + n))"
proof -
  assume "n < 10"
  then have "n \<in> {0, 1, 2, 3, 4, 5, 6, 7, 8, 9}" by auto
  moreover have "\<forall>n \<in> {0, 1, 2, 3, 4, 5, 6, 7, 8, 9 :: nat}. digit (char_of (48 + n))" by code_simp
  ultimately show ?thesis by blast
qed

lemma show_nat_digits: "list_all digit (show_nat n)"
proof (induction n rule: show_nat.induct)
  case (1 n)
  then show ?case
    by (subst show_nat.simps) (simp add: digit_chars)
qed

lemma show_nat_nonempty [simp]: "show_nat n \<noteq> []"
  by (subst show_nat.simps) simp

lemma nat_of_digits_append: "nat_of_digits (s @ [c]) = 10 * nat_of_digits s + (of_char c - 48)"
  by (simp add: nat_of_digits_def)

lemma nat_of_digits_single: "nat_of_digits [c] = of_char c - 48"
  by (simp add: nat_of_digits_def)

lemma nat_of_show: "nat_of_digits (show_nat n) = n"
proof (induction n rule: show_nat.induct)
  case (1 n)
  have d: "of_char (char_of (48 + m) :: char) - 48 = m" if "m < 10" for m :: nat
    using that by (simp add: of_char_of)
  show ?case
    using 1 d by (subst show_nat.simps) (auto simp: nat_of_digits_append nat_of_digits_single)
qed

lemma hd_show_nat: "0 < n \<Longrightarrow> hd (show_nat n) \<noteq> CHR ''0''"
proof (induction n rule: show_nat.induct)
  case (1 n)
  have "char_of (48 + n) \<noteq> CHR ''0''" if "n < 10" "0 < n"
  proof
    assume "char_of (48 + n) = CHR ''0''"
    then have "(of_char (char_of (48 + n) :: char) :: nat) = 48" by simp
    then show False using that by (simp add: of_char_of)
  qed
  with 1 show ?case by (subst show_nat.simps) auto
qed

lemma number_of_show:
  "n \<le> nat MAX_SAFE_INTEGER \<Longrightarrow> json_number (show_nat n) = Some (JNum (int n))"
proof -
  assume n: "n \<le> nat MAX_SAFE_INTEGER"
  have d: "list_all digit (show_nat n)" by (rule show_nat_digits)
  then have t: "takeWhile digit (show_nat n) = show_nat n" "dropWhile digit (show_nat n) = []"
    by (simp_all add: list_all_iff takeWhile_eq_all_conv dropWhile_eq_Nil_conv)
  have h: "hd (show_nat n) \<noteq> CHR ''-''"
  proof -
    have "digit (hd (show_nat n))" using d by (cases "show_nat n") simp_all
    then show ?thesis by (auto simp: digit_def)
  qed
  have i: "int_part_ok (show_nat n)"
  proof (cases "n = 0")
    case True
    then show ?thesis by (simp add: show_nat.simps int_part_ok_def digit_def) code_simp
  next
    case False
    then show ?thesis using d hd_show_nat [of n] by (simp add: int_part_ok_def)
  qed
  show ?thesis
    using n h i by (simp add: json_number_def t frac_exp_ok_def exp_ok_def nat_of_show MAX_SAFE_INTEGER_def Let_def)
qed

lemma number_of_neg:
  "0 < n \<Longrightarrow> n \<le> nat MAX_SAFE_INTEGER \<Longrightarrow> json_number (CHR ''-'' # show_nat n) = Some (JNum (- int n))"
proof -
  assume n: "0 < n" "n \<le> nat MAX_SAFE_INTEGER"
  have d: "list_all digit (show_nat n)" by (rule show_nat_digits)
  then have t: "takeWhile digit (show_nat n) = show_nat n" "dropWhile digit (show_nat n) = []"
    by (simp_all add: list_all_iff takeWhile_eq_all_conv dropWhile_eq_Nil_conv)
  have "hd (show_nat n) \<noteq> CHR ''0''" using n hd_show_nat by blast
  then have i: "int_part_ok (show_nat n)" "show_nat n \<noteq> ''0''"
    using d by (auto simp: int_part_ok_def)
  show ?thesis
    using n i by (simp add: json_number_def t frac_exp_ok_def exp_ok_def nat_of_show MAX_SAFE_INTEGER_def Let_def)
qed

lemma lex_int:
  assumes "ends_value cs" and "\<bar>n\<bar> \<le> MAX_SAFE_INTEGER"
  shows "lex_run LStart (show_int n @ cs) = emit [TVal (JNum n)] (lex_run LStart cs)"
proof -
  have nums: "list_all num_char (show_nat m)" for m
    using show_nat_digits [of m] by (auto simp: list_all_iff digit_num)
  have start: "lex_run LStart (x # xs @ cs) = lex_run (LNum (x # xs)) cs"
    if "x = CHR ''-'' \<or> digit x" and "list_all num_char xs" for x xs
  proof -
    have "lex_start x = Some (LNum [x], [])"
      using that(1) by (auto simp: lex_start_def punctuation_def white_def digit_def)
    then show ?thesis using that(2) by (simp add: lex_num_chars)
  qed
  show ?thesis
  proof (cases "n < 0")
    case True
    then have "json_number (show_int n) = Some (JNum n)"
      using number_of_neg [of "nat (- n)"] assms(2) by (simp add: show_int_def)
    then show ?thesis
      using True start [of "CHR ''-''" "show_nat (nat (- n))"] nums lex_num_ended [OF assms(1)]
      by (simp add: show_int_def)
  next
    case False
    then have j: "json_number (show_int n) = Some (JNum n)"
      using number_of_show [of "nat n"] assms(2) by (simp add: show_int_def)
    obtain x xs where x: "show_nat (nat n) = x # xs" by (cases "show_nat (nat n)") simp_all
    then have "digit x" "list_all num_char xs"
      using show_nat_digits [of "nat n"] nums [of "nat n"] by simp_all
    then show ?thesis
      using False j x start [of x xs] lex_num_ended [OF assms(1)] by (simp add: show_int_def)
  qed
qed

lemma lex_words:
  assumes "ends_value cs"
  shows "lex_run LStart (''true'' @ cs) = emit [TVal (JBool True)] (lex_run LStart cs)"
    and "lex_run LStart (''false'' @ cs) = emit [TVal (JBool False)] (lex_run LStart cs)"
    and "lex_run LStart (''null'' @ cs) = emit [TVal JNull] (lex_run LStart cs)"
  using lex_word_ended [OF assms, of "''true''"] lex_word_ended [OF assms, of "''false''"]
    lex_word_ended [OF assms, of "''null''"]
  by (simp_all add: lex_start_def punctuation_def white_def digit_def word_char_def json_word_def)

section \<open>Reading back values\<close>

fun tcommas :: "token list list \<Rightarrow> token list" where
  "tcommas [] = []"
| "tcommas [x] = x"
| "tcommas (x # xs) = x @ [TComma] @ tcommas xs"

text \<open>The tokens of a value.\<close>

fun tokens :: "js \<Rightarrow> token list" where
  "tokens (JArr xs) = [TLBrack] @ tcommas (map tokens xs) @ [TRBrack]"
| "tokens (JObj ps) =
     [TLBrace] @ tcommas (map (\<lambda>(k, v). [TVal (JStr k), TColon] @ tokens v) ps) @ [TRBrace]"
| "tokens v = [TVal v]"

lemma lex_punctuation:
  "map_of punctuation c = Some t \<Longrightarrow> lex_run LStart (c # cs) = emit [t] (lex_run LStart cs)"
  by (simp add: lex_start_def)

declare lex_run.simps(2) [simp del]

lemma lex_brackets [simp]:
  "lex_run LStart (CHR ''['' # cs) = emit [TLBrack] (lex_run LStart cs)"
  "lex_run LStart (CHR '']'' # cs) = emit [TRBrack] (lex_run LStart cs)"
  "lex_run LStart (CHR ''{'' # cs) = emit [TLBrace] (lex_run LStart cs)"
  "lex_run LStart (CHR ''}'' # cs) = emit [TRBrace] (lex_run LStart cs)"
  "lex_run LStart (CHR '','' # cs) = emit [TComma] (lex_run LStart cs)"
  "lex_run LStart (CHR '':'' # cs) = emit [TColon] (lex_run LStart cs)"
  by (rule lex_punctuation; simp add: punctuation_def)+

lemma lex_commas:
  assumes "\<And>x cs. x \<in> set xs \<Longrightarrow> ends_value cs \<Longrightarrow>
      lex_run LStart (f x @ cs) = emit (g x) (lex_run LStart cs)"
    and "ends_value cs"
  shows "lex_run LStart (commas (map f xs) @ cs) = emit (tcommas (map g xs)) (lex_run LStart cs)"
  using assms(1)
proof (induction xs)
  case (Cons x xs)
  show ?case
  proof (cases xs)
    case Nil
    then show ?thesis using Cons.prems assms(2) by simp
  next
    case (Cons y ys)
    then show ?thesis using Cons.IH Cons.prems by simp
  qed
qed simp

lemma lex_value:
  "json_value v \<Longrightarrow> ends_value cs \<Longrightarrow>
     lex_run LStart (json_stringify v @ cs) = emit (tokens v) (lex_run LStart cs)"
proof (induction v arbitrary: cs)
  case (JArr xs)
  then show ?case using lex_commas [of xs json_stringify tokens "CHR '']'' # cs"] by simp
next
  case (JObj ps)
  have "lex_run LStart (json_quote k @ '':'' @ json_stringify v @ ds) =
      emit ([TVal (JStr k), TColon] @ tokens v) (lex_run LStart ds)"
    if "(k, v) \<in> set ps" "ends_value ds" for k v ds
    using JObj that by (force simp: lex_quote)
  then show ?case
    using JObj.prems(2) lex_commas [of ps "\<lambda>(k, v). json_quote k @ '':'' @ json_stringify v"
        "\<lambda>(k, v). [TVal (JStr k), TColon] @ tokens v" "CHR ''}'' # cs"]
    by (auto simp: split_beta)
qed (use lex_int lex_words lex_quote in auto)


lemma prun_elements:
  assumes "\<And>x m fs ts. x \<in> set xs \<Longrightarrow> m \<in> {WantValue, ArrStart} \<Longrightarrow>
      prun (fs, m) (tokens x @ ts) = prun (fs, After x) ts"
    and "xs \<noteq> []" and "m \<in> {WantValue, ArrStart}"
  shows "prun (FArr acc # fs, m) (tcommas (map tokens xs) @ TRBrack # ts) =
      prun (fs, After (JArr (acc @ xs))) ts"
  using assms
proof (induction xs arbitrary: acc m)
  case (Cons x xs)
  then show ?case by (cases xs) simp_all
qed simp

definition token_pair :: "string \<times> js \<Rightarrow> token list" where
  "token_pair = (\<lambda>(k, v). [TVal (JStr k), TColon] @ tokens v)"

lemma prun_properties:
  assumes "\<And>p m fs ts. p \<in> set ps \<Longrightarrow> m \<in> {WantValue, ArrStart} \<Longrightarrow>
      prun (fs, m) (tokens (snd p) @ ts) = prun (fs, After (snd p)) ts"
    and "ps \<noteq> []" and "m = WantKey acc \<or> m = ObjStart \<and> acc = []" and "distinct (okeys (acc @ ps))"
  shows "prun (fs, m) (tcommas (map token_pair ps) @ TRBrace # ts) =
      prun (fs, After (JObj (acc @ ps))) ts"
  using assms
proof (induction ps arbitrary: acc m)
  case (Cons p ps)
  obtain k v where p: "p = (k, v)" by (cases p)
  have put: "oput k v acc = acc @ [(k, v)]"
    using Cons.prems(4) by (auto simp: p okeys_def intro: oput_fresh)
  have val: "prun (gs, WantValue) (tokens v @ us) = prun (gs, After v) us" for gs us
    using Cons.prems(1) [of p WantValue gs us] by (simp add: p)
  show ?case
  proof (cases ps)
    case Nil
    then show ?thesis using Cons.prems(3) by (auto simp: p token_pair_def val put)
  next
    case (Cons q qs)
    have "prun (fs, WantKey (acc @ [p])) (tcommas (map token_pair ps) @ TRBrace # ts) =
        prun (fs, After (JObj ((acc @ [p]) @ ps))) ts"
      using Cons.prems Cons by (intro Cons.IH) auto
    then show ?thesis using Cons.prems(3) Cons by (auto simp: p token_pair_def val put)
  qed
qed simp

lemma prun_value:
  "json_value v \<Longrightarrow> m \<in> {WantValue, ArrStart} \<Longrightarrow> prun (fs, m) (tokens v @ ts) = prun (fs, After v) ts"
proof (induction v arbitrary: m fs ts)
  case (JArr xs)
  have el: "prun (gs, n) (tokens x @ us) = prun (gs, After x) us"
    if "x \<in> set xs" "n \<in> {WantValue, ArrStart}" for x n gs us
    using JArr that by simp
  show ?case
    using JArr.prems prun_elements [of xs ArrStart "[]" fs ts, OF el] by (cases xs) auto
next
  case (JObj ps)
  have el: "prun (gs, n) (tokens (snd p) @ us) = prun (gs, After (snd p)) us"
    if "p \<in> set ps" "n \<in> {WantValue, ArrStart}" for p n gs us
    using JObj that by (cases p) force
  show ?case
    using JObj.prems prun_properties [of ps ObjStart "[]" fs ts, OF el]
    by (cases ps) (auto simp: token_pair_def okeys_def)
qed auto

text \<open>
  Parsing inverts writing, whatever characters the strings hold: quotes, control characters,
  the delimiters of the format itself.
\<close>

theorem json_parse_stringify: "json_value v \<Longrightarrow> json_parse (json_stringify v) = Some v"
  using lex_value [of v "[]"] prun_value [of v WantValue "[]" "[]"]
  by (simp add: json_parse_def emit_def)

section \<open>The type of what is parsed\<close>

text \<open>
  The values a text can denote: no buffers, integers in the safe range, other numbers by a
  literal of the grammar, distinct keys.
\<close>

fun parsed_js :: "js \<Rightarrow> bool" where
  "parsed_js (JNum n) = (\<bar>n\<bar> \<le> MAX_SAFE_INTEGER)"
| "parsed_js (JFrac t) = (json_number t = Some (JFrac t))"
| "parsed_js (JArr xs) = (\<forall>x \<in> set xs. parsed_js x)"
| "parsed_js (JObj ps) = (distinct (okeys ps) \<and> (\<forall>p \<in> set ps. parsed_js (snd p)))"
| "parsed_js (JBuf xs) = False"
| "parsed_js _ = True"

fun parsed_token :: "token \<Rightarrow> bool" where
  "parsed_token (TVal v) = parsed_js v"
| "parsed_token _ = True"

lemma json_number_typed: "json_number t = Some v \<Longrightarrow> parsed_js v"
  by (auto simp: json_number_def Let_def split: if_splits)

lemma json_word_typed: "json_word w = Some v \<Longrightarrow> parsed_js v"
  by (auto simp: json_word_def split: if_splits)

lemma lex_start_typed: "lex_start c = Some (st, ts) \<Longrightarrow> list_all parsed_token ts"
  by (auto simp: lex_start_def punctuation_def split: if_splits)

lemma lex_after_typed:
  "lex_after v c = Some (st, ts) \<Longrightarrow> (\<And>w. v = Some w \<Longrightarrow> parsed_js w) \<Longrightarrow> list_all parsed_token ts"
  by (auto simp: lex_after_def split: option.splits dest: lex_start_typed)

lemma lex_step_typed: "lex_step st c = Some (st', ts) \<Longrightarrow> list_all parsed_token ts"
  by (cases st)
     (auto split: if_splits option.splits dest: lex_start_typed
       elim!: lex_after_typed intro: json_number_typed json_word_typed)

lemma lex_end_typed: "lex_end st = Some ts \<Longrightarrow> list_all parsed_token ts"
  by (cases st) (auto intro: json_number_typed json_word_typed)

lemma lex_run_typed: "lex_run st s = Some ts \<Longrightarrow> list_all parsed_token ts"
  by (induction s arbitrary: st ts)
     (auto simp: lex_run.simps(2) emit_def lex_end_typed split: option.splits dest: lex_step_typed)

definition parsed_props :: "js obj \<Rightarrow> bool" where
  "parsed_props ps \<longleftrightarrow> distinct (okeys ps) \<and> (\<forall>p \<in> set ps. parsed_js (snd p))"

fun frame_typed :: "frame \<Rightarrow> bool" where
  "frame_typed (FArr xs) = (\<forall>x \<in> set xs. parsed_js x)"
| "frame_typed (FObj ps k) = parsed_props ps"

fun pmode_typed :: "pmode \<Rightarrow> bool" where
  "pmode_typed (WantKey ps) = parsed_props ps"
| "pmode_typed (WantColon ps k) = parsed_props ps"
| "pmode_typed (After v) = parsed_js v"
| "pmode_typed _ = True"

lemma set_oput: "set (oput k v ps) \<subseteq> insert (k, v) (set ps)"
  by (induction ps) (auto split: if_splits)

lemma oput_values: "(\<forall>p \<in> set ps. P (snd p)) \<Longrightarrow> P v \<Longrightarrow> \<forall>p \<in> set (oput k v ps). P (snd p)"
  using set_oput [of k v ps] by auto

lemma parsed_props_simps [simp]:
  "parsed_props []"
  "parsed_props ps \<Longrightarrow> parsed_js v \<Longrightarrow> parsed_props (oput k v ps)"
  "parsed_js (JObj ps) \<longleftrightarrow> parsed_props ps"
  using oput_values [of ps parsed_js v k] by (auto simp: parsed_props_def)

lemma list_all_tl: "list_all P xs \<Longrightarrow> list_all P (tl xs)"
  by (cases xs) simp_all

text \<open>Preservation: a step of the automaton keeps the state well typed.\<close>

lemma pstep_typed:
  assumes "pstep (fs, m) t = Some (gs, n)"
    and "list_all frame_typed fs" and "pmode_typed m" and "parsed_token t"
  shows "list_all frame_typed gs \<and> pmode_typed n"
  using assms
  by (cases m; cases t)
     (auto split: list.splits frame.splits js.splits simp del: parsed_js.simps(4) intro: list_all_tl)

lemma prun_typed:
  "prun (fs, m) ts = Some (gs, n) \<Longrightarrow> list_all frame_typed fs \<Longrightarrow> pmode_typed m \<Longrightarrow>
     list_all parsed_token ts \<Longrightarrow> pmode_typed n"
proof (induction ts arbitrary: fs m)
  case (Cons t ts)
  then obtain hs l where "pstep (fs, m) t = Some (hs, l)" "prun (hs, l) ts = Some (gs, n)"
    by (auto split: option.splits)
  with Cons show ?case using pstep_typed by fastforce
qed simp

lemma json_parse_typed: "json_parse s = Some v \<Longrightarrow> parsed_js v"
  using prun_typed [of "[]" WantValue _ "[]" "After v"] lex_run_typed [of LStart s]
  by (auto simp: json_parse_def split: option.splits list.splits pmode.splits prod.splits)

end
