(* ===== verification/Mcm.thy ===== *)
theory Mcm
  imports Dto Json
begin

text \<open>
  The protocol of the management API: \<^verbatim>\<open>src/infra/controlAgent/constants.ts\<close>, \<^verbatim>\<open>mcm.ts\<close> and
  the type guards of \<^verbatim>\<open>types.ts\<close>. A text is read by \<^verbatim>\<open>JSON.parse\<close> with the reviver (\<open>None\<close>
  when it throws); the stringifier, \<^verbatim>\<open>fast-safe-stringify\<close>, is a parameter.
\<close>

section \<open>Messages, verbs and errors\<close>

datatype MESSAGE = CONFIGURATION | PEER_JWS | ERROR_MSG

datatype VERB = READ | NOTIFY | PATCH

datatype ERROR = UNSUPPORTED_MESSAGE | UNSUPPORTED_VERB | JSON_PARSE_ERROR

fun message_str :: "MESSAGE \<Rightarrow> string" where
  "message_str CONFIGURATION = ''CONFIGURATION''"
| "message_str PEER_JWS = ''PEER_JWS''"
| "message_str ERROR_MSG = ''ERROR''"

fun verb_str :: "VERB \<Rightarrow> string" where
  "verb_str READ = ''READ''"
| "verb_str NOTIFY = ''NOTIFY''"
| "verb_str PATCH = ''PATCH''"

fun error_str :: "ERROR \<Rightarrow> string" where
  "error_str UNSUPPORTED_MESSAGE = ''UNSUPPORTED_MESSAGE''"
| "error_str UNSUPPORTED_VERB = ''UNSUPPORTED_VERB''"
| "error_str JSON_PARSE_ERROR = ''JSON_PARSE_ERROR''"

definition PING_INTERVAL_MS :: int where "PING_INTERVAL_MS = 30000"

text \<open>\<^verbatim>\<open>Object.values\<close> of the two enums is their enumeration.\<close>

instantiation MESSAGE :: enum
begin

definition "enum_class.enum = [CONFIGURATION, PEER_JWS, ERROR_MSG]"
definition "enum_class.enum_all P \<longleftrightarrow> P CONFIGURATION \<and> P PEER_JWS \<and> P ERROR_MSG"
definition "enum_class.enum_ex P \<longleftrightarrow> P CONFIGURATION \<or> P PEER_JWS \<or> P ERROR_MSG"

instance
proof
  show univ: "UNIV = set (enum_class.enum :: MESSAGE list)"
    using MESSAGE.exhaust by (auto simp: enum_MESSAGE_def)
  fix P :: "MESSAGE \<Rightarrow> bool"
  show "enum_class.enum_all P \<longleftrightarrow> Ball UNIV P" and "enum_class.enum_ex P \<longleftrightarrow> Bex UNIV P"
    unfolding univ by (auto simp: enum_MESSAGE_def enum_all_MESSAGE_def enum_ex_MESSAGE_def)
qed (simp add: enum_MESSAGE_def)

end

instantiation VERB :: enum
begin

definition "enum_class.enum = [READ, NOTIFY, PATCH]"
definition "enum_class.enum_all P \<longleftrightarrow> P READ \<and> P NOTIFY \<and> P PATCH"
definition "enum_class.enum_ex P \<longleftrightarrow> P READ \<or> P NOTIFY \<or> P PATCH"

instance
proof
  show univ: "UNIV = set (enum_class.enum :: VERB list)"
    using VERB.exhaust by (auto simp: enum_VERB_def)
  fix P :: "VERB \<Rightarrow> bool"
  show "enum_class.enum_all P \<longleftrightarrow> Ball UNIV P" and "enum_class.enum_ex P \<longleftrightarrow> Bex UNIV P"
    unfolding univ by (auto simp: enum_VERB_def enum_all_VERB_def enum_ex_VERB_def)
qed (simp add: enum_VERB_def)

end

definition verb_values :: "string list" where
  "verb_values = map verb_str enum_class.enum"

definition message_values :: "string list" where
  "message_values = map message_str enum_class.enum"

lemma values_simps [simp]:
  "verb_values = [''READ'', ''NOTIFY'', ''PATCH'']"
  "message_values = [''CONFIGURATION'', ''PEER_JWS'', ''ERROR'']"
  by (simp_all add: verb_values_def message_values_def enum_VERB_def enum_MESSAGE_def)

section \<open>Reading a message\<close>

text \<open>The reviver, applied to a value whose properties it has already seen.\<close>

definition revive_object :: "js obj \<Rightarrow> js" where
  "revive_object ps =
     (case (oget ps ''type'', oget ps ''data'') of
        (Some (JStr t), Some (JArr xs)) \<Rightarrow> if t = ''Buffer'' then JBuf (map to_uint8 xs) else JObj ps
      | _ \<Rightarrow> JObj ps)"

fun revive :: "js \<Rightarrow> js" where
  "revive (JArr xs) = JArr (map revive xs)"
| "revive (JObj ps) = revive_object (map (\<lambda>(k, v). (k, revive v)) ps)"
| "revive v = v"

definition deserialise :: "string \<Rightarrow> js option" where
  "deserialise msg = map_option revive (json_parse msg)"

lemma deserialise_stringify: "json_value v \<Longrightarrow> deserialise (json_stringify v) = Some (revive v)"
  by (simp add: deserialise_def json_parse_stringify del: json_stringify.simps)

section \<open>Writing a message\<close>

text \<open>What the stringifier sees of a value: a buffer through its \<^verbatim>\<open>toJSON\<close>.\<close>

fun to_json :: "js \<Rightarrow> js" where
  "to_json (JArr xs) = JArr (map to_json xs)"
| "to_json (JObj ps) = JObj (map (\<lambda>(k, v). (k, to_json v)) ps)"
| "to_json (JBuf bs) = JObj [(''type'', JStr ''Buffer''), (''data'', JArr (byte_entries bs))]"
| "to_json v = v"

definition serialise :: "(js \<Rightarrow> string) \<Rightarrow> js \<Rightarrow> string" where
  "serialise stringify v = stringify (to_json v)"

text \<open>
  The message object; \<open>undefined\<close> data is not written. \<open>slug\<close> is the value of
  \<^verbatim>\<open>generateSlug(4)\<close> for this call, used when no id is given.
\<close>

definition msg_object :: "VERB \<Rightarrow> MESSAGE \<Rightarrow> js option \<Rightarrow> js \<Rightarrow> js" where
  "msg_object verb msg data mid =
     JObj ([(''verb'', JStr (verb_str verb)), (''msg'', JStr (message_str msg))]
       @ (case data of None \<Rightarrow> [] | Some d \<Rightarrow> [(''data'', d)]) @ [(''id'', mid)])"

definition buildMsg ::
  "(js \<Rightarrow> string) \<Rightarrow> string \<Rightarrow> VERB \<Rightarrow> MESSAGE \<Rightarrow> js option \<Rightarrow> js option \<Rightarrow> string" where
  "buildMsg stringify slug verb msg data mid =
     serialise stringify (msg_object verb msg data (case mid of None \<Rightarrow> JStr slug | Some i \<Rightarrow> i))"

definition buildPatchConfiguration ::
  "(js \<Rightarrow> js \<Rightarrow> js) \<Rightarrow> (js \<Rightarrow> string) \<Rightarrow> string \<Rightarrow> js \<Rightarrow> js \<Rightarrow> js option \<Rightarrow> string" where
  "buildPatchConfiguration compare stringify slug oldConf newConf mid =
     buildMsg stringify slug PATCH CONFIGURATION (Some (compare oldConf newConf)) mid"

definition build_CONFIGURATION_READ :: "(js \<Rightarrow> string) \<Rightarrow> string \<Rightarrow> js option \<Rightarrow> string" where
  "build_CONFIGURATION_READ stringify slug mid =
     buildMsg stringify slug READ CONFIGURATION (Some (JObj [])) mid"

definition build_CONFIGURATION_NOTIFY :: "(js \<Rightarrow> string) \<Rightarrow> string \<Rightarrow> js \<Rightarrow> js option \<Rightarrow> string" where
  "build_CONFIGURATION_NOTIFY stringify slug config mid =
     buildMsg stringify slug NOTIFY CONFIGURATION (Some config) mid"

definition build_PEER_JWS_READ :: "(js \<Rightarrow> string) \<Rightarrow> string \<Rightarrow> js option \<Rightarrow> string" where
  "build_PEER_JWS_READ stringify slug mid = buildMsg stringify slug READ PEER_JWS (Some (JObj [])) mid"

definition build_PEER_JWS_NOTIFY :: "(js \<Rightarrow> string) \<Rightarrow> string \<Rightarrow> js option \<Rightarrow> js option \<Rightarrow> string" where
  "build_PEER_JWS_NOTIFY stringify slug peerJWS mid = buildMsg stringify slug NOTIFY PEER_JWS peerJWS mid"

definition build_ERROR_NOTIFY :: "(js \<Rightarrow> string) \<Rightarrow> string \<Rightarrow> ERROR \<Rightarrow> js option \<Rightarrow> string" where
  "build_ERROR_NOTIFY stringify slug err mid =
     buildMsg stringify slug NOTIFY ERROR_MSG (Some (JStr (error_str err))) mid"

lemmas build_defs =
  build_CONFIGURATION_READ_def build_CONFIGURATION_NOTIFY_def build_PEER_JWS_READ_def
  build_PEER_JWS_NOTIFY_def build_ERROR_NOTIFY_def buildMsg_def

section \<open>Type guards\<close>

definition isWsPayload :: "js \<Rightarrow> bool" where
  "isWsPayload payload =
     (case payload of
        JObj ps \<Rightarrow>
          (case oget ps ''verb'' of Some (JStr v) \<Rightarrow> v \<in> set verb_values | _ \<Rightarrow> False)
          \<and> (case oget ps ''msg'' of Some (JStr m) \<Rightarrow> m \<in> set message_values | _ \<Rightarrow> False)
          \<and> oget ps ''data'' \<noteq> None
      | _ \<Rightarrow> False)"

definition payload_creds :: "js \<Rightarrow> js option" where
  "payload_creds p =
     opt_getp (opt_getp (opt_getp (opt_getp (Some p) ''data'') ''outbound'') ''tls'') ''creds''"

definition isCertsPayload :: "js \<Rightarrow> bool" where
  "isCertsPayload p =
     (opt_getp (Some p) ''verb'' = Some (JStr (verb_str NOTIFY))
      \<and> opt_getp (Some p) ''msg'' = Some (JStr (message_str CONFIGURATION))
      \<and> truthy (payload_creds p))"

lemma isCertsPayload_isWsPayload: "isCertsPayload p \<Longrightarrow> isWsPayload p"
proof -
  assume c: "isCertsPayload p"
  then obtain ps where p: "p = JObj ps"
    by (cases p) (auto simp: isCertsPayload_def)
  with c have "oget ps ''data'' \<noteq> None"
    by (cases "oget ps ''data''") (simp_all add: isCertsPayload_def payload_creds_def)
  with c p show ?thesis
    by (auto simp: isCertsPayload_def isWsPayload_def)
qed

end
