(* ===== verification/Control_Agent.thy ===== *)
theory Control_Agent
  imports Mcm Settings
begin

text \<open>
  \<^verbatim>\<open>src/infra/controlAgent/ControlAgent.ts\<close>: the client of the management API's websocket.
  One turn of the event loop is one step: a call of a method up to its first \<^verbatim>\<open>await\<close>, or an
  event of a socket or a timer with the promise continuations it releases.

  A socket is its number; the \<^verbatim>\<open>ws\<close> library is outside, and what the code relies on of it is
  the life cycle of \<^verbatim>\<open>readyState\<close> in the WebSocket API: CONNECTING at creation, OPEN at the
  \<^verbatim>\<open>open\<close> event, CLOSING after \<^verbatim>\<open>close()\<close>, CLOSED at the \<^verbatim>\<open>close\<close> event.
\<close>

section \<open>State\<close>

datatype ready_state = CONNECTING | OPEN | CLOSING | CLOSED

text \<open>
  Who awaits a promise: the peer server (through \<^verbatim>\<open>init\<close> or \<^verbatim>\<open>loadCerts\<close>), or the callback of
  the ping timer, whose rejection nobody handles.
\<close>

datatype awaiter = ByCaller | ByPingTimer

text \<open>A call of \<^verbatim>\<open>close\<close> is made when a start is retried or when the peer is stopped.\<close>

datatype closer = ForRetry | ForStop

text \<open>
  A pending \<^verbatim>\<open>receive\<close>: its number, the socket whose next message it takes, whether it
  validates, who awaits it, and whether its timer is still pending (if not, its promise is
  already rejected, but its listener is still there).
\<close>

record receiver =
  rc_no :: nat
  rc_sock :: nat
  rc_validate :: bool
  rc_awaiter :: awaiter
  rc_timer :: bool

text \<open>A pending \<^verbatim>\<open>close\<close>: the socket it listens on, if there was one.\<close>

record closing =
  cl_no :: nat
  cl_sock :: "nat option"
  cl_closer :: closer

record ControlAgent =
  ca_id :: string
  ca_address :: string
  ca_port :: int
  ca_timeout :: int
  ca_ws :: "nat option"
  ca_socks :: "ready_state list" \<comment> \<open>by socket number\<close>
  ca_opens :: "(nat \<times> awaiter) list" \<comment> \<open>pending promises of \<open>open\<close>, by socket\<close>
  ca_receivers :: "receiver list"
  ca_closings :: "closing list"
  ca_hasCallbacks :: bool
  ca_shouldReconnect :: bool
  ca_pingTimeout :: "int option" \<comment> \<open>delay of the pending ping timer\<close>
  ca_next :: nat
  ca_slugs :: nat

text \<open>
  \<^verbatim>\<open>ICAParams\<close>. The constructor ignores the connection timeout and the reconnection interval.
\<close>

record ICAParams =
  pa_id :: "string option"
  pa_address :: "string option"
  pa_port :: int
  pa_connectionTimeout :: int
  pa_timeout :: int
  pa_reconnectInterval :: int

definition control_agent :: "ICAParams \<Rightarrow> ControlAgent" where
  "control_agent params =
     \<lparr> ca_id = (if truthy_str (pa_id params) then the (pa_id params) else ''ControlAgent''),
       ca_address = (if truthy_str (pa_address params) then the (pa_address params) else ''localhost''),
       ca_port = pa_port params, ca_timeout = pa_timeout params, ca_ws = None, ca_socks = [],
       ca_opens = [], ca_receivers = [], ca_closings = [], ca_hasCallbacks = False,
       ca_shouldReconnect = True, ca_pingTimeout = None, ca_next = 0, ca_slugs = 0 \<rparr>"

definition createControlAgent :: "string \<Rightarrow> ControlAgentConfig \<Rightarrow> ControlAgent" where
  "createControlAgent peer cfg =
     control_agent
       \<lparr> pa_id = Some (''controlAgent-'' @ peer), pa_address = Some (wsHost cfg),
         pa_port = wsPort cfg, pa_connectionTimeout = connectionTimeout cfg,
         pa_timeout = msgTimeout cfg, pa_reconnectInterval = reconnectInterval cfg \<rparr>"

text \<open>
  What a step does: sockets created, messages sent, sockets closed, the callbacks of the peer
  server, the settling of the promises it awaits, and the errors nobody handles, which end
  the process.
\<close>

datatype ca_out =
    NewWebSocket nat string
  | WsSend nat string
  | WsClose nat
  | OnCert js
  | OnPeerJWS "js option"
  | InitResolved
  | InitRejected thrown
  | LoadResolved js
  | LoadRejected thrown
  | CloseResolved closer bool
  | UncaughtException thrown
  | UnhandledRejection thrown

text \<open>The stringifier of the messages and the ids that \<^verbatim>\<open>generateSlug\<close> gives.\<close>

record codec =
  cd_stringify :: "js \<Rightarrow> string"
  cd_slug :: "nat \<Rightarrow> string"

type_synonym ca_result = "ControlAgent \<times> ca_out list"

section \<open>Sequencing\<close>

definition then_do :: "'s \<times> 'o list \<Rightarrow> ('s \<Rightarrow> 's \<times> 'o list) \<Rightarrow> 's \<times> 'o list" where
  "then_do r f = (let q = f (fst r) in (fst q, snd r @ snd q))"

lemma then_do_simps [simp]:
  "fst (then_do r f) = fst (f (fst r))"
  "snd (then_do r f) = snd r @ snd (f (fst r))"
  by (simp_all add: then_do_def Let_def)

fun do_all :: "('x \<Rightarrow> 's \<Rightarrow> 's \<times> 'o list) \<Rightarrow> 'x list \<Rightarrow> 's \<Rightarrow> 's \<times> 'o list" where
  "do_all f [] s = (s, [])"
| "do_all f (x # xs) s = then_do (f x s) (do_all f xs)"

section \<open>Sockets\<close>

definition sock_state :: "ControlAgent \<Rightarrow> nat \<Rightarrow> ready_state" where
  "sock_state s k = (if k < length (ca_socks s) then ca_socks s ! k else CLOSED)"

definition ws_open :: "ControlAgent \<Rightarrow> bool" where
  "ws_open s = (case ca_ws s of None \<Rightarrow> False | Some k \<Rightarrow> sock_state s k = OPEN)"

definition ws_address :: "ControlAgent \<Rightarrow> string" where
  "ws_address s =
     (let url = (if ca_port s \<noteq> 0 then ca_address s @ '':'' @ show_int (ca_port s) else ca_address s);
          protocol = (if str_includes (ca_address s) ''://'' then [] else ''ws://'')
      in protocol @ url)"

text \<open>\<^verbatim>\<open>this._ws?.close()\<close>\<close>

definition ws_close :: "ControlAgent \<Rightarrow> ca_result" where
  "ws_close s =
     (case ca_ws s of
        None \<Rightarrow> (s, [])
      | Some k \<Rightarrow>
          (s\<lparr> ca_socks := (if sock_state s k = CLOSED then ca_socks s else (ca_socks s)[k := CLOSING]) \<rparr>,
           [WsClose k]))"

definition schedulePing :: "ControlAgent \<Rightarrow> ControlAgent" where
  "schedulePing s = s\<lparr> ca_pingTimeout := Some (node_delay (PING_INTERVAL_MS + ca_timeout s)) \<rparr>"

text \<open>Settling the promise of \<^verbatim>\<open>open\<close>: \<^verbatim>\<open>init\<close> passes it on, the ping timer has no handler.\<close>

definition reject_open :: "awaiter \<Rightarrow> thrown \<Rightarrow> ca_out list" where
  "reject_open a e = (case a of ByCaller \<Rightarrow> [InitRejected e] | ByPingTimer \<Rightarrow> [UnhandledRejection e])"

definition already_open :: thrown where
  "already_open = ThrownError ''WebSocket is already open''"

definition open_ws :: "awaiter \<Rightarrow> ControlAgent \<Rightarrow> ca_result" where
  "open_ws a s =
     (let s1 = schedulePing s in
      if ws_open s1 then (s1, reject_open a already_open)
      else
        (let k = length (ca_socks s1) in
         (s1\<lparr> ca_ws := Some k, ca_socks := ca_socks s1 @ [CONNECTING],
              ca_opens := ca_opens s1 @ [(k, a)] \<rparr>,
          [NewWebSocket k (ws_address s1)])))"

definition ca_init :: "ControlAgent \<Rightarrow> ca_result" where
  "ca_init s = open_ws ByCaller (s\<lparr> ca_hasCallbacks := True \<rparr>)"

lemma ws_open_cong: "ca_ws s = ca_ws t \<Longrightarrow> ca_socks s = ca_socks t \<Longrightarrow> ws_open s = ws_open t"
  by (simp add: ws_open_def sock_state_def split: option.split)

section \<open>Sending\<close>

fun ready_state_no :: "ready_state \<Rightarrow> nat" where
  "ready_state_no CONNECTING = 0"
| "ready_state_no OPEN = 1"
| "ready_state_no CLOSING = 2"
| "ready_state_no CLOSED = 3"

definition not_open_error :: "ControlAgent \<Rightarrow> thrown" where
  "not_open_error s =
     ThrownError (ca_id s @ '' WebSocket is not open  [ws.readyState: '' @
       (case ca_ws s of None \<Rightarrow> ''undefined'' | Some k \<Rightarrow> show_nat (ready_state_no (sock_state s k))) @ '']'')"

text \<open>\<^verbatim>\<open>send\<close> logs every error and returns; a text goes out only over an open socket.\<close>

definition ca_send :: "codec \<Rightarrow> string + js \<Rightarrow> ControlAgent \<Rightarrow> ca_result" where
  "ca_send cd msg s =
     (if \<not> ws_open s then (s, [])
      else (case ca_ws s of
              None \<Rightarrow> (s, [])
            | Some k \<Rightarrow>
                (s, [WsSend k (case msg of Inl text \<Rightarrow> text | Inr v \<Rightarrow> serialise (cd_stringify cd) v)])))"

text \<open>Building a message without an id takes the next slug.\<close>

definition send_built ::
  "codec \<Rightarrow> (string \<Rightarrow> js option \<Rightarrow> string) \<Rightarrow> js option \<Rightarrow> ControlAgent \<Rightarrow> ca_result" where
  "send_built cd build mid s =
     ca_send cd (Inl (build (cd_slug cd (ca_slugs s)) mid))
       (if mid = None then s\<lparr> ca_slugs := Suc (ca_slugs s) \<rparr> else s)"

definition triggerFetchPeerJws :: "codec \<Rightarrow> ControlAgent \<Rightarrow> ca_result" where
  "triggerFetchPeerJws cd = send_built cd (build_PEER_JWS_READ (cd_stringify cd)) None"

definition sendPeerJWS :: "codec \<Rightarrow> js option \<Rightarrow> ControlAgent \<Rightarrow> ca_result" where
  "sendPeerJWS cd peerJWS =
     send_built cd (\<lambda>slug mid. build_PEER_JWS_NOTIFY (cd_stringify cd) slug peerJWS mid) None"

definition send_error :: "codec \<Rightarrow> ERROR \<Rightarrow> js option \<Rightarrow> ControlAgent \<Rightarrow> ca_result" where
  "send_error cd err mid =
     send_built cd (\<lambda>slug i. build_ERROR_NOTIFY (cd_stringify cd) slug err i) mid"

section \<open>Receiving one message: loadCerts\<close>

definition reject_load :: "awaiter \<Rightarrow> thrown \<Rightarrow> ca_out list" where
  "reject_load a e = (case a of ByCaller \<Rightarrow> [LoadRejected e] | ByPingTimer \<Rightarrow> [UnhandledRejection e])"

definition resolve_load :: "awaiter \<Rightarrow> js \<Rightarrow> ca_out list" where
  "resolve_load a certs = (case a of ByCaller \<Rightarrow> [LoadResolved certs] | ByPingTimer \<Rightarrow> [])"

text \<open>\<^verbatim>\<open>receive\<close> rejects at once when the socket is not open.\<close>

definition receive :: "bool \<Rightarrow> awaiter \<Rightarrow> ControlAgent \<Rightarrow> ca_result" where
  "receive validate a s =
     (if \<not> ws_open s then (s, reject_load a (not_open_error s))
      else (case ca_ws s of
              None \<Rightarrow> (s, reject_load a (not_open_error s))
            | Some k \<Rightarrow>
                (s\<lparr> ca_receivers := ca_receivers s @
                      [\<lparr> rc_no = ca_next s, rc_sock = k, rc_validate = validate,
                         rc_awaiter = a, rc_timer = True \<rparr>],
                    ca_next := Suc (ca_next s) \<rparr>, [])))"

definition loadCerts :: "codec \<Rightarrow> awaiter \<Rightarrow> ControlAgent \<Rightarrow> ca_result" where
  "loadCerts cd a s =
     then_do (send_built cd (build_CONFIGURATION_READ (cd_stringify cd)) None s) (receive True a)"

definition on_cert :: "js \<Rightarrow> ControlAgent \<Rightarrow> ca_out list" where
  "on_cert certs s = (if ca_hasCallbacks s then [OnCert certs] else [])"

text \<open>Both callers have checked the payload with \<open>isCertsPayload\<close>, so the path exists.\<close>

definition extractCerts :: "js option \<Rightarrow> js" where
  "extractCerts data = the (opt_getp (opt_getp (opt_getp data ''outbound'') ''tls'') ''creds'')"

lemma extractCerts_payload [simp]:
  "extractCerts (opt_getp (Some msg) ''data'') = the (payload_creds msg)"
  "extractCerts (oget ps ''data'') = the (payload_creds (JObj ps))"
  by (simp_all add: extractCerts_def payload_creds_def)

text \<open>The rest of \<^verbatim>\<open>loadCerts\<close>, once its message is there.\<close>

definition loadCerts_resume :: "awaiter \<Rightarrow> js \<Rightarrow> ControlAgent \<Rightarrow> ca_out list" where
  "loadCerts_resume a res s =
     (if \<not> isCertsPayload res
      then reject_load a (ThrownTypeError (''Failed to read initial certs from '' @ ca_id s))
      else (let certs = extractCerts (opt_getp (Some res) ''data'') in on_cert certs s @ resolve_load a certs))"

text \<open>
  The listener of one receiver: a text that does not parse throws out of the listener; an
  invalid message rejects the promise (the later \<^verbatim>\<open>resolve\<close> has no effect); a receiver whose
  timer has fired has no promise left to settle.
\<close>

definition receiver_message :: "codec \<Rightarrow> string \<Rightarrow> receiver \<Rightarrow> ControlAgent \<Rightarrow> ca_result" where
  "receiver_message cd text r s =
     (case deserialise text of
        None \<Rightarrow> (s, [UncaughtException (ThrownError ''SyntaxError: invalid JSON'')])
      | Some msg \<Rightarrow>
          (s, if \<not> rc_timer r then []
              else if rc_validate r \<and> \<not> isWsPayload msg
              then reject_load (rc_awaiter r) (ThrownTypeError ''Invalid WS response format'')
              else loadCerts_resume (rc_awaiter r) msg s))"

definition receive_timeout :: "nat \<Rightarrow> ControlAgent \<Rightarrow> ca_result" where
  "receive_timeout n s =
     (case find (\<lambda>r. rc_no r = n \<and> rc_timer r) (ca_receivers s) of
        None \<Rightarrow> (s, [])
      | Some r \<Rightarrow>
          (s\<lparr> ca_receivers := map (\<lambda>q. if rc_no q = n then q\<lparr> rc_timer := False \<rparr> else q) (ca_receivers s) \<rparr>,
           reject_load (rc_awaiter r) (ThrownError (ca_id s @ '' timed out waiting for message''))))"

section \<open>The message handler\<close>

definition handle_configuration :: "codec \<Rightarrow> js \<Rightarrow> ControlAgent \<Rightarrow> ca_result" where
  "handle_configuration cd msg s =
     (let verb = opt_getp (Some msg) ''verb'' in
      if verb = Some (JStr (verb_str NOTIFY)) \<or> verb = Some (JStr (verb_str PATCH))
      then (if isCertsPayload msg then (s, on_cert (extractCerts (opt_getp (Some msg) ''data'')) s) else (s, []))
      else send_error cd UNSUPPORTED_VERB (opt_getp (Some msg) ''id'') s)"

definition handle_peer_jws :: "codec \<Rightarrow> js \<Rightarrow> ControlAgent \<Rightarrow> ca_result" where
  "handle_peer_jws cd msg s =
     (if opt_getp (Some msg) ''verb'' = Some (JStr (verb_str NOTIFY))
      then (s, if ca_hasCallbacks s then [OnPeerJWS (opt_getp (Some msg) ''data'')] else [])
      else send_error cd UNSUPPORTED_VERB (opt_getp (Some msg) ''id'') s)"

definition handle_message :: "codec \<Rightarrow> js \<Rightarrow> ControlAgent \<Rightarrow> ca_result" where
  "handle_message cd msg s =
     (case getp (Some msg) ''msg'' of
        Inl e \<Rightarrow> (s, [UncaughtException e])
      | Inr m \<Rightarrow>
          if m = Some (JStr (message_str CONFIGURATION)) then handle_configuration cd msg s
          else if m = Some (JStr (message_str PEER_JWS)) then handle_peer_jws cd msg s
          else if m = Some (JStr (message_str ERROR_MSG)) then (s, [])
          else send_error cd UNSUPPORTED_MESSAGE (opt_getp (Some msg) ''id'') s)"

definition ca_handle :: "codec \<Rightarrow> string \<Rightarrow> ControlAgent \<Rightarrow> ca_result" where
  "ca_handle cd text s =
     (case deserialise text of
        None \<Rightarrow> send_error cd JSON_PARSE_ERROR None s
      | Some msg \<Rightarrow> handle_message cd msg s)"

section \<open>Closing\<close>

definition WS_CLOSE_TIMEOUT_MS :: int where "WS_CLOSE_TIMEOUT_MS = 5000"

text \<open>\<^verbatim>\<open>close\<close> up to its \<^verbatim>\<open>await\<close>: the pending promise listens on the current socket, if any.\<close>

definition ca_close :: "closer \<Rightarrow> ControlAgent \<Rightarrow> ca_result" where
  "ca_close c s =
     ws_close (s\<lparr> ca_pingTimeout := None,
                  ca_closings := ca_closings s @
                    [\<lparr> cl_no = ca_next s, cl_sock = ca_ws s, cl_closer = c \<rparr>],
                  ca_next := Suc (ca_next s),
                  ca_shouldReconnect := False \<rparr>)"

text \<open>The promise is settled: \<^verbatim>\<open>_ws\<close> becomes null and \<^verbatim>\<open>close\<close> returns.\<close>

definition finish_close :: "bool \<Rightarrow> closing \<Rightarrow> ControlAgent \<Rightarrow> ca_result" where
  "finish_close isOK c s =
     (s\<lparr> ca_ws := None, ca_closings := filter (\<lambda>d. cl_no d \<noteq> cl_no c) (ca_closings s) \<rparr>,
      [CloseResolved (cl_closer c) isOK])"

definition close_timeout :: "nat \<Rightarrow> ControlAgent \<Rightarrow> ca_result" where
  "close_timeout n s =
     (case find (\<lambda>c. cl_no c = n) (ca_closings s) of
        None \<Rightarrow> (s, [])
      | Some c \<Rightarrow> finish_close False c s)"

section \<open>Events of a socket\<close>

definition closings_on :: "nat \<Rightarrow> ControlAgent \<Rightarrow> closing list" where
  "closings_on k s = filter (\<lambda>c. cl_sock c = Some k) (ca_closings s)"

definition set_sock :: "nat \<Rightarrow> ready_state \<Rightarrow> ControlAgent \<Rightarrow> ControlAgent" where
  "set_sock k r s = s\<lparr> ca_socks := (ca_socks s)[k := r] \<rparr>"

text \<open>What follows an \<^verbatim>\<open>await this.open()\<close>.\<close>

definition open_resolved :: "codec \<Rightarrow> awaiter \<Rightarrow> ControlAgent \<Rightarrow> ca_result" where
  "open_resolved cd a s =
     (case a of ByCaller \<Rightarrow> (s, [InitResolved]) | ByPingTimer \<Rightarrow> loadCerts cd ByPingTimer s)"

definition on_open :: "codec \<Rightarrow> nat \<Rightarrow> ControlAgent \<Rightarrow> ca_result" where
  "on_open cd k s =
     (let s1 = set_sock k OPEN s in
      case map_of (ca_opens s) k of
        None \<Rightarrow> (s1, [])
      | Some a \<Rightarrow> open_resolved cd a (s1\<lparr> ca_opens := filter (\<lambda>p. fst p \<noteq> k) (ca_opens s) \<rparr>))"

definition on_close :: "nat \<Rightarrow> ControlAgent \<Rightarrow> ca_result" where
  "on_close k s =
     (let s1 = set_sock k CLOSED s;
          s2 = (if ca_shouldReconnect s1 then schedulePing s1 else s1)
      in do_all (finish_close True) (closings_on k s2) s2)"

definition on_error :: "nat \<Rightarrow> ControlAgent \<Rightarrow> ca_result" where
  "on_error k s = then_do (ws_close s) (do_all (finish_close False) (closings_on k s))"

definition is_uncaught :: "ca_out \<Rightarrow> bool" where
  "is_uncaught x = (case x of UncaughtException _ \<Rightarrow> True | _ \<Rightarrow> False)"

text \<open>
  The listeners of a message, in the order of their registration; one that throws keeps the
  later ones from running. The one-time listeners are gone once called.
\<close>

fun call_receivers :: "codec \<Rightarrow> string \<Rightarrow> receiver list \<Rightarrow> ControlAgent \<Rightarrow> ca_result" where
  "call_receivers cd text [] s = (s, [])"
| "call_receivers cd text (r # rs) s =
     (let s1 = s\<lparr> ca_receivers := filter (\<lambda>q. rc_no q \<noteq> rc_no r) (ca_receivers s) \<rparr>;
          q = receiver_message cd text r s1
      in if list_ex is_uncaught (snd q) then q else then_do q (call_receivers cd text rs))"

definition receivers_on :: "nat \<Rightarrow> ControlAgent \<Rightarrow> receiver list" where
  "receivers_on k s = filter (\<lambda>r. rc_sock r = k) (ca_receivers s)"

definition on_message :: "codec \<Rightarrow> nat \<Rightarrow> string \<Rightarrow> ControlAgent \<Rightarrow> ca_result" where
  "on_message cd k text s =
     (let q = ca_handle cd text s
      in if list_ex is_uncaught (snd q) then q
         else then_do q (call_receivers cd text (receivers_on k s)))"

text \<open>The callback of the ping timer.\<close>

definition ping_timeout :: "ControlAgent \<Rightarrow> ca_result" where
  "ping_timeout s =
     (case ca_pingTimeout s of
        None \<Rightarrow> (s, [])
      | Some d \<Rightarrow> open_ws ByPingTimer (s\<lparr> ca_pingTimeout := None \<rparr>))"

section \<open>The machine\<close>

datatype ca_event =
    CallInit
  | CallLoadCerts
  | CallClose closer
  | CallTriggerFetch
  | CallSendPeerJWS "js option"
  | SockOpen nat
  | SockPing nat
  | SockClose nat
  | SockError nat
  | SockMessage nat string
  | PingTimeout
  | ReceiveTimeout nat
  | CloseTimeout nat

definition ca_step :: "codec \<Rightarrow> ControlAgent \<Rightarrow> ca_event \<Rightarrow> ca_result" where
  "ca_step cd s e =
     (case e of
        CallInit \<Rightarrow> ca_init s
      | CallLoadCerts \<Rightarrow> loadCerts cd ByCaller s
      | CallClose c \<Rightarrow> ca_close c s
      | CallTriggerFetch \<Rightarrow> triggerFetchPeerJws cd s
      | CallSendPeerJWS d \<Rightarrow> sendPeerJWS cd d s
      | SockOpen k \<Rightarrow> on_open cd k s
      | SockPing k \<Rightarrow> (schedulePing s, [])
      | SockClose k \<Rightarrow> on_close k s
      | SockError k \<Rightarrow> on_error k s
      | SockMessage k text \<Rightarrow> on_message cd k text s
      | PingTimeout \<Rightarrow> ping_timeout s
      | ReceiveTimeout n \<Rightarrow> receive_timeout n s
      | CloseTimeout n \<Rightarrow> close_timeout n s)"

section \<open>What the operations leave alone\<close>

lemmas send_defs =
  ca_send_def send_built_def triggerFetchPeerJws_def sendPeerJWS_def send_error_def

lemmas handle_defs =
  ca_handle_def handle_message_def handle_configuration_def handle_peer_jws_def Let_def

text \<open>Sending only counts slugs; a message handler only sends.\<close>

lemma ca_send_state [simp]: "fst (ca_send cd m s) = s"
  by (simp add: ca_send_def split: option.split)

lemma send_built_state:
  "fst (send_built cd b mid s) = (if mid = None then s\<lparr> ca_slugs := Suc (ca_slugs s) \<rparr> else s)"
  by (simp add: send_built_def)

definition slugs_only :: "ControlAgent \<Rightarrow> ControlAgent \<Rightarrow> bool" where
  "slugs_only s t \<longleftrightarrow> t = s\<lparr> ca_slugs := ca_slugs t \<rparr>"

lemma slugs_only_same [simp]: "slugs_only s s"
  by (simp add: slugs_only_def)

lemma send_built_slugs [simp]: "slugs_only s (fst (send_built cd b mid s))"
  by (simp add: slugs_only_def send_built_state)

lemma ca_handle_slugs [simp]: "slugs_only s (fst (ca_handle cd text s))"
  by (simp add: handle_defs send_error_def split: option.split sum.split)

lemma slugs_frame:
  assumes "slugs_only s t"
  shows "ca_opens t = ca_opens s" "ca_socks t = ca_socks s" "ca_ws t = ca_ws s"
    "ca_receivers t = ca_receivers s" "ca_closings t = ca_closings s"
    "ca_shouldReconnect t = ca_shouldReconnect s" "ca_pingTimeout t = ca_pingTimeout s"
    "ca_hasCallbacks t = ca_hasCallbacks s" "ca_timeout t = ca_timeout s" "ca_next t = ca_next s" "ca_id t = ca_id s"
  by (subst assms [unfolded slugs_only_def], simp)+

text \<open>The fields that a machine invariant may rely on.\<close>

lemma send_built_frame [simp]:
  "ca_opens (fst (send_built cd b mid s)) = ca_opens s"
  "ca_socks (fst (send_built cd b mid s)) = ca_socks s"
  "ca_ws (fst (send_built cd b mid s)) = ca_ws s"
  "ca_receivers (fst (send_built cd b mid s)) = ca_receivers s"
  "ca_closings (fst (send_built cd b mid s)) = ca_closings s"
  "ca_shouldReconnect (fst (send_built cd b mid s)) = ca_shouldReconnect s"
  "ca_pingTimeout (fst (send_built cd b mid s)) = ca_pingTimeout s"
  "ca_hasCallbacks (fst (send_built cd b mid s)) = ca_hasCallbacks s"
  "ca_timeout (fst (send_built cd b mid s)) = ca_timeout s"
  "ca_next (fst (send_built cd b mid s)) = ca_next s"
  "ca_id (fst (send_built cd b mid s)) = ca_id s"
  by (rule slugs_frame [OF send_built_slugs])+

lemma ca_handle_frame [simp]:
  "ca_opens (fst (ca_handle cd text s)) = ca_opens s"
  "ca_socks (fst (ca_handle cd text s)) = ca_socks s"
  "ca_ws (fst (ca_handle cd text s)) = ca_ws s"
  "ca_receivers (fst (ca_handle cd text s)) = ca_receivers s"
  "ca_closings (fst (ca_handle cd text s)) = ca_closings s"
  "ca_shouldReconnect (fst (ca_handle cd text s)) = ca_shouldReconnect s"
  "ca_pingTimeout (fst (ca_handle cd text s)) = ca_pingTimeout s"
  "ca_hasCallbacks (fst (ca_handle cd text s)) = ca_hasCallbacks s"
  "ca_timeout (fst (ca_handle cd text s)) = ca_timeout s"
  "ca_next (fst (ca_handle cd text s)) = ca_next s"
  "ca_id (fst (ca_handle cd text s)) = ca_id s"
  by (rule slugs_frame [OF ca_handle_slugs])+

lemma send_built_open [simp]: "ws_open (fst (send_built cd b mid s)) = ws_open s"
  by (rule ws_open_cong) simp_all

lemma receive_keeps [simp]:
  "ca_opens (fst (receive v a s)) = ca_opens s"
  "ca_socks (fst (receive v a s)) = ca_socks s"
  "ca_ws (fst (receive v a s)) = ca_ws s"
  "ca_closings (fst (receive v a s)) = ca_closings s"
  "ca_shouldReconnect (fst (receive v a s)) = ca_shouldReconnect s"
  "ca_pingTimeout (fst (receive v a s)) = ca_pingTimeout s"
  "ca_hasCallbacks (fst (receive v a s)) = ca_hasCallbacks s"
  "ca_timeout (fst (receive v a s)) = ca_timeout s"
  by (auto simp: receive_def split: option.split)

lemma loadCerts_frame [simp]:
  "ca_opens (fst (loadCerts cd a s)) = ca_opens s"
  "ca_socks (fst (loadCerts cd a s)) = ca_socks s"
  "ca_ws (fst (loadCerts cd a s)) = ca_ws s"
  "ca_closings (fst (loadCerts cd a s)) = ca_closings s"
  "ca_shouldReconnect (fst (loadCerts cd a s)) = ca_shouldReconnect s"
  "ca_pingTimeout (fst (loadCerts cd a s)) = ca_pingTimeout s"
  "ca_hasCallbacks (fst (loadCerts cd a s)) = ca_hasCallbacks s"
  "ca_timeout (fst (loadCerts cd a s)) = ca_timeout s"
  by (simp_all add: loadCerts_def)

lemma receiver_message_state [simp]: "fst (receiver_message cd text r s) = s"
  by (auto simp: receiver_message_def split: option.split)

lemma call_receivers_frame [simp]:
  "ca_opens (fst (call_receivers cd text rs s)) = ca_opens s"
  "ca_socks (fst (call_receivers cd text rs s)) = ca_socks s"
  "ca_ws (fst (call_receivers cd text rs s)) = ca_ws s"
  "ca_closings (fst (call_receivers cd text rs s)) = ca_closings s"
  "ca_shouldReconnect (fst (call_receivers cd text rs s)) = ca_shouldReconnect s"
  "ca_pingTimeout (fst (call_receivers cd text rs s)) = ca_pingTimeout s"
  "ca_hasCallbacks (fst (call_receivers cd text rs s)) = ca_hasCallbacks s"
  "ca_timeout (fst (call_receivers cd text rs s)) = ca_timeout s"
  by (induction rs arbitrary: s) (simp_all add: Let_def)

lemma on_message_frame [simp]:
  "ca_opens (fst (on_message cd k text s)) = ca_opens s"
  "ca_socks (fst (on_message cd k text s)) = ca_socks s"
  "ca_ws (fst (on_message cd k text s)) = ca_ws s"
  "ca_closings (fst (on_message cd k text s)) = ca_closings s"
  "ca_shouldReconnect (fst (on_message cd k text s)) = ca_shouldReconnect s"
  "ca_pingTimeout (fst (on_message cd k text s)) = ca_pingTimeout s"
  "ca_hasCallbacks (fst (on_message cd k text s)) = ca_hasCallbacks s"
  "ca_timeout (fst (on_message cd k text s)) = ca_timeout s"
  by (simp_all add: on_message_def Let_def)

lemma ws_close_frame [simp]:
  "ca_opens (fst (ws_close s)) = ca_opens s"
  "length (ca_socks (fst (ws_close s))) = length (ca_socks s)"
  "ca_ws (fst (ws_close s)) = ca_ws s"
  "ca_receivers (fst (ws_close s)) = ca_receivers s"
  "ca_closings (fst (ws_close s)) = ca_closings s"
  "ca_shouldReconnect (fst (ws_close s)) = ca_shouldReconnect s"
  "ca_pingTimeout (fst (ws_close s)) = ca_pingTimeout s"
  "ca_hasCallbacks (fst (ws_close s)) = ca_hasCallbacks s"
  "ca_timeout (fst (ws_close s)) = ca_timeout s"
  by (auto simp: ws_close_def split: option.split)

lemma finish_closes_frame [simp]:
  "ca_opens (fst (do_all (finish_close b) cs s)) = ca_opens s"
  "ca_socks (fst (do_all (finish_close b) cs s)) = ca_socks s"
  "ca_receivers (fst (do_all (finish_close b) cs s)) = ca_receivers s"
  "ca_shouldReconnect (fst (do_all (finish_close b) cs s)) = ca_shouldReconnect s"
  "ca_pingTimeout (fst (do_all (finish_close b) cs s)) = ca_pingTimeout s"
  "ca_hasCallbacks (fst (do_all (finish_close b) cs s)) = ca_hasCallbacks s"
  "ca_timeout (fst (do_all (finish_close b) cs s)) = ca_timeout s"
  by (induction cs arbitrary: s) (simp_all add: finish_close_def)

lemma finish_closes_out [simp]:
  "snd (do_all (finish_close b) cs s) = map (\<lambda>c. CloseResolved (cl_closer c) b) cs"
  by (induction cs arbitrary: s) (simp_all add: finish_close_def)

section \<open>What the operations output\<close>

text \<open>The kinds of output, to say which operation can give which.\<close>

fun settles_init :: "ca_out \<Rightarrow> bool" where
  "settles_init InitResolved = True"
| "settles_init (InitRejected e) = True"
| "settles_init _ = False"

lemma send_built_out:
  "snd (send_built cd b mid s) =
     (if ws_open s then [WsSend (the (ca_ws s)) (b (cd_slug cd (ca_slugs s)) mid)] else [])"
  by (auto simp: send_defs ws_open_def sock_state_def split: option.splits)

lemma ca_handle_out_kinds:
  "x \<in> set (snd (ca_handle cd text s)) \<Longrightarrow>
     (\<exists>t. x = WsSend (the (ca_ws s)) t \<and> ws_open s) \<or> (\<exists>c. x = OnCert c) \<or> (\<exists>d. x = OnPeerJWS d)
     \<or> (\<exists>e. x = UncaughtException e)"
  by (auto simp: handle_defs send_error_def send_built_out on_cert_def
      split: option.splits sum.splits if_splits)

lemma receive_out: "x \<in> set (snd (receive v a s)) \<Longrightarrow> \<exists>e. x \<in> set (reject_load a e)"
  by (auto simp: receive_def split: if_splits option.splits)

lemma reject_load_kinds:
  "x \<in> set (reject_load a e) \<Longrightarrow> x = LoadRejected e \<or> x = UnhandledRejection e"
  by (auto simp: reject_load_def split: awaiter.splits)

lemma receiver_message_out_kinds:
  "x \<in> set (snd (receiver_message cd text r s)) \<Longrightarrow>
     (\<exists>e. x = UncaughtException e) \<or> (\<exists>c. x = OnCert c) \<or> (\<exists>c. x = LoadResolved c)
     \<or> (\<exists>e. x = LoadRejected e) \<or> (\<exists>e. x = UnhandledRejection e)"
  by (auto simp: receiver_message_def loadCerts_resume_def resolve_load_def on_cert_def Let_def
      dest!: reject_load_kinds split: option.splits if_splits awaiter.splits)

lemma call_receivers_out_kinds:
  "x \<in> set (snd (call_receivers cd text rs s)) \<Longrightarrow>
     \<exists>r s'. x \<in> set (snd (receiver_message cd text r s'))"
  by (induction rs arbitrary: s) (auto simp: Let_def split: if_splits)

lemma on_message_not_init [simp]:
  "x \<in> set (snd (on_message cd k text s)) \<Longrightarrow> \<not> settles_init x"
  by (fastforce simp: on_message_def Let_def split: if_splits
      dest!: ca_handle_out_kinds call_receivers_out_kinds receiver_message_out_kinds)

lemma loadCerts_not_init [simp]: "x \<in> set (snd (loadCerts cd a s)) \<Longrightarrow> \<not> settles_init x"
  by (auto simp: loadCerts_def send_built_out split: if_splits dest!: receive_out reject_load_kinds)

lemma ws_close_not_init [simp]: "x \<in> set (snd (ws_close s)) \<Longrightarrow> \<not> settles_init x"
  by (auto simp: ws_close_def split: option.splits)

end
