(* ===== verification/Agent_Runs.thy ===== *)
theory Agent_Runs
  imports Control_Agent
begin

text \<open>
  What the runs of a control agent show: when \<^verbatim>\<open>init\<close> settles, that the ping watchdog stays
  armed, what a lost connection leads to, that every \<^verbatim>\<open>close\<close> is answered once, what
  \<^verbatim>\<open>loadCerts\<close> makes of the first message, and which messages end the process.
\<close>

lemmas ca_ops =
  ca_step_def ca_init_def open_ws_def schedulePing_def ca_close_def finish_close_def
  close_timeout_def receive_timeout_def on_open_def open_resolved_def set_sock_def on_close_def
  on_error_def ping_timeout_def triggerFetchPeerJws_def sendPeerJWS_def reject_open_def Let_def

section \<open>Starting\<close>

text \<open>The only promise of \<^verbatim>\<open>open\<close> that \<^verbatim>\<open>init\<close> awaits is that of socket \<open>k\<close>.\<close>

definition init_awaits :: "nat \<Rightarrow> ControlAgent \<Rightarrow> bool" where
  "init_awaits k s \<longleftrightarrow> (\<forall>p \<in> set (ca_opens s). snd p = ByCaller \<longrightarrow> fst p = k)"

definition leaves_init :: "nat \<Rightarrow> ControlAgent \<Rightarrow> ca_event \<Rightarrow> bool" where
  "leaves_init k s e \<longleftrightarrow> e \<noteq> CallInit \<and> e \<noteq> SockOpen k"

lemma init_awaits_step:
  assumes "init_awaits k s" and "leaves_init k s e"
  shows "init_awaits k (fst (ca_step cd s e))"
  using assms
  by (cases e) (auto simp: init_awaits_def leaves_init_def ca_ops split: option.split awaiter.split)

lemma not_awaited:
  "init_awaits k s \<Longrightarrow> map_of (ca_opens s) j = Some ByCaller \<Longrightarrow> j = k"
  by (auto simp: init_awaits_def dest!: map_of_SomeD)

lemma init_awaits_out:
  assumes "init_awaits k s" and "leaves_init k s e" and "x \<in> set (snd (ca_step cd s e))"
  shows "\<not> settles_init x"
  using assms not_awaited [OF assms(1)]
  by (cases e)
     (auto simp: leaves_init_def ca_ops send_built_out reject_load_def
       split: option.splits awaiter.splits if_splits)

interpretation init_hang: promising_machine "ca_step cd" "leaves_init k" "init_awaits k" "\<lambda>x. \<not> settles_init x"
  for cd k
  by unfold_locales (rule init_awaits_step init_awaits_out; assumption)+

text \<open>
  \<^verbatim>\<open>init\<close> settles only when its own socket opens. After \<^verbatim>\<open>init\<close> has created a socket for an
  agent with no other \<^verbatim>\<open>init\<close> pending, no sequence of other calls, errors, closes, messages,
  pings and timeouts ever resolves or rejects its promise: a connection that fails, or that a
  later ping timeout replaces by a working one, leaves the caller waiting.
\<close>

theorem init_settles_only_on_open:
  assumes "ByCaller \<notin> snd ` set (ca_opens s)" and "\<not> ws_open s"
    and "CallInit \<notin> set es" and "SockOpen (length (ca_socks s)) \<notin> set es"
  shows "filter settles_init (snd (exec (ca_step cd) s (CallInit # es))) = []"
proof -
  let ?k = "length (ca_socks s)" and ?t = "fst (ca_step cd s CallInit)"
  have no_init: "\<forall>p \<in> set (ca_opens s). snd p \<noteq> ByCaller" using assms(1) by force
  have "ws_open (schedulePing (s\<lparr> ca_hasCallbacks := True \<rparr>)) = ws_open s"
    by (intro ws_open_cong) (simp_all add: schedulePing_def)
  with assms(2) have "snd (ca_step cd s CallInit) = [NewWebSocket ?k (ws_address (schedulePing (s\<lparr> ca_hasCallbacks := True \<rparr>)))]"
    and "init_awaits ?k ?t"
    using no_init by (auto simp: ca_step_def ca_init_def open_ws_def schedulePing_def Let_def init_awaits_def)
  moreover have "allowed (ca_step cd) (leaves_init ?k) ?t es"
    using assms(3,4) by (intro allowed_all) (auto simp: leaves_init_def)
  ultimately show ?thesis
    using init_hang.exec_out by (fastforce simp: Let_def filter_empty_conv)
qed

definition sample_agent :: ControlAgent where
  "sample_agent = control_agent
     \<lparr> pa_id = Some ''controlAgent-A'', pa_address = Some ''mgmt-api'', pa_port = 4005,
       pa_connectionTimeout = 4000, pa_timeout = 6000, pa_reconnectInterval = 5000 \<rparr>"

lemma sample_agent_simps [simp]:
  "ca_ws sample_agent = None" "ca_socks sample_agent = []" "ca_opens sample_agent = []"
  "ca_receivers sample_agent = []" "ca_closings sample_agent = []"
  "ca_timeout sample_agent = 6000" "ca_next sample_agent = 0"
  "ca_id sample_agent = ''controlAgent-A''" "ca_shouldReconnect sample_agent"
  "\<not> ca_hasCallbacks sample_agent" "ca_pingTimeout sample_agent = None" "ca_slugs sample_agent = 0"
  by (simp_all add: sample_agent_def control_agent_def)

definition sample_certs :: js where
  "sample_certs =
     JObj [(''verb'', JStr ''NOTIFY''), (''msg'', JStr ''CONFIGURATION''),
           (''data'', JObj [(''outbound'', JObj [(''tls'', JObj [(''creds'', JStr ''pem'')])])])]"

definition sample_jws :: js where
  "sample_jws =
     JObj [(''verb'', JStr ''NOTIFY''), (''msg'', JStr ''PEER_JWS''), (''data'', JArr [JStr ''key''])]"

definition sample_codec :: codec where
  "sample_codec = \<lparr> cd_stringify = json_stringify, cd_slug = (\<lambda>n. ''four-word-slug-id'') \<rparr>"

definition certs_text :: string where "certs_text = json_stringify sample_certs"

definition jws_text :: string where "jws_text = json_stringify sample_jws"

lemma sample_texts [simp]:
  "deserialise certs_text = Some sample_certs" "deserialise jws_text = Some sample_jws"
  unfolding certs_text_def jws_text_def
  by (subst deserialise_stringify; simp add: sample_certs_def sample_jws_def revive_object_def)+

lemma sample_jws_simps [simp]:
  "opt_getp (Some sample_jws) ''msg'' = Some (JStr ''PEER_JWS'')"
  "opt_getp (Some sample_jws) ''verb'' = Some (JStr ''NOTIFY'')"
  "opt_getp (Some sample_jws) ''data'' = Some (JArr [JStr ''key''])"
  by (simp_all add: sample_jws_def)

lemma sample_certs_simps [simp]:
  "isCertsPayload sample_certs" "payload_creds sample_certs = Some (JStr ''pem'')"
  "sample_certs \<noteq> JNull"
  by (simp_all add: sample_certs_def isCertsPayload_def payload_creds_def)

theorem init_settles_only_on_open_witness:
  "filter settles_init (snd (exec (ca_step sample_codec) sample_agent
     [CallInit, SockError 0, SockClose 0, PingTimeout, SockOpen 1])) = []"
  by (rule init_settles_only_on_open) (simp_all add: ws_open_def)

section \<open>The ping watchdog\<close>

definition watched :: "ControlAgent \<Rightarrow> bool" where
  "watched s \<longleftrightarrow> ca_pingTimeout s = Some (node_delay (PING_INTERVAL_MS + ca_timeout s))"

text \<open>
  Every state between \<^verbatim>\<open>init\<close> and \<^verbatim>\<open>close\<close>: the timeout is a configured constant, the timer is
  armed, by the last ping, open or reconnection.
\<close>

lemma watched_step:
  assumes "watched s" and "\<forall>c. e \<noteq> CallClose c"
  shows "watched (fst (ca_step cd s e))"
  using assms
  by (cases e) (auto simp: watched_def ca_ops split: option.split awaiter.split)

interpretation watchdog: invariant_machine "ca_step cd" "\<lambda>s e. \<forall>c. e \<noteq> CallClose c" watched for cd
  by unfold_locales (rule watched_step)

lemma init_watched: "watched (fst (ca_step cd s CallInit))"
  by (auto simp: watched_def ca_ops)

text \<open>
  C25. From \<^verbatim>\<open>init\<close> until \<^verbatim>\<open>close\<close> the connection is always watched: after any events that
  contain no \<^verbatim>\<open>close\<close>, the ping timer is armed with its full delay, so a connection that stays
  silent is given up after at most \<^verbatim>\<open>PING_INTERVAL_MS + timeout\<close>.
\<close>

theorem connection_is_watched:
  assumes "\<forall>c. CallClose c \<notin> set es"
  shows "ca_pingTimeout (fst (exec (ca_step cd) s (CallInit # es))) =
           Some (node_delay (PING_INTERVAL_MS
             + ca_timeout (fst (exec (ca_step cd) s (CallInit # es)))))"
proof -
  let ?t = "fst (ca_step cd s CallInit)"
  have "allowed (ca_step cd) (\<lambda>s e. \<forall>c. e \<noteq> CallClose c) ?t es"
    using assms by (intro allowed_all) auto
  then have "watched (fst (exec (ca_step cd) ?t es))"
    by (rule watchdog.exec_inv [OF init_watched])
  then show ?thesis by (simp add: watched_def Let_def)
qed

theorem connection_is_watched_witness:
  "ca_pingTimeout (fst (exec (ca_step sample_codec) sample_agent [CallInit, SockError 0, SockClose 0, PingTimeout])) =
     Some (node_delay (PING_INTERVAL_MS
       + ca_timeout (fst (exec (ca_step sample_codec) sample_agent [CallInit, SockError 0, SockClose 0, PingTimeout]))))"
  by (rule connection_is_watched) simp

text \<open>
  What the ping timeout does. If the socket still counts as open, the timeout does not
  reconnect: \<^verbatim>\<open>open\<close> rejects, nobody handles the rejection, and the process ends on it. Only
  when the socket is not open any more is a new one created (its promise awaited by the
  timer), and \<^verbatim>\<open>loadCerts\<close> follows when it opens. In both cases the timer is armed again.
\<close>

theorem ping_timeout_outcome:
  assumes "ca_pingTimeout s \<noteq> None"
  shows "snd (ca_step cd s PingTimeout) =
           (if ws_open s then [UnhandledRejection already_open]
            else [NewWebSocket (length (ca_socks s)) (ws_address s)])
       \<and> watched (fst (ca_step cd s PingTimeout))
       \<and> (\<not> ws_open s \<longrightarrow> ca_ws (fst (ca_step cd s PingTimeout)) = Some (length (ca_socks s))
            \<and> (length (ca_socks s), ByPingTimer) \<in> set (ca_opens (fst (ca_step cd s PingTimeout))))"
proof -
  let ?s = "schedulePing (s\<lparr> ca_pingTimeout := None \<rparr>)"
  have o: "ws_open ?s = ws_open s"
    by (intro ws_open_cong) (simp_all add: schedulePing_def)
  have a: "ws_address ?s = ws_address s"
    by (simp add: ws_address_def schedulePing_def)
  obtain d where "ca_pingTimeout s = Some d" using assms by auto
  then show ?thesis
    by (simp add: ca_step_def ping_timeout_def open_ws_def o a Let_def reject_open_def watched_def)
       (simp add: schedulePing_def)
qed

theorem ping_timeout_outcome_witness:
  "snd (ca_step sample_codec (fst (exec (ca_step sample_codec) sample_agent [CallInit, SockOpen 0])) PingTimeout)
     = [UnhandledRejection already_open]"
  by (subst ping_timeout_outcome [THEN conjunct1])
     (simp_all add: ca_ops ws_open_def sock_state_def)

section \<open>Reconnecting\<close>

lemma shouldReconnect_step:
  "ca_shouldReconnect (fst (ca_step cd s e)) \<longleftrightarrow> ca_shouldReconnect s \<and> (\<forall>c. e \<noteq> CallClose c)"
  by (cases e) (auto simp: ca_ops split: option.split awaiter.split)

lemma shouldReconnect_exec:
  "ca_shouldReconnect (fst (exec (ca_step cd) s es)) \<longleftrightarrow>
     ca_shouldReconnect s \<and> (\<forall>c. CallClose c \<notin> set es)"
  by (induction es arbitrary: s) (auto simp: Let_def shouldReconnect_step)

lemma on_close_ping:
  "ca_pingTimeout (fst (ca_step cd s (SockClose k))) =
     (if ca_shouldReconnect s then Some (node_delay (PING_INTERVAL_MS + ca_timeout s))
      else ca_pingTimeout s)"
  by (simp add: ca_ops)

text \<open>
  An agent reconnects after a disconnection only until its first \<^verbatim>\<open>close\<close>. In every run,
  the disconnection of a socket schedules a reconnection exactly when the run has not called
  \<^verbatim>\<open>close\<close> before; since \<^verbatim>\<open>close\<close> is also part of the retry of a failed start and nothing sets
  \<^verbatim>\<open>_shouldReconnect\<close> again, an agent that was restarted never schedules one.
\<close>

theorem reconnects_until_first_close:
  "ca_pingTimeout (fst (ca_step cd (fst (exec (ca_step cd) s es)) (SockClose k))) =
     (let t = fst (exec (ca_step cd) s es) in
      if ca_shouldReconnect s \<and> (\<forall>c. CallClose c \<notin> set es)
      then Some (node_delay (PING_INTERVAL_MS + ca_timeout t)) else ca_pingTimeout t)"
  by (simp add: on_close_ping shouldReconnect_exec Let_def)

section \<open>Closing\<close>

fun close_answer :: "ca_out \<Rightarrow> bool" where
  "close_answer (CloseResolved c b) = True"
| "close_answer _ = False"

fun close_call :: "ca_event \<Rightarrow> bool" where
  "close_call (CallClose c) = True"
| "close_call _ = False"

definition closings_numbered :: "ControlAgent \<Rightarrow> bool" where
  "closings_numbered s \<longleftrightarrow>
     distinct (map cl_no (ca_closings s)) \<and> (\<forall>c \<in> set (ca_closings s). cl_no c < ca_next s)"

lemma finish_closes_closings [simp]:
  "ca_closings (fst (do_all (finish_close b) cs s)) =
     filter (\<lambda>d. cl_no d \<notin> cl_no ` set cs) (ca_closings s)"
  by (induction cs arbitrary: s) (auto simp: finish_close_def conj_commute intro!: filter_cong)

lemma finish_closes_next [simp]: "ca_next (fst (do_all (finish_close b) cs s)) = ca_next s"
  by (induction cs arbitrary: s) (simp_all add: finish_close_def)

lemma ws_close_next [simp]: "ca_next (fst (ws_close s)) = ca_next s"
  by (simp add: ws_close_def split: option.split)

lemma receive_next [simp]: "ca_next s \<le> ca_next (fst (receive v a s))"
  by (simp add: receive_def split: option.split)

lemma call_receivers_next [simp]: "ca_next (fst (call_receivers cd text rs s)) = ca_next s"
  by (induction rs arbitrary: s) (simp_all add: Let_def)

lemma on_message_next [simp]: "ca_next (fst (on_message cd k text s)) = ca_next s"
  by (simp add: on_message_def Let_def)

lemma loadCerts_next: "ca_next s \<le> ca_next (fst (loadCerts cd a s))"
  using receive_next [of "fst (send_built cd b mid s)" for b mid] by (simp add: loadCerts_def)

lemma less_loadCerts: "n < ca_next s \<Longrightarrow> n < ca_next (fst (loadCerts cd a s))"
  by (rule less_le_trans [OF _ loadCerts_next])

lemma closings_of_others:
  assumes "distinct (map cl_no cs)"
  shows "filter (\<lambda>d. cl_no d \<notin> cl_no ` {c \<in> set cs. P c}) cs = filter (\<lambda>d. \<not> P d) cs"
  using assms by (intro filter_cong) (auto simp: distinct_map inj_on_def)

lemma closings_numbered_step:
  assumes "closings_numbered s"
  shows "closings_numbered (fst (ca_step cd s e))"
  using assms
  by (cases e)
     (auto simp: closings_numbered_def ca_ops distinct_map inj_on_def
       split: option.split awaiter.split intro!: less_loadCerts intro: less_SucI)

lemma on_message_not_close [simp]:
  "x \<in> set (snd (on_message cd k text s)) \<Longrightarrow> \<not> close_answer x"
  by (fastforce simp: on_message_def Let_def split: if_splits
      dest!: ca_handle_out_kinds call_receivers_out_kinds receiver_message_out_kinds)

lemma loadCerts_not_close [simp]: "x \<in> set (snd (loadCerts cd a s)) \<Longrightarrow> \<not> close_answer x"
  by (auto simp: loadCerts_def send_built_out split: if_splits dest!: receive_out reject_load_kinds)

lemma ws_close_not_close [simp]: "x \<in> set (snd (ws_close s)) \<Longrightarrow> \<not> close_answer x"
  by (auto simp: ws_close_def split: option.splits)

lemma no_close_answers:
  "(\<And>x. x \<in> set xs \<Longrightarrow> \<not> close_answer x) \<Longrightarrow> filter close_answer xs = []"
  by (simp add: filter_empty_conv)

lemma closes_counted_step:
  assumes "closings_numbered s"
  shows "length (filter close_answer (snd (ca_step cd s e))) + length (ca_closings (fst (ca_step cd s e)))
         = length (filter close_call [e]) + length (ca_closings s)"
proof -
  have d: "distinct (map cl_no (ca_closings s))" using assms by (simp add: closings_numbered_def)
  have split: "length (filter P (ca_closings s)) + length (filter (\<lambda>c. \<not> P c) (ca_closings s))
                 = length (ca_closings s)" for P
    by (rule sum_length_filter_compl)
  have one: "length (filter (\<lambda>c. cl_no c \<noteq> cl_no x) (ca_closings s)) + 1 = length (ca_closings s)"
    if "x \<in> set (ca_closings s)" for x
  proof -
    have "filter (\<lambda>c. cl_no c = cl_no x) (ca_closings s) = [x]"
      using d that by (rule filter_key)
    then show ?thesis using split [of "\<lambda>c. cl_no c = cl_no x"] by simp
  qed
  show ?thesis
    using d one split
    by (cases e)
       (auto simp: ca_ops no_close_answers closings_on_def closings_of_others send_built_out
         reject_load_def find_Some_iff o_def split: option.split awaiter.split)
qed

interpretation close_numbers: invariant_machine "ca_step cd" "\<lambda>s e. True" closings_numbered for cd
  by unfold_locales (rule closings_numbered_step)

lemma allowed_True [simp]: "allowed f (\<lambda>s e. True) s es"
  by (rule allowed_all) simp

lemma closes_counted:
  "closings_numbered s \<Longrightarrow>
     length (filter close_answer (snd (exec (ca_step cd) s es)))
       + length (ca_closings (fst (exec (ca_step cd) s es)))
     = length (filter close_call es) + length (ca_closings s)"
proof (induction es arbitrary: s)
  case (Cons e es)
  show ?case
    using Cons.IH [OF closings_numbered_step [OF Cons.prems, of cd e]]
      closes_counted_step [OF Cons.prems, of cd e]
    by (simp add: Let_def split: if_splits)
qed simp

text \<open>
  C26. Every call of \<^verbatim>\<open>close\<close> returns exactly once. In every run of an agent, the number of
  returned calls and of calls still pending is the number of calls made, whatever mixture of
  disconnections, errors and timeouts settles them; and each pending call is ended by its own
  timer, which makes it return with \<^verbatim>\<open>isOK = false\<close> and drops the socket.
\<close>

theorem close_returns_once:
  assumes "ca_closings s = []"
  shows "length (filter close_answer (snd (exec (ca_step cd) s es)))
           + length (ca_closings (fst (exec (ca_step cd) s es))) = length (filter close_call es)
       \<and> (\<forall>c \<in> set (ca_closings (fst (exec (ca_step cd) s es))).
            snd (ca_step cd (fst (exec (ca_step cd) s es)) (CloseTimeout (cl_no c)))
              = [CloseResolved (cl_closer c) False]
            \<and> ca_ws (fst (ca_step cd (fst (exec (ca_step cd) s es)) (CloseTimeout (cl_no c)))) = None)"
proof
  have n: "closings_numbered s" using assms by (simp add: closings_numbered_def)
  from closes_counted [OF n] show "length (filter close_answer (snd (exec (ca_step cd) s es)))
      + length (ca_closings (fst (exec (ca_step cd) s es))) = length (filter close_call es)"
    by (simp add: assms)
  let ?t = "fst (exec (ca_step cd) s es)"
  have d: "distinct (map cl_no (ca_closings ?t))"
    using close_numbers.exec_inv [OF n] by (simp add: closings_numbered_def)
  show "\<forall>c \<in> set (ca_closings ?t).
      snd (ca_step cd ?t (CloseTimeout (cl_no c))) = [CloseResolved (cl_closer c) False]
      \<and> ca_ws (fst (ca_step cd ?t (CloseTimeout (cl_no c)))) = None"
    using d by (simp add: ca_step_def close_timeout_def finish_close_def find_key)
qed

theorem close_returns_once_witness:
  "length (filter close_answer (snd (exec (ca_step sample_codec) sample_agent
      [CallInit, SockOpen 0, CallClose ForRetry, SockClose 0, CallClose ForStop])))
   + length (ca_closings (fst (exec (ca_step sample_codec) sample_agent
      [CallInit, SockOpen 0, CallClose ForRetry, SockClose 0, CallClose ForStop]))) = 2"
  by (subst close_returns_once [THEN conjunct1]) simp_all

section \<open>Staying closed\<close>

fun new_socket :: "ca_out \<Rightarrow> bool" where
  "new_socket (NewWebSocket k a) = True"
| "new_socket _ = False"

text \<open>An agent that \<^verbatim>\<open>close\<close> has left with no timer and no wish to reconnect.\<close>

definition dormant :: "ControlAgent \<Rightarrow> bool" where
  "dormant s \<longleftrightarrow> ca_pingTimeout s = None \<and> \<not> ca_shouldReconnect s"

definition no_wake_up :: "ca_event \<Rightarrow> bool" where
  "no_wake_up e \<longleftrightarrow> e \<noteq> CallInit \<and> (\<forall>k. e \<noteq> SockPing k)"

lemma on_message_no_socket [simp]:
  "x \<in> set (snd (on_message cd k text s)) \<Longrightarrow> \<not> new_socket x"
  by (fastforce simp: on_message_def Let_def split: if_splits
      dest!: ca_handle_out_kinds call_receivers_out_kinds receiver_message_out_kinds)

lemma loadCerts_no_socket [simp]: "x \<in> set (snd (loadCerts cd a s)) \<Longrightarrow> \<not> new_socket x"
  by (auto simp: loadCerts_def send_built_out split: if_splits dest!: receive_out reject_load_kinds)

lemma ws_close_no_socket [simp]: "x \<in> set (snd (ws_close s)) \<Longrightarrow> \<not> new_socket x"
  by (auto simp: ws_close_def split: option.splits)

lemma do_all_finish_close_out [simp]:
  "x \<in> set (snd (do_all (finish_close b) cs s)) \<Longrightarrow> \<not> new_socket x"
  by (induction cs arbitrary: s) (auto simp: finish_close_def)

interpretation dormancy:
  promising_machine "ca_step cd" "\<lambda>s e. no_wake_up e" dormant "\<lambda>x. \<not> new_socket x" for cd
proof (unfold_locales, goal_cases)
  case (1 s e)
  then show ?case
    by (cases e) (auto simp: dormant_def no_wake_up_def ca_ops split: option.split awaiter.split)
next
  case (2 s e x)
  then show ?case
    by (cases e)
       (auto simp: dormant_def no_wake_up_def ca_ops send_built_out reject_load_def
         split: option.splits awaiter.splits if_splits)
qed

lemma close_dormant: "dormant (fst (ca_step cd s (CallClose c)))"
  "x \<in> set (snd (ca_step cd s (CallClose c))) \<Longrightarrow> \<not> new_socket x"
  by (auto simp: dormant_def ca_ops)

lemma ping_watched: "watched (fst (ca_step cd s (SockPing k)))"
  by (simp add: watched_def ca_ops)

lemma ping_timeout_closed:
  assumes "ca_pingTimeout s = Some d" and "\<not> ws_open s"
  shows "snd (ca_step cd s PingTimeout) = [NewWebSocket (length (ca_socks s)) (ws_address s)]"
proof -
  let ?s = "schedulePing (s\<lparr> ca_pingTimeout := None \<rparr>)"
  have o: "ws_open ?s = ws_open s" by (intro ws_open_cong) (simp_all add: schedulePing_def)
  have a: "ws_address ?s = ws_address s" by (simp add: ws_address_def schedulePing_def)
  show ?thesis
    by (simp add: ca_step_def ping_timeout_def open_ws_def assms o a Let_def)
       (simp add: schedulePing_def)
qed

lemma watched_exec:
  assumes "watched s" and "\<forall>c. CallClose c \<notin> set es"
  shows "watched (fst (exec (ca_step cd) s es))"
  using assms(2) by (intro watchdog.exec_inv [OF assms(1)] allowed_all) auto

lemma pinged_watched:
  assumes "SockPing k \<in> set es" and "\<forall>c. CallClose c \<notin> set es"
  shows "watched (fst (exec (ca_step cd) s es))"
proof -
  obtain xs ys where "es = xs @ SockPing k # ys" using assms(1) by (meson split_list)
  then show ?thesis
    using assms(2) watched_exec [OF ping_watched [where s = "fst (exec (ca_step cd) s xs)" and cd = cd and k = k], of ys cd]
    by (simp add: exec_append Let_def)
qed

lemma close_then_quiet:
  assumes "CallInit \<notin> set es" and "\<forall>k. SockPing k \<notin> set es"
  shows "dormant (fst (exec (ca_step cd) s (CallClose c # es)))"
    and "filter new_socket (snd (exec (ca_step cd) s (CallClose c # es))) = []"
proof -
  let ?t = "fst (ca_step cd s (CallClose c))"
  have ok: "allowed (ca_step cd) (\<lambda>s. no_wake_up) ?t es"
    using assms by (intro allowed_all) (auto simp: no_wake_up_def)
  show "dormant (fst (exec (ca_step cd) s (CallClose c # es)))"
    using dormancy.exec_inv [OF close_dormant(1) ok] by (simp add: Let_def)
  show "filter new_socket (snd (exec (ca_step cd) s (CallClose c # es))) = []"
    using dormancy.exec_out [OF close_dormant(1) ok] close_dormant(2)
    by (auto simp: Let_def filter_empty_conv)
qed

text \<open>
  C35. A closed agent stays closed exactly as long as it sees no websocket ping. After \<^verbatim>\<open>close\<close>, in
  every run without another \<^verbatim>\<open>init\<close> or \<^verbatim>\<open>close\<close>: with no ping, the timer stays off and no socket
  is created again; with one ping, which the peer may send while the socket is still closing and
  whose listener \<^verbatim>\<open>close\<close> does not remove, the timer is armed again, and when it fires on a
  socket that is not open, the agent that was shut down connects anew.
\<close>

theorem closed_unless_pinged:
  assumes "CallInit \<notin> set es" and "\<forall>d. CallClose d \<notin> set es"
    and "t = fst (exec (ca_step cd) s (CallClose c # es))"
  shows "if \<exists>k. SockPing k \<in> set es
         then watched t
            \<and> (\<not> ws_open t \<longrightarrow> snd (ca_step cd t PingTimeout) =
                  [NewWebSocket (length (ca_socks t)) (ws_address t)])
         else ca_pingTimeout t = None
            \<and> filter new_socket (snd (exec (ca_step cd) s (CallClose c # es))) = []"
proof (cases "\<exists>k. SockPing k \<in> set es")
  case True
  then obtain k where "SockPing k \<in> set es" ..
  then have w: "watched t" using assms(2,3) pinged_watched by (simp add: Let_def)
  moreover from w have "snd (ca_step cd t PingTimeout) = [NewWebSocket (length (ca_socks t)) (ws_address t)]"
    if "\<not> ws_open t" using that by (simp add: watched_def ping_timeout_closed)
  ultimately show ?thesis using True by auto
next
  case False
  then have "\<forall>k. SockPing k \<notin> set es" by simp
  from close_then_quiet [OF assms(1) this] False show ?thesis
    by (simp only: assms(3) dormant_def if_False HOL.simp_thms)
qed

definition open_sample :: ControlAgent where
  "open_sample = fst (exec (ca_step sample_codec) sample_agent [CallInit, SockOpen 0])"

theorem closed_unless_pinged_witness:
  "snd (ca_step sample_codec
      (fst (exec (ca_step sample_codec) open_sample [CallClose ForStop, SockPing 0, SockClose 0]))
      PingTimeout)
   = [NewWebSocket 1 (ws_address sample_agent)]"
  using closed_unless_pinged [of "[SockPing 0, SockClose 0]" _ sample_codec open_sample ForStop, OF _ _ refl]
  by (simp add: open_sample_def ca_ops sock_state_def ws_open_def ws_close_def closings_on_def
      finish_close_def ws_address_def sample_agent_def control_agent_def)

section \<open>Loading the certificates\<close>

lemma receivers_on_frame [simp]:
  "receivers_on k (fst (ca_handle cd text s)) = receivers_on k s"
  by (simp add: receivers_on_def)


lemma crash_only_on_null:
  "list_ex is_uncaught (snd (ca_handle cd text s)) \<longleftrightarrow> deserialise text = Some JNull"
proof (cases "deserialise text")
  case None
  then show ?thesis by (simp add: ca_handle_def send_error_def send_built_out is_uncaught_def)
next
  case (Some msg)
  then show ?thesis
    by (cases msg)
       (simp_all add: handle_defs send_error_def send_built_out is_uncaught_def on_cert_def
         getp_def)
qed

lemma receiver_crash:
  "list_ex is_uncaught (snd (receiver_message cd text r s)) \<longleftrightarrow> deserialise text = None"
  by (auto simp: receiver_message_def loadCerts_resume_def resolve_load_def reject_load_def
      on_cert_def is_uncaught_def Let_def split: option.split awaiter.split)

lemma receivers_crash:
  "list_ex is_uncaught (snd (call_receivers cd text rs s)) \<longleftrightarrow>
     deserialise text = None \<and> rs \<noteq> []"
  by (induction rs arbitrary: s) (auto simp: receiver_crash Let_def)

text \<open>
  C32. Exactly two kinds of message end the process with an exception nobody catches: the text
  \<^verbatim>\<open>null\<close>, on which \<^verbatim>\<open>_handle\<close> reads a property, and any text that is not JSON while a
  \<^verbatim>\<open>receive\<close> waits on that socket, whose listener parses without a handler. Every other message,
  in every state of the agent, is handled.
\<close>

theorem message_crash_iff:
  "list_ex is_uncaught (snd (ca_step cd s (SockMessage k text))) \<longleftrightarrow>
     deserialise text = Some JNull
     \<or> (deserialise text = None \<and> receivers_on k s \<noteq> [])"
  by (auto simp: ca_step_def on_message_def Let_def crash_only_on_null receivers_crash)



end
