(* ===== verification/Peer_Server.thy ===== *)
theory Peer_Server
  imports Auth_Client Http_Server Agent_Runs
begin

text \<open>
  \<^verbatim>\<open>src/domain/PeerServer.ts\<close>: the component that starts and stops one peer and wires its
  token client, control agent, HTTP server and ping service together, and
  \<^verbatim>\<open>createPeerServer\<close> of \<^verbatim>\<open>src/createProxyAdapter.ts\<close>. The state holds the state of the four
  components; a step is one turn of the event loop, in which the continuations of the
  promises that it settles run too.
\<close>

section \<open>State\<close>

text \<open>
  Where a run of \<^verbatim>\<open>startPm4mlPart\<close> waits: for the token, for \<^verbatim>\<open>init\<close>, for \<^verbatim>\<open>loadCerts\<close>, or, after
  a failure, for the control agent to close (with the kind of the failure).
\<close>

datatype pm4ml_wait = AwaitToken | AwaitInit | AwaitCerts | AwaitClose bool

text \<open>
  The one call of \<^verbatim>\<open>start\<close>: not made, in its PM4ML part, listening (with the result of the
  PM4ML part), over.
\<close>

datatype start_phase = NotStarted | InPm4ml | InHttpStart bool | StartOver

text \<open>
  \<open>retry_armed\<close> and \<open>jws_armed\<close> are the timers and intervals pending in Node (number and
  delay), \<open>retryStartTimer\<close> and \<open>peerJwsRefreshLoopTimer\<close> the fields that refer to the last one.
  \<open>stops_closing\<close> and \<open>stops_http\<close> count the calls of \<^verbatim>\<open>stop\<close> that await the control agent and
  the HTTP server; \<open>jws_listener\<close> is the adapter's listener of \<^verbatim>\<open>peerJWS\<close>.
\<close>

record PeerServer =
  isReady :: bool
  retryStartTimer :: "nat option"
  retry_armed :: "(nat \<times> int) list"
  peerJwsRefreshLoopTimer :: "nat option"
  jws_armed :: "(nat \<times> int) list"
  peer_next :: nat
  jws_listener :: bool
  ps_start :: start_phase
  ps_run :: "pm4ml_wait option"
  stops_closing :: nat
  stops_http :: nat
  ps_auth :: AuthClient
  ps_agent :: ControlAgent
  ps_http :: HttpServer
  ps_ping :: PingService

definition createPeerServer :: "PeerServerConfig \<Rightarrow> PeerServer" where
  "createPeerServer cfg =
     \<lparr> isReady = False, retryStartTimer = None, retry_armed = [], peerJwsRefreshLoopTimer = None,
       jws_armed = [], peer_next = 0, jws_listener = True, ps_start = NotStarted, ps_run = None,
       stops_closing = 0, stops_http = 0, ps_auth = auth_init,
       ps_agent = createControlAgent (cfg_peer cfg) (controlAgentConfig cfg),
       ps_http = http_init (cfg_peerEndpoint cfg), ps_ping = ping_init \<rparr>"

text \<open>The dependencies of the ping service, as \<^verbatim>\<open>createPeerServer\<close> passes them.\<close>

definition peer_ping_deps :: "cleaner \<Rightarrow> PeerServerConfig \<Rightarrow> string \<Rightarrow> PingDeps" where
  "peer_ping_deps cleanup cfg proxyId =
     \<lparr> pd_proxyId = proxyId, pd_cleanup = cleanup,
       pd_createMlPingRequests = createMlPingRequestsFactory
         \<lparr> ml_proxyId = proxyId, ml_pingCallbackEndpoint = cfg_pingCallbackEndpoint cfg,
           ml_mTlsEnabled = True \<rparr> \<rparr>"

datatype peer_out =
    AuthOut auth_out
  | AgentOut ca_out
  | HttpOut http_out
  | HttpStart
  | HttpStopCall
  | EmitPingAuthDetails ServerStateEvent
  | EmitPeerJWS "js option"
  | ArmRetry int
  | ArmJwsLoop int
  | StartResolved bool
  | StartRejected thrown
  | StopResolved bool
  | StopRejected thrown
  | Propagated bool

text \<open>What a peer is made with: the global settings, its own, and the text format.\<close>

record peer_env =
  env_app :: AppConfig
  env_cfg :: PeerServerConfig
  env_codec :: codec

type_synonym peer_result = "PeerServer \<times> peer_out list"

section \<open>Requests and events of the components\<close>

definition handleProxyRequest ::
  "cleaner \<Rightarrow> axios \<Rightarrow> peer_env \<Rightarrow> IncomingRequestDetails \<Rightarrow> ServerState
     \<Rightarrow> HttpRequestOptions list \<times> ProxyHandlerResponse" where
  "handleProxyRequest cleanup axios env = sendProxyRequest cleanup (env_app env) axios"

definition emitPingAuthDetails :: "ServerStateEvent \<Rightarrow> peer_out list" where
  "emitPingAuthDetails d = [EmitPingAuthDetails d]"

definition emitServerStateEvent :: "ServerStateEvent \<Rightarrow> PeerServer \<Rightarrow> peer_result" where
  "emitServerStateEvent e s =
     (let q = http_emit (Some e) (ps_http s)
      in (s\<lparr> ps_http := fst q \<rparr>, map HttpOut (snd q) @ emitPingAuthDetails e))"

text \<open>\<^verbatim>\<open>emit\<close> of \<^verbatim>\<open>peerJWS\<close> reaches the adapter until \<^verbatim>\<open>stop\<close> removes its listener.\<close>

definition emitPeerJWSEvent :: "js option \<Rightarrow> PeerServer \<Rightarrow> peer_out list" where
  "emitPeerJWSEvent d s = (if jws_listener s then [EmitPeerJWS d] else [])"

definition propagatePeerJWSEvent :: "peer_env \<Rightarrow> js option \<Rightarrow> PeerServer \<Rightarrow> peer_result" where
  "propagatePeerJWSEvent env d s =
     (if \<not> isReady s then (s, [Propagated False])
      else (let q = sendPeerJWS (env_codec env) d (ps_agent s)
            in (s\<lparr> ps_agent := fst q \<rparr>, map AgentOut (snd q) @ [Propagated True])))"

definition updatePingAuthDetails :: "ServerStateEvent \<Rightarrow> PeerServer \<Rightarrow> PeerServer" where
  "updatePingAuthDetails d s = s\<lparr> ps_ping := updateAuthDetails d (ps_ping s) \<rparr>"

text \<open>A call or an event of the control agent; its outputs go to the peer server first.\<close>

definition agent_turn :: "peer_env \<Rightarrow> ca_event \<Rightarrow> PeerServer \<Rightarrow> PeerServer \<times> ca_out list" where
  "agent_turn env e s =
     (let q = ca_step (env_codec env) (ps_agent s) e in (s\<lparr> ps_agent := fst q \<rparr>, snd q))"

section \<open>The refresh loop of the peers' JWS certificates\<close>

definition startPeerJwsRefreshLoop :: "peer_env \<Rightarrow> PeerServer \<Rightarrow> peer_result" where
  "startPeerJwsRefreshLoop env s =
     (let n = peer_next s; d = node_delay (checkPeerJwsInterval (env_app env)) in
      (s\<lparr> peerJwsRefreshLoopTimer := Some n, jws_armed := jws_armed s @ [(n, d)],
          peer_next := Suc n \<rparr>, [ArmJwsLoop d]))"

definition stopPeerJwsRefreshLoop :: "PeerServer \<Rightarrow> PeerServer" where
  "stopPeerJwsRefreshLoop s =
     s\<lparr> jws_armed := filter (\<lambda>p. Some (fst p) \<noteq> peerJwsRefreshLoopTimer s) (jws_armed s) \<rparr>"

section \<open>Stopping the PM4ML part\<close>

text \<open>\<^verbatim>\<open>stopPm4mlPart\<close> up to its \<^verbatim>\<open>await\<close>; what follows it clears \<open>isReady\<close>.\<close>

definition stopPm4mlPart :: "peer_env \<Rightarrow> closer \<Rightarrow> PeerServer \<Rightarrow> peer_result" where
  "stopPm4mlPart env c s =
     (let s1 = stopPeerJwsRefreshLoop (s\<lparr> ps_auth := stopUpdates (ps_auth s) \<rparr>);
          q = agent_turn env (CallClose c) s1
      in (fst q, map AgentOut (snd q)))"

section \<open>Starting\<close>

text \<open>The end of the PM4ML part: the call of \<^verbatim>\<open>start\<close>, if it waits for it, goes on to the server.\<close>

definition pm4ml_returns :: "bool \<Rightarrow> PeerServer \<Rightarrow> peer_result" where
  "pm4ml_returns ok s =
     (let s1 = s\<lparr> ps_run := None \<rparr> in
      if ps_start s = InPm4ml then (s1\<lparr> ps_start := InHttpStart ok \<rparr>, [HttpStart]) else (s1, []))"

definition retryStartPm4ml :: "peer_env \<Rightarrow> bool \<Rightarrow> PeerServer \<Rightarrow> peer_result" where
  "retryStartPm4ml env isDnsError s =
     stopPm4mlPart env ForRetry (s\<lparr> ps_run := Some (AwaitClose isDnsError) \<rparr>)"

text \<open>The \<^verbatim>\<open>catch\<close> of \<^verbatim>\<open>startPm4mlPart\<close>.\<close>

definition start_failed :: "peer_env \<Rightarrow> thrown \<Rightarrow> PeerServer \<Rightarrow> peer_result" where
  "start_failed env e s = retryStartPm4ml env (isDnsRelatedError e) s"

definition retry_delay :: "peer_env \<Rightarrow> bool \<Rightarrow> int" where
  "retry_delay env isDnsError =
     node_delay (1000 * (if isDnsError then retryDnsErrorTimeoutSec (env_app env)
                         else retryStartTimeoutSec (env_app env)))"

text \<open>The rest of \<^verbatim>\<open>retryStartPm4ml\<close>, once the control agent is closed.\<close>

definition retry_closed :: "peer_env \<Rightarrow> bool \<Rightarrow> PeerServer \<Rightarrow> peer_result" where
  "retry_closed env isDnsError s =
     (let n = peer_next s; d = retry_delay env isDnsError in
      then_do (s\<lparr> isReady := False, retryStartTimer := Some n,
                  retry_armed := retry_armed s @ [(n, d)], peer_next := Suc n \<rparr>, [ArmRetry d])
        (pm4ml_returns False))"

text \<open>The last lines of \<^verbatim>\<open>startPm4mlPart\<close>, after \<^verbatim>\<open>loadCerts\<close>.\<close>

definition certs_loaded :: "peer_env \<Rightarrow> PeerServer \<Rightarrow> peer_result" where
  "certs_loaded env s =
     then_do (startPeerJwsRefreshLoop env s) (\<lambda>t. pm4ml_returns True (t\<lparr> isReady := True \<rparr>))"

definition run_pm4ml :: "peer_env \<Rightarrow> PeerServer \<Rightarrow> peer_result" where
  "run_pm4ml env s =
     (if pm4mlEnabled (env_app env) then
        (let q = auth_step (authConfig (env_cfg env)) (ps_auth s) AuthStart
         in (s\<lparr> ps_auth := fst q, ps_run := Some AwaitToken \<rparr>, map AuthOut (snd q)))
      else pm4ml_returns True (s\<lparr> isReady := True \<rparr>))"

definition peer_start :: "peer_env \<Rightarrow> PeerServer \<Rightarrow> peer_result" where
  "peer_start env s = run_pm4ml env (s\<lparr> ps_start := InPm4ml \<rparr>)"

section \<open>What the components report\<close>

definition stop_closed :: "PeerServer \<Rightarrow> peer_result" where
  "stop_closed s =
     (s\<lparr> isReady := False, stops_closing := stops_closing s - 1, stops_http := Suc (stops_http s) \<rparr>,
      [HttpStopCall])"

text \<open>
  An output of the control agent: a callback, the settling of a promise that a run or a stop
  awaits, or an effect of its own.
\<close>

definition agent_effect :: "peer_env \<Rightarrow> ca_out \<Rightarrow> PeerServer \<Rightarrow> peer_result" where
  "agent_effect env x s =
     (case x of
        OnCert c \<Rightarrow> emitServerStateEvent (certs_event c) s
      | OnPeerJWS d \<Rightarrow> (s, emitPeerJWSEvent d s)
      | InitRejected e \<Rightarrow> if ps_run s = Some AwaitInit then start_failed env e s else (s, [])
      | LoadResolved c \<Rightarrow> if ps_run s = Some AwaitCerts then certs_loaded env s else (s, [])
      | LoadRejected e \<Rightarrow> if ps_run s = Some AwaitCerts then start_failed env e s else (s, [])
      | CloseResolved c ok \<Rightarrow>
          (case c of
             ForRetry \<Rightarrow>
               (case ps_run s of
                  Some (AwaitClose dns) \<Rightarrow> retry_closed env dns s
                | _ \<Rightarrow> (s, []))
           | ForStop \<Rightarrow> if 0 < stops_closing s then stop_closed s else (s, []))
      | _ \<Rightarrow> (s, [AgentOut x]))"

text \<open>A call of the control agent with what its synchronous outputs lead to.\<close>

definition call_agent :: "peer_env \<Rightarrow> ca_event \<Rightarrow> PeerServer \<Rightarrow> peer_result" where
  "call_agent env e s =
     (let q = agent_turn env e s in do_all (agent_effect env) (snd q) (fst q))"

text \<open>\<^verbatim>\<open>initControlAgent\<close>: its two awaits.\<close>

definition initControlAgent :: "peer_env \<Rightarrow> PeerServer \<Rightarrow> peer_result" where
  "initControlAgent env s = call_agent env CallInit (s\<lparr> ps_run := Some AwaitInit \<rparr>)"

definition init_resolved :: "peer_env \<Rightarrow> PeerServer \<Rightarrow> peer_result" where
  "init_resolved env s = call_agent env CallLoadCerts (s\<lparr> ps_run := Some AwaitCerts \<rparr>)"

definition agent_report :: "peer_env \<Rightarrow> ca_out \<Rightarrow> PeerServer \<Rightarrow> peer_result" where
  "agent_report env x s =
     (if x = InitResolved
      then (if ps_run s = Some AwaitInit then init_resolved env s else (s, []))
      else agent_effect env x s)"

text \<open>\<^verbatim>\<open>getAccessToken\<close>: the callback, and the result that \<^verbatim>\<open>startPm4mlPart\<close> awaits.\<close>

definition auth_report :: "peer_env \<Rightarrow> auth_out \<Rightarrow> PeerServer \<Rightarrow> peer_result" where
  "auth_report env x s =
     (case x of
        TokenRequest r \<Rightarrow> (s, [AuthOut x])
      | EmitNewToken t \<Rightarrow> emitServerStateEvent (token_event t) s
      | UpdatesResult err \<Rightarrow>
          if ps_run s = Some AwaitToken
          then (case err of None \<Rightarrow> initControlAgent env s | Some e \<Rightarrow> start_failed env e s)
          else (s, []))"

section \<open>The machine\<close>

definition peer_stop :: "peer_env \<Rightarrow> PeerServer \<Rightarrow> peer_result" where
  "peer_stop env s =
     (let s1 = s\<lparr> retry_armed := (case retryStartTimer s of
                      None \<Rightarrow> retry_armed s
                    | Some n \<Rightarrow> filter (\<lambda>p. fst p \<noteq> n) (retry_armed s)),
                  jws_listener := False \<rparr>
      in if pm4mlEnabled (env_app env)
         then stopPm4mlPart env ForStop (s1\<lparr> stops_closing := Suc (stops_closing s1) \<rparr>)
         else (s1\<lparr> isReady := False, stops_http := Suc (stops_http s1) \<rparr>, [HttpStopCall]))"

text \<open>
  \<^verbatim>\<open>server.stop()\<close> of Hapi settles. It rejects when the server is just starting or already stopping;
  then the lines after it do not run, here and in \<^verbatim>\<open>stop\<close> of the HTTP server.
\<close>

definition http_stopped :: "thrown option \<Rightarrow> PeerServer \<Rightarrow> peer_result" where
  "http_stopped err s =
     (if 0 < stops_http s
      then (case err of
              None \<Rightarrow>
                (s\<lparr> ps_http := http_stop (ps_http s), stops_http := stops_http s - 1, isReady := False \<rparr>,
                 [StopResolved True])
            | Some e \<Rightarrow> (s\<lparr> stops_http := stops_http s - 1 \<rparr>, [StopRejected e]))
      else (s, []))"

definition http_started :: "thrown option \<Rightarrow> PeerServer \<Rightarrow> peer_result" where
  "http_started err s =
     (case ps_start s of
        InHttpStart ok \<Rightarrow>
          (s\<lparr> ps_start := StartOver \<rparr>,
           [case err of None \<Rightarrow> StartResolved ok | Some e \<Rightarrow> StartRejected e])
      | _ \<Rightarrow> (s, []))"

text \<open>
  The events: the two calls of the adapter and its two listeners, the response and the timer
  of the token client, the events of the control agent (which makes no call of its own), the
  timers of the peer and of its HTTP server, and the completion of the server's start and stop,
  each with an error or without.
  \<^verbatim>\<open>start\<close> is called once, so a second call is no event of a run.
\<close>

datatype peer_event =
    PeerStart
  | PeerStop
  | PeerPropagate "js option"
  | PeerPingDetails ServerStateEvent
  | PeerTokenResponse nat oidc_http
  | PeerTokenTimer nat
  | PeerAgent ca_event
  | PeerRetryTimer nat
  | PeerJwsInterval nat
  | PeerHttpTimer nat
  | PeerHttpStarted "thrown option"
  | PeerHttpStopped "thrown option"

fun agent_call :: "ca_event \<Rightarrow> bool" where
  "agent_call CallInit = True"
| "agent_call CallLoadCerts = True"
| "agent_call (CallClose c) = True"
| "agent_call CallTriggerFetch = True"
| "agent_call (CallSendPeerJWS d) = True"
| "agent_call _ = False"

definition auth_turn :: "peer_env \<Rightarrow> auth_event \<Rightarrow> PeerServer \<Rightarrow> peer_result" where
  "auth_turn env e s =
     (let q = auth_step (authConfig (env_cfg env)) (ps_auth s) e
      in do_all (auth_report env) (snd q) (s\<lparr> ps_auth := fst q \<rparr>))"

definition agent_event :: "peer_env \<Rightarrow> ca_event \<Rightarrow> PeerServer \<Rightarrow> peer_result" where
  "agent_event env e s =
     (if agent_call e then (s, [])
      else (let q = agent_turn env e s in do_all (agent_report env) (snd q) (fst q)))"

definition peer_step :: "peer_env \<Rightarrow> PeerServer \<Rightarrow> peer_event \<Rightarrow> peer_result" where
  "peer_step env s e =
     (case e of
        PeerStart \<Rightarrow> if ps_start s = NotStarted then peer_start env s else (s, [])
      | PeerStop \<Rightarrow> peer_stop env s
      | PeerPropagate d \<Rightarrow> propagatePeerJWSEvent env d s
      | PeerPingDetails d \<Rightarrow> (updatePingAuthDetails d s, [])
      | PeerTokenResponse i r \<Rightarrow> auth_turn env (AuthResponse i r) s
      | PeerTokenTimer t \<Rightarrow> auth_turn env (AuthFire t) s
      | PeerAgent a \<Rightarrow> agent_event env a s
      | PeerRetryTimer n \<Rightarrow>
          if n \<in> fst ` set (retry_armed s)
          then run_pm4ml env (s\<lparr> retry_armed := filter (\<lambda>p. fst p \<noteq> n) (retry_armed s) \<rparr>)
          else (s, [])
      | PeerJwsInterval n \<Rightarrow>
          if n \<in> fst ` set (jws_armed s)
          then (let q = agent_turn env CallTriggerFetch s in (fst q, map AgentOut (snd q)))
          else (s, [])
      | PeerHttpTimer t \<Rightarrow>
          (let q = shutdown_timer t (ps_http s) in (s\<lparr> ps_http := fst q \<rparr>, map HttpOut (snd q)))
      | PeerHttpStarted err \<Rightarrow> http_started err s
      | PeerHttpStopped err \<Rightarrow> http_stopped err s)"

end
