(* ===== verification/Peer_Runs.thy ===== *)
theory Peer_Runs
  imports Peer_Server
begin

text \<open>
  What the runs of a peer server show: one attempt to start at a time, what a start leads to
  when it succeeds and when it fails, when a peer becomes ready, and what \<^verbatim>\<open>stop\<close> ends.
\<close>

lemmas peer_ops =
  emitServerStateEvent_def agent_turn_def startPeerJwsRefreshLoop_def stopPeerJwsRefreshLoop_def
  stopPm4mlPart_def pm4ml_returns_def retryStartPm4ml_def start_failed_def retry_closed_def
  certs_loaded_def run_pm4ml_def peer_start_def stop_closed_def propagatePeerJWSEvent_def
  updatePingAuthDetails_def peer_stop_def http_stopped_def http_started_def Let_def

lemma do_all_inv:
  assumes "P s" and "\<And>x t. x \<in> set xs \<Longrightarrow> P t \<Longrightarrow> P (fst (f x t))"
  shows "P (fst (do_all f xs s))"
  using assms by (induction xs arbitrary: s) simp_all

section \<open>One attempt to start at a time\<close>

text \<open>
  A run of the start, a pending retry and the refresh loop exclude each other, none is
  doubled, and the fields refer to the timers that are pending.
\<close>

definition attempt_inv :: "PeerServer \<Rightarrow> bool" where
  "attempt_inv s \<longleftrightarrow>
     (ps_run s \<noteq> None \<longrightarrow> retry_armed s = [] \<and> jws_armed s = [])
     \<and> (retry_armed s \<noteq> [] \<longrightarrow> jws_armed s = [] \<and> (\<exists>n d. retry_armed s = [(n, d)] \<and> retryStartTimer s = Some n))
     \<and> (jws_armed s \<noteq> [] \<longrightarrow> (\<exists>n d. jws_armed s = [(n, d)] \<and> peerJwsRefreshLoopTimer s = Some n))
     \<and> (ps_start s = InPm4ml \<longrightarrow> ps_run s \<noteq> None)
     \<and> (ps_start s = NotStarted \<longrightarrow> ps_run s = None \<and> retry_armed s = [] \<and> jws_armed s = [])"

lemma attempt_inv_create: "attempt_inv (createPeerServer cfg)"
  by (simp add: attempt_inv_def createPeerServer_def)

lemma attempt_inv_components [simp]:
  "attempt_inv (s\<lparr> ps_http := h \<rparr>) = attempt_inv s"
  "attempt_inv (s\<lparr> ps_auth := a \<rparr>) = attempt_inv s"
  "attempt_inv (s\<lparr> ps_agent := c \<rparr>) = attempt_inv s"
  "attempt_inv (s\<lparr> ps_ping := p \<rparr>) = attempt_inv s"
  "attempt_inv (s\<lparr> isReady := b \<rparr>) = attempt_inv s"
  "attempt_inv (s\<lparr> stops_closing := m \<rparr>) = attempt_inv s"
  "attempt_inv (s\<lparr> stops_http := n \<rparr>) = attempt_inv s"
  by (simp_all add: attempt_inv_def)

lemma emit_attempt: "attempt_inv s \<Longrightarrow> attempt_inv (fst (emitServerStateEvent e s))"
  by (simp add: emitServerStateEvent_def Let_def)

lemma start_failed_attempt:
  "attempt_inv s \<Longrightarrow> ps_run s \<noteq> None \<Longrightarrow> attempt_inv (fst (start_failed env e s))"
  by (auto simp: attempt_inv_def peer_ops)

lemma certs_loaded_attempt:
  "attempt_inv s \<Longrightarrow> ps_run s \<noteq> None \<Longrightarrow> attempt_inv (fst (certs_loaded env s))"
  by (auto simp: attempt_inv_def peer_ops)

lemma retry_closed_attempt:
  "attempt_inv s \<Longrightarrow> ps_run s \<noteq> None \<Longrightarrow> attempt_inv (fst (retry_closed env dns s))"
  by (auto simp: attempt_inv_def peer_ops)

lemma agent_effect_attempt: "attempt_inv s \<Longrightarrow> attempt_inv (fst (agent_effect env x s))"
  by (auto simp: agent_effect_def emit_attempt start_failed_attempt certs_loaded_attempt
      retry_closed_attempt stop_closed_def
      split: ca_out.split closer.split option.split pm4ml_wait.split)

lemma call_agent_attempt: "attempt_inv s \<Longrightarrow> attempt_inv (fst (call_agent env e s))"
  by (auto simp: call_agent_def agent_turn_def Let_def intro: do_all_inv agent_effect_attempt)

lemma run_wait_attempt: "attempt_inv s \<Longrightarrow> ps_run s \<noteq> None \<Longrightarrow> attempt_inv (s\<lparr> ps_run := Some w \<rparr>)"
  by (auto simp: attempt_inv_def)

lemma agent_report_attempt: "attempt_inv s \<Longrightarrow> attempt_inv (fst (agent_report env x s))"
  by (auto simp: agent_report_def init_resolved_def
      intro!: agent_effect_attempt call_agent_attempt run_wait_attempt)

lemma auth_report_attempt: "attempt_inv s \<Longrightarrow> attempt_inv (fst (auth_report env x s))"
  by (auto simp: auth_report_def initControlAgent_def emit_attempt start_failed_attempt
      split: auth_out.split option.split intro!: call_agent_attempt run_wait_attempt)

lemma auth_turn_attempt: "attempt_inv s \<Longrightarrow> attempt_inv (fst (auth_turn env e s))"
  by (auto simp: auth_turn_def Let_def intro: do_all_inv auth_report_attempt)

lemma agent_event_attempt: "attempt_inv s \<Longrightarrow> attempt_inv (fst (agent_event env e s))"
  by (auto simp: agent_event_def agent_turn_def Let_def intro: do_all_inv agent_report_attempt)

lemma peer_start_attempt:
  "attempt_inv s \<Longrightarrow> ps_start s = NotStarted \<Longrightarrow> attempt_inv (fst (peer_start env s))"
  by (auto simp: attempt_inv_def peer_ops)

lemma retry_fires_attempt:
  assumes "attempt_inv s" and "n \<in> fst ` set (retry_armed s)"
  shows "attempt_inv (fst (run_pm4ml env (s\<lparr> retry_armed := filter (\<lambda>p. fst p \<noteq> n) (retry_armed s) \<rparr>)))"
  using assms by (auto simp: attempt_inv_def peer_ops)

lemma peer_stop_attempt: "attempt_inv s \<Longrightarrow> attempt_inv (fst (peer_stop env s))"
  by (auto simp: attempt_inv_def peer_ops split: option.split)

lemma http_started_attempt: "attempt_inv s \<Longrightarrow> attempt_inv (fst (http_started err s))"
  by (auto simp: attempt_inv_def http_started_def split: start_phase.split)

lemma peer_step_attempt: "attempt_inv s \<Longrightarrow> attempt_inv (fst (peer_step env s e))"
  by (cases e)
     (simp_all add: peer_step_def peer_start_attempt peer_stop_attempt auth_turn_attempt
       agent_event_attempt retry_fires_attempt propagatePeerJWSEvent_def updatePingAuthDetails_def
       agent_turn_def http_started_attempt http_stopped_def Let_def split: option.split)

interpretation peer_attempts: invariant_machine "peer_step env" "\<lambda>s e. True" attempt_inv for env
  by unfold_locales (rule peer_step_attempt)

text \<open>
  C7. A peer makes one attempt to start at a time. In every state that a run reaches, whatever
  responses, disconnections, timeouts and calls of \<^verbatim>\<open>stop\<close> it contains, at most one of a
  running attempt, a scheduled retry and the JWS refresh loop is there; \<^verbatim>\<open>stop\<close> cancels the
  scheduled retry and, with PM4ML enabled, the refresh loop.
\<close>

theorem single_start_attempt:
  "let s = fst (exec (peer_step env) (createPeerServer cfg) es);
       t = fst (peer_stop env s) in
     length (retry_armed s) + length (jws_armed s) + (if ps_run s = None then 0 else 1) \<le> 1
     \<and> retry_armed t = []
     \<and> jws_armed t = (if pm4mlEnabled (env_app env) then [] else jws_armed s)"
proof -
  let ?s = "fst (exec (peer_step env) (createPeerServer cfg) es)"
  have inv: "attempt_inv ?s"
    by (rule peer_attempts.exec_inv [OF attempt_inv_create]) simp
  then have "retry_armed (fst (peer_stop env ?s)) = []"
    and "jws_armed (fst (peer_stop env ?s)) = (if pm4mlEnabled (env_app env) then [] else jws_armed ?s)"
    by (auto simp: attempt_inv_def peer_ops split: option.split)
  moreover have "length (retry_armed ?s) + length (jws_armed ?s) + (if ps_run ?s = None then 0 else 1) \<le> (1::nat)"
    using inv by (fastforce simp: attempt_inv_def)
  ultimately show ?thesis by (simp add: Let_def)
qed

section \<open>Becoming ready\<close>

lemma load_resolved_from:
  assumes "LoadResolved c \<in> set (snd (ca_step cd a e))"
  shows "\<exists>k text msg. e = SockMessage k text \<and> deserialise text = Some msg \<and> isCertsPayload msg"
proof -
  have no_load: "LoadResolved c \<notin> set (snd (loadCerts cd w b))" for w b
    by (auto simp: loadCerts_def send_built_out dest!: receive_out reject_load_kinds)
  have no_close: "LoadResolved c \<notin> set (snd (ws_close b))" for b
    by (simp add: ws_close_def split: option.split)
  have msg: "\<exists>m. deserialise t = Some m \<and> isCertsPayload m"
    if "LoadResolved c \<in> set (snd (on_message cd k t b))" for k t b
    using that
    by (auto simp: on_message_def Let_def receiver_message_def loadCerts_resume_def on_cert_def
        dest!: ca_handle_out_kinds call_receivers_out_kinds reject_load_kinds
        split: if_splits option.splits)
  show ?thesis
    using assms no_load no_close msg
    by (cases e) (auto simp: ca_ops send_built_out reject_load_def split: option.splits awaiter.splits if_splits)
qed

lemma do_all_ready:
  assumes "isReady (fst (do_all f xs s))"
    and "\<And>x t. x \<in> set xs \<Longrightarrow> isReady (fst (f x t)) \<Longrightarrow> isReady t"
  shows "isReady s"
  using assms by (induction xs arbitrary: s) auto

lemma stopPm4mlPart_ready [simp]: "isReady (fst (stopPm4mlPart env c s)) = isReady s"
  by (simp add: peer_ops)

lemma agent_effect_ready:
  "isReady (fst (agent_effect env x s)) \<Longrightarrow> (\<And>c. x \<noteq> LoadResolved c) \<Longrightarrow> isReady s"
  by (cases x)
     (auto simp: agent_effect_def peer_ops split: closer.splits option.splits pm4ml_wait.splits if_splits)

lemma call_agent_ready:
  assumes "isReady (fst (call_agent env e s))" and "agent_call e"
  shows "isReady s"
proof -
  have "LoadResolved c \<notin> set (snd (ca_step (env_codec env) (ps_agent s) e))" for c
    using load_resolved_from assms(2) by fastforce
  then have "isReady t" if "x \<in> set (snd (agent_turn env e s))" and "isReady (fst (agent_effect env x t))" for x t
    using that by (auto simp: agent_turn_def Let_def intro: agent_effect_ready)
  with assms(1) have "isReady (fst (agent_turn env e s))"
    by (auto simp: call_agent_def Let_def intro: do_all_ready)
  then show ?thesis by (simp add: agent_turn_def Let_def)
qed

lemma agent_report_ready:
  "isReady (fst (agent_report env x s)) \<Longrightarrow> (\<And>c. x \<noteq> LoadResolved c) \<Longrightarrow> isReady s"
  by (auto simp: agent_report_def init_resolved_def split: if_splits
      dest: call_agent_ready agent_effect_ready)

lemma auth_report_ready: "isReady (fst (auth_report env x s)) \<Longrightarrow> isReady s"
  by (auto simp: auth_report_def initControlAgent_def peer_ops split: auth_out.splits option.splits if_splits
      dest: call_agent_ready)

lemma agent_event_ready:
  assumes "isReady (fst (agent_event env e s))" and "\<not> isReady s"
  shows "\<exists>k text msg. e = SockMessage k text
           \<and> deserialise text = Some msg \<and> isCertsPayload msg"
proof -
  let ?q = "agent_turn env e s"
  have "isReady (fst (do_all (agent_report env) (snd ?q) (fst ?q)))" and "\<not> isReady (fst ?q)"
    using assms by (auto simp: agent_event_def agent_turn_def Let_def split: if_splits)
  then obtain x t where x: "x \<in> set (snd ?q)" "isReady (fst (agent_report env x t))" "\<not> isReady t"
    using do_all_ready by blast
  then obtain c where "x = LoadResolved c" using agent_report_ready by blast
  with x(1) show ?thesis
    by (auto simp: agent_turn_def Let_def dest!: load_resolved_from)
qed

section \<open>A start that succeeds\<close>

lemmas token_turn_defs =
  peer_step_def peer_start_def run_pm4ml_def createPeerServer_def auth_turn_def auth_defs
  auth_init_def auth_report_def emitted_token_def makeAccessTokenUpdatesResult_def
  emitServerStateEvent_def http_emit_def http_init_def on_serverState_def emitPingAuthDetails_def

lemmas connect_turn_defs =
  initControlAgent_def call_agent_def agent_turn_def ca_step_def ca_init_def open_ws_def
  schedulePing_def createControlAgent_def control_agent_def ws_open_def agent_effect_def
  agent_event_def on_open_def set_sock_def open_resolved_def agent_report_def init_resolved_def
  loadCerts_def send_built_def ca_send_def sock_state_def receive_def then_do_def

lemmas certs_turn_defs =
  on_message_def receivers_on_def receiver_message_def loadCerts_resume_def on_cert_def
  resolve_load_def certs_loaded_def startPeerJwsRefreshLoop_def pm4ml_returns_def
  reCreateHttpsAgent_def createHttpsAgent_def http_started_def is_uncaught_def

lemma handle_certs_result:
  assumes "deserialise text = Some msg" and "isCertsPayload msg"
  shows "ca_handle cd text s = (s, on_cert (the (payload_creds msg)) s)"
proof -
  obtain ps where p: "msg = JObj ps"
    using assms(2) by (cases msg) (auto simp: isCertsPayload_def)
  with assms show ?thesis
    by (simp add: ca_handle_def handle_message_def handle_configuration_def isCertsPayload_def
        split: if_splits)
qed

text \<open>The message that ends \<^verbatim>\<open>loadCerts\<close>, for the control agent and for the peer.\<close>

definition awaits_certs :: "nat \<Rightarrow> ControlAgent \<Rightarrow> bool" where
  "awaits_certs k a \<longleftrightarrow>
     ca_hasCallbacks a
     \<and> (\<exists>n. receivers_on k a = [\<lparr> rc_no = n, rc_sock = k, rc_validate = True, rc_awaiter = ByCaller, rc_timer = True \<rparr>])"

lemma certs_turn_agent:
  assumes "awaits_certs k a"
    and "deserialise text = Some msg" and "isCertsPayload msg"
    and "payload_creds msg = Some c"
  shows "\<exists>rs. ca_step cd a (SockMessage k text)
           = (a\<lparr> ca_receivers := rs \<rparr>, [OnCert c, OnCert c, LoadResolved c])"
  using assms
  by (auto simp: awaits_certs_def ca_step_def on_message_def handle_certs_result on_cert_def
      is_uncaught_def receiver_message_def isCertsPayload_isWsPayload loadCerts_resume_def
      resolve_load_def then_do_def Let_def)

lemma emit_certs_listening:
  "hs_listening (ps_http s) \<Longrightarrow> truthy (Some c) \<Longrightarrow>
     emitServerStateEvent (certs_event c) s =
       (s\<lparr> ps_http := fst (reCreateHttpsAgent c (ps_http s)) \<rparr>,
        map HttpOut (snd (reCreateHttpsAgent c (ps_http s))) @ [EmitPingAuthDetails (certs_event c)])"
  by (simp add: emitServerStateEvent_def http_emit_def on_serverState_def emitPingAuthDetails_def Let_def)

lemma certs_turn:
  assumes "awaits_certs k (ps_agent s)"
    and "deserialise text = Some msg" and "isCertsPayload msg"
    and "payload_creds msg = Some c"
    and "ps_run s = Some AwaitCerts" and "ps_start s = InPm4ml"
    and "hs_listening (ps_http s)" and "httpsAgent (hs_state (ps_http s)) = None"
  shows "\<exists>t. peer_step env s (PeerAgent (SockMessage k text)) =
      (t, [EmitPingAuthDetails (certs_event c),
           HttpOut (ArmShutdown (hs_next_timer (ps_http s)) GRACEFUL_AGENT_SHUTDOWN_MS),
           EmitPingAuthDetails (certs_event c),
           ArmJwsLoop (node_delay (checkPeerJwsInterval (env_app env))), HttpStart])
    \<and> isReady t \<and> ps_start t = InHttpStart True \<and> server_certs (ps_http t) = Some c
    \<and> accessToken (hs_state (ps_http t)) = accessToken (hs_state (ps_http s))"
proof -
  have c: "truthy (Some c)" using assms(3,4) by (simp add: isCertsPayload_def)
  obtain rs where a: "ca_step (env_codec env) (ps_agent s) (SockMessage k text)
      = ((ps_agent s)\<lparr> ca_receivers := rs \<rparr>, [OnCert c, OnCert c, LoadResolved c])"
    using certs_turn_agent [OF assms(1-4)] by blast
  show ?thesis
    using c assms(5-8)
    by (simp add: peer_step_def agent_event_def agent_turn_def a agent_report_def agent_effect_def
        emit_certs_listening reCreateHttpsAgent_def certs_loaded_def startPeerJwsRefreshLoop_def
        pm4ml_returns_def then_do_def server_certs_def createHttpsAgent_def Let_def)
qed

lemma certs_turn_ready:
  assumes "awaits_certs k (ps_agent s)"
    and "deserialise text = Some msg" and "isCertsPayload msg"
    and "ps_run s = Some AwaitCerts"
  shows "isReady (fst (peer_step env s (PeerAgent (SockMessage k text))))"
proof -
  obtain c where c: "payload_creds msg = Some c" using assms(3) by (cases "payload_creds msg") (simp_all add: isCertsPayload_def)
  obtain rs where a: "ca_step (env_codec env) (ps_agent s) (SockMessage k text)
      = ((ps_agent s)\<lparr> ca_receivers := rs \<rparr>, [OnCert c, OnCert c, LoadResolved c])"
    using certs_turn_agent [OF assms(1-3) c] by blast
  show ?thesis
    using c assms(4)
    by (simp add: peer_step_def agent_event_def agent_turn_def a agent_report_def agent_effect_def
        emitServerStateEvent_def certs_loaded_def startPeerJwsRefreshLoop_def
        pm4ml_returns_def  Let_def)
qed

text \<open>The turns before: the token arrives, and the socket opens. The request for certificates.\<close>

definition certs_request :: "peer_env \<Rightarrow> string" where
  "certs_request env =
     build_CONFIGURATION_READ (cd_stringify (env_codec env)) (cd_slug (env_codec env) 0) None"

lemma connect_turns:
  assumes "pm4mlEnabled (env_app env)" and "getOidcToken r = OidcToken t n"
  shows "\<exists>s addr. exec (peer_step env) (createPeerServer (env_cfg env))
        [PeerStart, PeerTokenResponse 0 r, PeerAgent (SockOpen 0)] =
      (s, [AuthOut (TokenRequest (createHttpOptions (authConfig (env_cfg env)))),
           EmitPingAuthDetails (token_event t), AgentOut (NewWebSocket 0 addr), AgentOut (WsSend 0 (certs_request env))])
    \<and> awaits_certs 0 (ps_agent s) \<and> ps_run s = Some AwaitCerts \<and> ps_start s = InPm4ml
    \<and> hs_listening (ps_http s) \<and> httpsAgent (hs_state (ps_http s)) = None
    \<and> accessToken (hs_state (ps_http s)) = t \<and> hs_next_timer (ps_http s) = 0 \<and> \<not> isReady s"
  using assms
  by (simp add: certs_request_def token_turn_defs connect_turn_defs awaits_certs_def receivers_on_def)

lemma start_turns:
  assumes "pm4mlEnabled (env_app env)" and "getOidcToken r = OidcToken t n"
    and "deserialise text = Some msg" and "isCertsPayload msg"
    and "payload_creds msg = Some c"
  shows "\<exists>s addr. exec (peer_step env) (createPeerServer (env_cfg env))
        [PeerStart, PeerTokenResponse 0 r, PeerAgent (SockOpen 0), PeerAgent (SockMessage 0 text),
         PeerHttpStarted None] =
      (s, [AuthOut (TokenRequest (createHttpOptions (authConfig (env_cfg env)))),
           EmitPingAuthDetails (token_event t), AgentOut (NewWebSocket 0 addr), AgentOut (WsSend 0 (certs_request env)),
           EmitPingAuthDetails (certs_event c), HttpOut (ArmShutdown 0 GRACEFUL_AGENT_SHUTDOWN_MS),
           EmitPingAuthDetails (certs_event c),
           ArmJwsLoop (node_delay (checkPeerJwsInterval (env_app env))), HttpStart, StartResolved True])
    \<and> isReady s \<and> accessToken (hs_state (ps_http s)) = t \<and> server_certs (ps_http s) = Some c
    \<and> hd_isReady (serverStateToHealthcheckDetailsDto (pm4mlEnabled (env_app env)) (hs_state (ps_http s)))"
proof -
  obtain s addr where s: "exec (peer_step env) (createPeerServer (env_cfg env))
        [PeerStart, PeerTokenResponse 0 r, PeerAgent (SockOpen 0)] =
      (s, [AuthOut (TokenRequest (createHttpOptions (authConfig (env_cfg env)))),
           EmitPingAuthDetails (token_event t), AgentOut (NewWebSocket 0 addr), AgentOut (WsSend 0 (certs_request env))])"
    and p: "awaits_certs 0 (ps_agent s)" "ps_run s = Some AwaitCerts" "ps_start s = InPm4ml"
      "hs_listening (ps_http s)" "httpsAgent (hs_state (ps_http s)) = None"
      "accessToken (hs_state (ps_http s)) = t" "hs_next_timer (ps_http s) = 0"
    using connect_turns [OF assms(1,2)] by blast
  obtain u where u: "peer_step env s (PeerAgent (SockMessage 0 text)) =
      (u, [EmitPingAuthDetails (certs_event c),
           HttpOut (ArmShutdown (hs_next_timer (ps_http s)) GRACEFUL_AGENT_SHUTDOWN_MS),
           EmitPingAuthDetails (certs_event c),
           ArmJwsLoop (node_delay (checkPeerJwsInterval (env_app env))), HttpStart])"
    and q: "isReady u" "ps_start u = InHttpStart True" "server_certs (ps_http u) = Some c"
      "accessToken (hs_state (ps_http u)) = t"
    using certs_turn [OF p(1) assms(3-5) p(2-5)] p(6) by blast
  have t: "t \<noteq> []" using assms(2) by (auto simp: getOidcToken_def split: sum.splits option.splits if_splits)
  have "peer_step env u (PeerHttpStarted None) = (u\<lparr> ps_start := StartOver \<rparr>, [StartResolved True])"
    using q by (simp add: peer_step_def http_started_def)
  with u have "exec (peer_step env) s [PeerAgent (SockMessage 0 text), PeerHttpStarted None] =
      (u\<lparr> ps_start := StartOver \<rparr>, [EmitPingAuthDetails (certs_event c),
           HttpOut (ArmShutdown (hs_next_timer (ps_http s)) GRACEFUL_AGENT_SHUTDOWN_MS),
           EmitPingAuthDetails (certs_event c),
           ArmJwsLoop (node_delay (checkPeerJwsInterval (env_app env))), HttpStart, StartResolved True])"
    by simp
  from exec_append_eq [OF s this] show ?thesis
    using q p(7) t
    by (intro exI [of _ "u\<lparr> ps_start := StartOver \<rparr>"] exI [of _ addr])
       (auto simp: hd_isReady_iff server_certs_def)
qed

text \<open>
  C4. A start that meets no failure makes the peer ready. From a new peer with PM4ML enabled,
  a valid token response, the opening of the socket, a certificates message and the start of
  the HTTP server lead, in this order, to: the token request, the token passed on, the
  connection, the configuration request, the certificates passed on (twice), the JWS refresh
  loop, the HTTP server, and the result \<^verbatim>\<open>true\<close>. The peer is then ready, its server holds the
  token and the certificates, and its health check says so.
\<close>

theorem successful_start:
  assumes "pm4mlEnabled (env_app env)" and "getOidcToken r = OidcToken t n"
    and "deserialise text = Some msg" and "isCertsPayload msg"
    and "payload_creds msg = Some c"
  shows "\<exists>s addr req. exec (peer_step env) (createPeerServer (env_cfg env))
        [PeerStart, PeerTokenResponse 0 r, PeerAgent (SockOpen 0), PeerAgent (SockMessage 0 text),
         PeerHttpStarted None] =
      (s, [AuthOut (TokenRequest (createHttpOptions (authConfig (env_cfg env)))),
           EmitPingAuthDetails (token_event t), AgentOut (NewWebSocket 0 addr), AgentOut (WsSend 0 req),
           EmitPingAuthDetails (certs_event c), HttpOut (ArmShutdown 0 GRACEFUL_AGENT_SHUTDOWN_MS),
           EmitPingAuthDetails (certs_event c),
           ArmJwsLoop (node_delay (checkPeerJwsInterval (env_app env))), HttpStart, StartResolved True])
    \<and> isReady s \<and> accessToken (hs_state (ps_http s)) = t \<and> server_certs (ps_http s) = Some c
    \<and> hd_isReady (serverStateToHealthcheckDetailsDto (pm4mlEnabled (env_app env)) (hs_state (ps_http s)))"
  using start_turns [OF assms] by blast

definition sample_cfg :: PeerServerConfig where
  "sample_cfg =
     \<lparr> cfg_peer = ''A'', cfg_peerEndpoint = ''hub-a:4001'', cfg_pingCallbackEndpoint = ''hub-b:4002'',
       authConfig = sample_auth,
       controlAgentConfig = \<lparr> wsHost = ''mgmt-api'', wsPort = 4005, connectionTimeout = 4000,
         msgTimeout = 5000, reconnectInterval = 5000 \<rparr>,
       serverConfig = \<lparr> srv_host = ''0.0.0.0'', srv_port = 4100 \<rparr> \<rparr>"

definition sample_app :: AppConfig where
  "sample_app =
     \<lparr> PROXY_ID = ''proxyAB'', LOG_LEVEL = ''info'',
       peerAConfig = sample_cfg, peerBConfig = sample_cfg, pm4mlEnabled = True,
       incomingHeadersRemoval = [], checkPeerJwsInterval = 1800000, retryStartTimeoutSec = 60,
       retryDnsErrorTimeoutSec = 5 \<rparr>"

definition sample_env :: peer_env where
  "sample_env = \<lparr> env_app = sample_app, env_cfg = sample_cfg, env_codec = sample_codec \<rparr>"

definition sample_connected :: PeerServer where
  "sample_connected = fst (exec (peer_step sample_env) (createPeerServer sample_cfg)
     [PeerStart, PeerTokenResponse 0 sample_token, PeerAgent (SockOpen 0)])"


lemma sample_env_simps [simp]:
  "pm4mlEnabled (env_app sample_env)" "env_cfg sample_env = sample_cfg"
  "env_codec sample_env = sample_codec" "checkPeerJwsInterval (env_app sample_env) = 1800000"
  "retryStartTimeoutSec (env_app sample_env) = 60" "retryDnsErrorTimeoutSec (env_app sample_env) = 5"
  by (simp_all add: sample_env_def sample_app_def)

theorem successful_start_witness:
  "\<exists>s. fst (exec (peer_step sample_env) (createPeerServer sample_cfg)
      [PeerStart, PeerTokenResponse 0 sample_token, PeerAgent (SockOpen 0),
       PeerAgent (SockMessage 0 certs_text), PeerHttpStarted None]) = s
     \<and> isReady s \<and> accessToken (hs_state (ps_http s)) = ''tok''
     \<and> server_certs (ps_http s) = Some (JStr ''pem'')"
  using successful_start [of sample_env sample_token "''tok''" 300 certs_text sample_certs "JStr ''pem''"]
  by auto

text \<open>
  C18. With PM4ML enabled only certificates make a peer ready. A step after which a peer is
  ready that was not ready before is the delivery of a websocket message that parses to a
  valid certificates message; no token, connection, timer or call does it.
\<close>

theorem ready_only_by_certificates:
  assumes "pm4mlEnabled (env_app env)"
    and "\<not> isReady s" and "isReady (fst (peer_step env s e))"
  shows "\<exists>k text msg. e = PeerAgent (SockMessage k text)
           \<and> deserialise text = Some msg \<and> isCertsPayload msg"
proof -
  have auth: "isReady (fst (auth_turn env a s)) \<Longrightarrow> isReady s" for a
    by (auto simp: auth_turn_def Let_def dest!: do_all_ready auth_report_ready)
  show ?thesis
    using assms agent_event_ready auth
    by (cases e)
       (auto simp: peer_step_def peer_ops split: if_splits start_phase.splits option.splits)
qed

definition waiting_peer :: PeerServer where
  "waiting_peer =
     (createPeerServer sample_cfg)\<lparr> ps_run := Some AwaitCerts,
       ps_agent := fst (exec (ca_step sample_codec) sample_agent [CallInit, SockOpen 0, CallLoadCerts]) \<rparr>"

theorem ready_only_by_certificates_witness:
  "\<exists>k text msg. PeerAgent (SockMessage 0 certs_text) = PeerAgent (SockMessage k text)
     \<and> deserialise text = Some msg \<and> isCertsPayload msg"
proof -
  have "awaits_certs 0 (ps_agent waiting_peer)"
    by (simp add: waiting_peer_def awaits_certs_def ca_ops ws_open_def sock_state_def
        loadCerts_def receive_def send_built_state receivers_on_def)
  then have "isReady (fst (peer_step sample_env waiting_peer (PeerAgent (SockMessage 0 certs_text))))"
    by (rule certs_turn_ready [where msg = sample_certs]) (simp_all add: waiting_peer_def)
  moreover have "\<not> isReady waiting_peer"
    by (simp add: waiting_peer_def createPeerServer_def)
  ultimately show ?thesis
    using ready_only_by_certificates [of sample_env waiting_peer "PeerAgent (SockMessage 0 certs_text)"]
    by simp
qed

end
