(* ===== verification/Adapter.thy ===== *)
theory Adapter
  imports Peer_Runs
begin

text \<open>
  \<^verbatim>\<open>src/domain/InterSchemeProxyAdapter.ts\<close> and \<^verbatim>\<open>src/createProxyAdapter.ts\<close>: the two peers and
  the listeners that carry the events of each to the other. A step of a peer is followed, in
  the same turn of the event loop, by what the other peer does with the events it emitted.
\<close>

section \<open>State\<close>

text \<open>
  \<open>startedA\<close> and \<open>startedB\<close> are the results of the peers' starts that \<^verbatim>\<open>Promise.all\<close> of \<^verbatim>\<open>start\<close>
  has; \<open>start_settled\<close> says that it has settled. \<open>stoppedA\<close> and \<open>stoppedB\<close> are the results of the
  stops that each peer has finished, in order (\<open>None\<close> or the error of the rejection): the n-th call of
  \<^verbatim>\<open>stop\<close> waits for the n-th result of both.
\<close>

record Adapter =
  peerA :: PeerServer
  peerB :: PeerServer
  startedA :: "bool option"
  startedB :: "bool option"
  start_settled :: bool
  stoppedA :: "thrown option list"
  stoppedB :: "thrown option list"

record adapter_env =
  ad_app :: AppConfig
  ad_codec :: codec

definition peer_env_of :: "adapter_env \<Rightarrow> peer_label \<Rightarrow> peer_env" where
  "peer_env_of env p =
     \<lparr> env_app = ad_app env,
       env_cfg = (case p of PeerA \<Rightarrow> peerAConfig (ad_app env) | PeerB \<Rightarrow> peerBConfig (ad_app env)),
       env_codec = ad_codec env \<rparr>"

definition createProxyAdapter :: "AppConfig \<Rightarrow> Adapter" where
  "createProxyAdapter cfg =
     \<lparr> peerA = createPeerServer (peerAConfig cfg), peerB = createPeerServer (peerBConfig cfg),
       startedA = None, startedB = None, start_settled = False, stoppedA = [], stoppedB = [] \<rparr>"

fun other :: "peer_label \<Rightarrow> peer_label" where
  "other PeerA = PeerB"
| "other PeerB = PeerA"

definition peer_of :: "Adapter \<Rightarrow> peer_label \<Rightarrow> PeerServer" where
  "peer_of s p = (case p of PeerA \<Rightarrow> peerA s | PeerB \<Rightarrow> peerB s)"

definition set_peer :: "peer_label \<Rightarrow> PeerServer \<Rightarrow> Adapter \<Rightarrow> Adapter" where
  "set_peer p t s = (case p of PeerA \<Rightarrow> s\<lparr> peerA := t \<rparr> | PeerB \<Rightarrow> s\<lparr> peerB := t \<rparr>)"

lemma other_simps [simp]: "other (other p) = p" "other p \<noteq> p" "p \<noteq> other p"
  by (cases p; simp)+

lemma peer_of_set_peer [simp]:
  "peer_of (set_peer p t s) q = (if q = p then t else peer_of s q)"
  by (cases p; cases q) (simp_all add: peer_of_def set_peer_def)

datatype adapter_out =
    PeerOut peer_label peer_out
  | AdapterStarted bool bool
  | AdapterStartFailed thrown
  | AdapterStopped
  | AdapterStopFailed thrown

type_synonym adapter_result = "Adapter \<times> adapter_out list"

section \<open>The listeners\<close>

text \<open>One listener's call: an event of peer \<open>p\<close> handed to the other peer.\<close>

definition to_other :: "adapter_env \<Rightarrow> peer_label \<Rightarrow> peer_event \<Rightarrow> Adapter \<Rightarrow> adapter_result" where
  "to_other env p e s =
     (let q = peer_step (peer_env_of env (other p)) (peer_of s (other p)) e
      in (set_peer (other p) (fst q) s, map (PeerOut (other p)) (snd q)))"

text \<open>\<^verbatim>\<open>Promise.all\<close> over the two starts, and over the two stops.\<close>

definition start_result :: "peer_label \<Rightarrow> bool \<Rightarrow> Adapter \<Rightarrow> adapter_result" where
  "start_result p ok s =
     (let s1 = (case p of PeerA \<Rightarrow> s\<lparr> startedA := Some ok \<rparr> | PeerB \<Rightarrow> s\<lparr> startedB := Some ok \<rparr>)
      in case (startedA s1, startedB s1) of
           (Some a, Some b) \<Rightarrow>
             if start_settled s1 then (s1, []) else (s1\<lparr> start_settled := True \<rparr>, [AdapterStarted a b])
         | _ \<Rightarrow> (s1, []))"

definition start_rejected :: "thrown \<Rightarrow> Adapter \<Rightarrow> adapter_result" where
  "start_rejected e s =
     (if start_settled s then (s, []) else (s\<lparr> start_settled := True \<rparr>, [AdapterStartFailed e]))"

definition stopped_of :: "Adapter \<Rightarrow> peer_label \<Rightarrow> thrown option list" where
  "stopped_of s p = (case p of PeerA \<Rightarrow> stoppedA s | PeerB \<Rightarrow> stoppedB s)"

text \<open>
  The result of a peer's stop meets the one of the other peer's stop of the same call, if that has
  come: the call is over with the first rejection, or with the second result.
\<close>

definition stop_result :: "peer_label \<Rightarrow> thrown option \<Rightarrow> Adapter \<Rightarrow> adapter_result" where
  "stop_result p r s =
     (let n = length (stopped_of s p);
          s1 = (case p of PeerA \<Rightarrow> s\<lparr> stoppedA := stoppedA s @ [r] \<rparr> | PeerB \<Rightarrow> s\<lparr> stoppedB := stoppedB s @ [r] \<rparr>)
      in (s1,
          if n < length (stopped_of s (other p))
          then (case (stopped_of s (other p) ! n, r) of
                  (Some e, _) \<Rightarrow> []
                | (None, Some e) \<Rightarrow> [AdapterStopFailed e]
                | (None, None) \<Rightarrow> [AdapterStopped])
          else (case r of None \<Rightarrow> [] | Some e \<Rightarrow> [AdapterStopFailed e])))"

definition peer_report :: "adapter_env \<Rightarrow> peer_label \<Rightarrow> peer_out \<Rightarrow> Adapter \<Rightarrow> adapter_result" where
  "peer_report env p x s =
     then_do (s, [PeerOut p x])
       (case x of
          EmitPeerJWS d \<Rightarrow> to_other env p (PeerPropagate d)
        | EmitPingAuthDetails d \<Rightarrow> to_other env p (PeerPingDetails d)
        | StartResolved ok \<Rightarrow> start_result p ok
        | StartRejected e \<Rightarrow> start_rejected e
        | StopResolved ok \<Rightarrow> stop_result p None
        | StopRejected e \<Rightarrow> stop_result p (Some e)
        | _ \<Rightarrow> (\<lambda>t. (t, [])))"

section \<open>The machine\<close>

definition peer_turn :: "adapter_env \<Rightarrow> peer_label \<Rightarrow> peer_event \<Rightarrow> Adapter \<Rightarrow> adapter_result" where
  "peer_turn env p e s =
     (let q = peer_step (peer_env_of env p) (peer_of s p) e
      in do_all (peer_report env p) (snd q) (set_peer p (fst q) s))"

definition adapter_start :: "adapter_env \<Rightarrow> Adapter \<Rightarrow> adapter_result" where
  "adapter_start env s = then_do (peer_turn env PeerA PeerStart s) (peer_turn env PeerB PeerStart)"

definition adapter_stop :: "adapter_env \<Rightarrow> Adapter \<Rightarrow> adapter_result" where
  "adapter_stop env s = then_do (peer_turn env PeerA PeerStop s) (peer_turn env PeerB PeerStop)"

text \<open>The events from outside; the calls of a peer are the adapter's own.\<close>

datatype adapter_event =
    AdapterStart
  | AdapterStop
  | OfPeer peer_label peer_event

fun adapter_call :: "peer_event \<Rightarrow> bool" where
  "adapter_call PeerStart = True"
| "adapter_call PeerStop = True"
| "adapter_call (PeerPropagate d) = True"
| "adapter_call (PeerPingDetails d) = True"
| "adapter_call _ = False"

definition adapter_step :: "adapter_env \<Rightarrow> Adapter \<Rightarrow> adapter_event \<Rightarrow> adapter_result" where
  "adapter_step env s e =
     (case e of
        AdapterStart \<Rightarrow> adapter_start env s
      | AdapterStop \<Rightarrow> adapter_stop env s
      | OfPeer p a \<Rightarrow> if adapter_call a then (s, []) else peer_turn env p a s)"

text \<open>The states the adapter can reach, as a transition system.\<close>

inductive adapter_trans :: "adapter_env \<Rightarrow> Adapter \<Rightarrow> Adapter \<Rightarrow> bool" for env where
  turn: "adapter_step env s e = (t, outs) \<Longrightarrow> adapter_trans env s t"

inductive reachable :: "adapter_env \<Rightarrow> Adapter \<Rightarrow> bool" for env where
  created: "reachable env (createProxyAdapter (ad_app env))"
| moves: "reachable env s \<Longrightarrow> adapter_trans env s t \<Longrightarrow> reachable env t"

inductive_simps adapter_trans_iff: "adapter_trans env s t"

lemma exec_reachable: "reachable env s \<Longrightarrow> reachable env (fst (exec (adapter_step env) s es))"
proof (induction es arbitrary: s)
  case (Cons e es)
  have "adapter_trans env s (fst (adapter_step env s e))"
    by (rule turn [of _ _ e _ "snd (adapter_step env s e)"]) simp
  then show ?case using Cons by (auto simp: Let_def intro: moves)
qed simp

section \<open>Contracts of turns\<close>

text \<open>
  The interface of a relation between the state before, the state after and the outputs that
  sequencing preserves, so that it holds of a composed operation once it holds of its parts.
\<close>

locale turn_relation =
  fixes R :: "'s \<Rightarrow> 's \<Rightarrow> 'o list \<Rightarrow> bool"
  assumes idle: "R s s []"
    and seq: "R s t xs \<Longrightarrow> R t u ys \<Longrightarrow> R s u (xs @ ys)"
begin

lemma then_do_rel: "R s (fst q) (snd q) \<Longrightarrow> R (fst q) (fst (f (fst q))) (snd (f (fst q)))
    \<Longrightarrow> R s (fst (then_do q f)) (snd (then_do q f))"
  by (simp add: seq)

lemma do_all_rel:
  assumes "\<And>x t. x \<in> set xs \<Longrightarrow> R t (fst (f x t)) (snd (f x t))"
  shows "R s (fst (do_all f xs s)) (snd (do_all f xs s))"
  using assms by (induction xs arbitrary: s) (auto simp: idle intro: seq)

lemma after_do_all:
  assumes "R s t ys" and "\<And>x t. x \<in> set xs \<Longrightarrow> R t (fst (f x t)) (snd (f x t))"
  shows "R s (fst (do_all f xs t)) (ys @ snd (do_all f xs t))"
  using assms by (blast intro: seq do_all_rel)

end

end
