(* ===== verification/Adapter_Runs.thy ===== *)
theory Adapter_Runs
  imports Adapter
begin

text \<open>
  What the runs of the adapter show: the credentials that a peer's ping callbacks use are those
  that its sibling's server uses, a JWS notification of one hub reaches the other hub once and
  never returns, and the two peers fail and stop independently of each other.
\<close>

section \<open>What a peer emits, against what its server holds\<close>

definition emitted_by :: "peer_out \<Rightarrow> ServerStateEvent list" where
  "emitted_by x = (case x of EmitPingAuthDetails d \<Rightarrow> [d] | _ \<Rightarrow> [])"

definition emitted :: "peer_out list \<Rightarrow> ServerStateEvent list" where
  "emitted outs = concat (map emitted_by outs)"

lemma emitted_simps [simp]:
  "emitted [] = []" "emitted (xs @ ys) = emitted xs @ emitted ys"
  "emitted (x # xs) = emitted_by x @ emitted xs"
  "emitted (map AgentOut as) = []" "emitted (map AuthOut bs) = []" "emitted (map HttpOut cs) = []"
  by (simp_all add: emitted_def emitted_by_def comp_def)

lemma emitted_by_simps [simp]:
  "emitted_by (EmitPingAuthDetails d) = [d]" "emitted_by (EmitPeerJWS j) = []"
  "emitted_by (AgentOut a) = []" "emitted_by (AuthOut b) = []" "emitted_by (HttpOut c) = []"
  "emitted_by HttpStart = []" "emitted_by HttpStopCall = []" "emitted_by (ArmRetry n) = []"
  "emitted_by (ArmJwsLoop n) = []" "emitted_by (StartResolved ok) = []"
  "emitted_by (StartRejected e) = []" "emitted_by (StopResolved ok) = []" "emitted_by (StopRejected e) = []"
  "emitted_by (Propagated ok) = []"
  by (simp_all add: emitted_by_def)

definition server_view :: "HttpServer \<Rightarrow> string \<times> js option" where
  "server_view h = (accessToken (hs_state h), server_certs h)"

definition view_after :: "ServerStateEvent \<Rightarrow> string \<times> js option \<Rightarrow> string \<times> js option" where
  "view_after e v =
     (case ev_accessToken e of None \<Rightarrow> fst v | Some t \<Rightarrow> t,
      case accepted_certs e of None \<Rightarrow> snd v | Some c \<Rightarrow> c)"

lemma server_view_consume: "server_view (consume_state e h) = view_after e (server_view h)"
  using server_sink.token_consume [of e h] server_sink.certs_consume [of e h]
  by (simp add: server_view_def view_after_def accepted_token_def split: option.split)

text \<open>
  The interface of a contract of the peer's turns: a relation that sequencing preserves, that
  holds of every piece of a turn that leaves the server and the ping service alone and says
  nothing to the adapter about them, and of the three pieces that change the server. It then
  holds of every turn but the calls of the adapter's listeners.
\<close>

definition mute :: "peer_out list \<Rightarrow> bool" where
  "mute outs \<longleftrightarrow> list_all 
     (\<lambda>x. case x of EmitPingAuthDetails d \<Rightarrow> False | Propagated b \<Rightarrow> False
          | StopResolved ok \<Rightarrow> False | StopRejected e \<Rightarrow> False | _ \<Rightarrow> True) outs"

lemma mute_simps [simp]:
  "mute []" "mute (xs @ ys) = (mute xs \<and> mute ys)" "mute (map AgentOut as)" "mute (map AuthOut bs)"
  "mute (map HttpOut cs)"
  "mute (EmitPeerJWS j # xs) = mute xs" "mute (AgentOut a # xs) = mute xs" "mute (AuthOut b # xs) = mute xs"
  "mute (HttpStart # xs) = mute xs" "mute (HttpStopCall # xs) = mute xs" "mute (ArmRetry n # xs) = mute xs"
  "mute (ArmJwsLoop n # xs) = mute xs" "mute (StartResolved ok # xs) = mute xs"
  "mute (StartRejected e # xs) = mute xs"
  by (auto simp: mute_def list_all_iff)

locale peer_contract = turn_relation R
  for R :: "PeerServer \<Rightarrow> PeerServer \<Rightarrow> peer_out list \<Rightarrow> bool" +
  assumes apart: "ps_http t = ps_http s \<Longrightarrow> ps_ping t = ps_ping s \<Longrightarrow> mute outs \<Longrightarrow> R s t outs"
    and emits: "R s (fst (emitServerStateEvent e s)) (snd (emitServerStateEvent e s))"
    and stopped: "R s (fst (http_stopped err s)) (snd (http_stopped err s))"
    and shutdown: "R s (s\<lparr> ps_http := fst (shutdown_timer n (ps_http s)) \<rparr>) (map HttpOut houts)"
begin

lemma same: "mute outs \<Longrightarrow> R s s outs"
  by (rule apart) simp_all

lemma apart_ops:
  "R s (fst (start_failed env e s)) (snd (start_failed env e s))"
  "R s (fst (certs_loaded env s)) (snd (certs_loaded env s))"
  "R s (fst (retry_closed env dns s)) (snd (retry_closed env dns s))"
  "R s (fst (stop_closed s)) (snd (stop_closed s))"
  "R s (fst (peer_start env s)) (snd (peer_start env s))"
  "R s (fst (peer_stop env s)) (snd (peer_stop env s))"
  "R s (fst (http_started err s)) (snd (http_started err s))"
  "R s (fst (run_pm4ml env (s\<lparr> retry_armed := xs \<rparr>))) (snd (run_pm4ml env (s\<lparr> retry_armed := xs \<rparr>)))"
  by (rule apart; simp add: peer_ops split: start_phase.split option.split)+

lemma agent_effect_rel: "R s (fst (agent_effect env x s)) (snd (agent_effect env x s))"
  by (simp add: agent_effect_def emitPeerJWSEvent_def apart_ops emits same
      split: ca_out.split closer.split option.split pm4ml_wait.split)

lemma call_agent_rel:
  "R s (fst (call_agent env e (s\<lparr> ps_run := w \<rparr>))) (snd (call_agent env e (s\<lparr> ps_run := w \<rparr>)))"
proof -
  let ?q = "agent_turn env e (s\<lparr> ps_run := w \<rparr>)"
  have "R s (fst ?q) []" by (rule apart) (simp_all add: agent_turn_def Let_def)
  then show ?thesis
    using after_do_all [of s "fst ?q" "[]" "snd ?q" "agent_effect env"] agent_effect_rel
    by (simp add: call_agent_def Let_def)
qed

lemma agent_report_rel: "R s (fst (agent_report env x s)) (snd (agent_report env x s))"
  by (simp add: agent_report_def init_resolved_def call_agent_rel agent_effect_rel same)

lemma auth_report_rel: "R s (fst (auth_report env x s)) (snd (auth_report env x s))"
  by (simp add: auth_report_def initControlAgent_def call_agent_rel emits apart_ops same
      split: auth_out.split option.split)

lemma auth_turn_rel: "R s (fst (auth_turn env e s)) (snd (auth_turn env e s))"
proof -
  let ?q = "auth_step (authConfig (env_cfg env)) (ps_auth s) e"
  have "R s (s\<lparr> ps_auth := fst ?q \<rparr>) []" by (rule apart) simp_all
  then show ?thesis
    using after_do_all [of s "s\<lparr> ps_auth := fst ?q \<rparr>" "[]" "snd ?q" "auth_report env"] auth_report_rel
    by (simp add: auth_turn_def Let_def)
qed

lemma agent_event_rel: "R s (fst (agent_event env e s)) (snd (agent_event env e s))"
proof -
  let ?q = "agent_turn env e s"
  have "R s (fst ?q) []" by (rule apart) (simp_all add: agent_turn_def Let_def)
  then show ?thesis
    using after_do_all [of s "fst ?q" "[]" "snd ?q" "agent_report env"] agent_report_rel
    by (simp add: agent_event_def Let_def same)
qed

lemma peer_step_rel:
  assumes "\<And>d. e \<noteq> PeerPingDetails d" and "\<And>d. e \<noteq> PeerPropagate d"
  shows "R s (fst (peer_step env s e)) (snd (peer_step env s e))"
  using assms
  by (cases e)
     (auto simp: peer_step_def apart_ops auth_turn_rel agent_event_rel stopped shutdown same
       agent_turn_def Let_def intro: apart)

end

text \<open>
  What every turn of a peer keeps: while its server listens, it holds what it was told by the
  events that the turn emits; the ping service is not touched.
\<close>

definition tells :: "PeerServer \<Rightarrow> PeerServer \<Rightarrow> peer_out list \<Rightarrow> bool" where
  "tells s t outs \<longleftrightarrow>
     ps_ping t = ps_ping s
     \<and> (hs_listening (ps_http t) \<longrightarrow>
          hs_listening (ps_http s)
          \<and> server_view (ps_http t) = fold view_after (emitted outs) (server_view (ps_http s)))"

lemma mute_emitted: "mute outs \<Longrightarrow> emitted outs = []"
  by (induction outs) (auto simp: mute_def emitted_by_def split: peer_out.splits)

lemma tells_emit: "tells s (fst (emitServerStateEvent e s)) (snd (emitServerStateEvent e s))"
proof (cases "hs_listening (ps_http s)")
  case True
  have "fst (http_emit (Some e) (ps_http s)) = consume_state e (ps_http s)"
    using True by (simp add: http_emit_def consume_state_def)
  then show ?thesis
    using True by (simp add: tells_def emitServerStateEvent_def emitPingAuthDetails_def server_view_consume Let_def)
next
  case False
  then show ?thesis by (simp add: tells_def emitServerStateEvent_def http_emit_def Let_def)
qed

interpretation tells: peer_contract tells
proof
  show "tells s t outs" if "ps_http t = ps_http s" "ps_ping t = ps_ping s" "mute outs" for s t outs
    using that by (simp add: tells_def mute_emitted)
  show "tells s (fst (http_stopped err s)) (snd (http_stopped err s))" for err s
    by (simp add: tells_def http_stopped_def http_stop_def split: option.split)
  show "tells s (s\<lparr> ps_http := fst (shutdown_timer n (ps_http s)) \<rparr>) (map HttpOut houts)" for s n houts
    by (simp add: tells_def shutdown_timer_def server_view_def server_certs_def split: option.split)
qed (auto simp: tells_emit, auto simp: tells_def)

text \<open>A turn of a peer's own propagates nothing.\<close>

definition no_propagated :: "PeerServer \<Rightarrow> PeerServer \<Rightarrow> peer_out list \<Rightarrow> bool" where
  "no_propagated s t outs \<longleftrightarrow> Propagated True \<notin> set outs \<and> Propagated False \<notin> set outs"

interpretation no_propagated: peer_contract no_propagated
  by unfold_locales
     (auto simp: no_propagated_def mute_def list_all_iff emitServerStateEvent_def emitPingAuthDetails_def
       http_stopped_def Let_def split: option.split)

lemma tells_peer_step:
  assumes "\<forall>d. e \<noteq> PeerPingDetails d"
  shows "tells s (fst (peer_step env s e)) (snd (peer_step env s e))"
proof (cases "\<exists>d. e = PeerPropagate d")
  case True
  then show ?thesis
    by (cases "isReady s") (auto simp: peer_step_def propagatePeerJWSEvent_def tells_def Let_def)
next
  case False
  then show ?thesis using assms by (intro tells.peer_step_rel) auto
qed

section \<open>What the listeners do to the other peer\<close>

lemma propagate_frame [simp]:
  "ps_ping (fst (propagatePeerJWSEvent env d s)) = ps_ping s"
  "ps_http (fst (propagatePeerJWSEvent env d s)) = ps_http s"
  by (simp_all add: propagatePeerJWSEvent_def Let_def)

lemma result_frame [simp]:
  "peer_of (fst (start_result p ok s)) q = peer_of s q"
  "peer_of (fst (start_rejected e s)) q = peer_of s q"
  "peer_of (fst (stop_result p r s)) q = peer_of s q"
  by (auto simp: start_result_def start_rejected_def stop_result_def peer_of_def Let_def
      split: peer_label.split option.split)

lemma peer_report_frame:
  "peer_of (fst (peer_report env p x s)) p = peer_of s p"
  "ps_http (peer_of (fst (peer_report env p x s)) (other p)) = ps_http (peer_of s (other p))"
  "ps_ping (peer_of (fst (peer_report env p x s)) (other p)) =
     fold updateAuthDetails (emitted_by x) (ps_ping (peer_of s (other p)))"
  by (cases x; simp add: peer_report_def to_other_def peer_step_def updatePingAuthDetails_def Let_def)+

lemma peer_reports_frame:
  "peer_of (fst (do_all (peer_report env p) xs s)) p = peer_of s p"
  "ps_http (peer_of (fst (do_all (peer_report env p) xs s)) (other p)) = ps_http (peer_of s (other p))"
  "ps_ping (peer_of (fst (do_all (peer_report env p) xs s)) (other p)) =
     fold updateAuthDetails (emitted xs) (ps_ping (peer_of s (other p)))"
  by (induction xs arbitrary: s) (simp_all add: peer_report_frame)

lemma peer_turn_http:
  "ps_http (peer_of (fst (peer_turn env p e s)) p) =
     ps_http (fst (peer_step (peer_env_of env p) (peer_of s p) e))"
  "ps_http (peer_of (fst (peer_turn env p e s)) (other p)) = ps_http (peer_of s (other p))"
  by (simp_all add: peer_turn_def Let_def peer_reports_frame)

lemma peer_start_http: "ps_http (fst (peer_step env s PeerStart)) = ps_http s"
  by (simp add: peer_step_def peer_ops)

text \<open>
  Peer \<open>p\<close> and the ping service of its sibling agree: on the certificates, and on the token
  unless the server has lost its own.
\<close>

definition agrees :: "string \<times> js option \<Rightarrow> PingService \<Rightarrow> bool" where
  "agrees v g \<longleftrightarrow> mTlsCreds g = snd v \<and> (fst v = [] \<or> ps_accessToken g = fst v)"

lemma agrees_event: "agrees v g \<Longrightarrow> agrees (view_after e v) (updateAuthDetails e g)"
  using ping_sink.token_consume [of e g] ping_sink.certs_consume [of e g]
  by (auto simp: agrees_def view_after_def accepted_token_def split: option.split)

lemma agrees_events: "agrees v g \<Longrightarrow> agrees (fold view_after es v) (fold updateAuthDetails es g)"
  by (induction es arbitrary: v g) (simp_all add: agrees_event)

definition mirrored :: "peer_label \<Rightarrow> Adapter \<Rightarrow> bool" where
  "mirrored p s \<longleftrightarrow>
     (hs_listening (ps_http (peer_of s p)) \<longrightarrow>
        agrees (server_view (ps_http (peer_of s p))) (ps_ping (peer_of s (other p))))"

lemma peer_turn_mirrored_self:
  assumes "mirrored p s" and "\<forall>d. e \<noteq> PeerPingDetails d"
  shows "mirrored p (fst (peer_turn env p e s))"
proof -
  let ?q = "peer_step (peer_env_of env p) (peer_of s p) e"
  have "tells (peer_of s p) (fst ?q) (snd ?q)" using assms(2) by (rule tells_peer_step)
  then show ?thesis
    using assms(1)
    by (auto simp: mirrored_def peer_turn_def Let_def peer_reports_frame tells_def agrees_events)
qed

lemma peer_turn_mirrored_other:
  assumes "mirrored (other p) s" and "\<forall>d. e \<noteq> PeerPingDetails d"
  shows "mirrored (other p) (fst (peer_turn env p e s))"
proof -
  let ?q = "peer_step (peer_env_of env p) (peer_of s p) e"
  have "ps_ping (fst ?q) = ps_ping (peer_of s p)"
    using tells_peer_step [OF assms(2), of "peer_of s p" "peer_env_of env p"] by (simp add: tells_def)
  then show ?thesis
    using assms(1) by (simp add: mirrored_def peer_turn_def Let_def peer_reports_frame)
qed

lemma peer_turn_mirrored:
  assumes "\<forall>p. mirrored p s" and "\<forall>d. e \<noteq> PeerPingDetails d"
  shows "mirrored p (fst (peer_turn env q e s))"
  using assms peer_turn_mirrored_self [of q s e env] peer_turn_mirrored_other [of q s e env]
  by (cases p; cases q; simp)

lemma adapter_step_mirrored:
  assumes "\<forall>p. mirrored p s"
  shows "mirrored p (fst (adapter_step env s e))"
proof (cases e)
  case (OfPeer q a)
  then show ?thesis
    using assms peer_turn_mirrored [of s a p env q] by (cases a) (simp_all add: adapter_step_def)
qed (use assms in \<open>simp_all add: adapter_step_def adapter_start_def adapter_stop_def peer_turn_mirrored\<close>)

lemma reachable_mirrored: "reachable env s \<Longrightarrow> \<forall>p. mirrored p s"
proof (induction rule: reachable.induct)
  case created
  show ?case
    by (simp add: mirrored_def agrees_def server_view_def server_certs_def createProxyAdapter_def
        peer_of_def createPeerServer_def http_init_def ping_init_def split: peer_label.split)
next
  case (moves s t)
  then obtain e where "t = fst (adapter_step env s e)"
    by (metis adapter_trans_iff fst_conv)
  then show ?case using adapter_step_mirrored [OF moves.IH] by blast
qed

text \<open>
  C1. The ping callbacks of a peer use the credentials of the hub they go to. In every
  reachable state of the adapter, as long as a peer's server is not stopped, the ping service
  of its sibling has exactly the certificates that the server has, and, unless the server
  holds the empty token of a failed refresh, exactly its token.
\<close>

theorem ping_uses_server_credentials:
  assumes "reachable env s" and "hs_listening (ps_http (peer_of s p))"
  shows "mTlsCreds (ps_ping (peer_of s (other p))) = server_certs (ps_http (peer_of s p))
       \<and> (accessToken (hs_state (ps_http (peer_of s p))) \<noteq> [] \<longrightarrow>
            ps_accessToken (ps_ping (peer_of s (other p))) = accessToken (hs_state (ps_http (peer_of s p))))"
  using reachable_mirrored [OF assms(1)] assms(2)
  by (auto simp: mirrored_def agrees_def server_view_def)

definition sample_adapter_env :: adapter_env where
  "sample_adapter_env = \<lparr> ad_app = sample_app, ad_codec = sample_codec \<rparr>"

theorem ping_uses_server_credentials_witness:
  "let s = fst (exec (adapter_step sample_adapter_env) (createProxyAdapter (ad_app sample_adapter_env)) [AdapterStart]) in
     mTlsCreds (ps_ping (peer_of s PeerB)) = server_certs (ps_http (peer_of s PeerA))"
proof -
  let ?s = "fst (exec (adapter_step sample_adapter_env) (createProxyAdapter (ad_app sample_adapter_env)) [AdapterStart])"
  have r: "reachable sample_adapter_env ?s" by (rule exec_reachable) (rule created)
  have l: "hs_listening (ps_http (peer_of ?s PeerA))"
    using peer_turn_http(2) [where p = PeerB and env = sample_adapter_env]
    by (simp add: adapter_step_def adapter_start_def peer_turn_http peer_start_http Let_def)
       (simp add: createProxyAdapter_def createPeerServer_def peer_of_def http_init_def)
  show ?thesis
    using ping_uses_server_credentials [OF r l] by (simp add: Let_def)
qed

section \<open>Peer JWS notifications\<close>

lemma jws_message:
  assumes "deserialise text = Some msg"
    and "opt_getp (Some msg) ''msg'' = Some (JStr (message_str PEER_JWS))"
    and "opt_getp (Some msg) ''verb'' = Some (JStr (verb_str NOTIFY))"
    and "ca_hasCallbacks a" and "receivers_on k a = []"
  shows "ca_step cd a (SockMessage k text) = (a, [OnPeerJWS (opt_getp (Some msg) ''data'')])"
proof -
  obtain ps where "msg = JObj ps" using assms(2) by (cases msg) auto
  then show ?thesis
    using assms
    by (simp add: ca_step_def on_message_def ca_handle_def handle_message_def handle_peer_jws_def
        is_uncaught_def then_do_def Let_def)
qed

lemma set_same_peer [simp]: "set_peer p (peer_of s p) s = s"
  by (cases p) (simp_all add: set_peer_def peer_of_def)

lemma jws_turn:
  assumes "deserialise text = Some msg"
    and "opt_getp (Some msg) ''msg'' = Some (JStr (message_str PEER_JWS))"
    and "opt_getp (Some msg) ''verb'' = Some (JStr (verb_str NOTIFY))"
    and "ca_hasCallbacks (ps_agent (peer_of s p))" and "receivers_on k (ps_agent (peer_of s p)) = []"
    and "jws_listener (peer_of s p)"
  shows "snd (adapter_step env s (OfPeer p (PeerAgent (SockMessage k text)))) =
      PeerOut p (EmitPeerJWS (opt_getp (Some msg) ''data'')) #
      (let t = peer_of s (other p); a = ps_agent t in
       if \<not> isReady t then [PeerOut (other p) (Propagated False)]
       else (if ws_open a
             then [PeerOut (other p) (AgentOut (WsSend (the (ca_ws a))
                    (build_PEER_JWS_NOTIFY (cd_stringify (ad_codec env)) (cd_slug (ad_codec env) (ca_slugs a))
                      (opt_getp (Some msg) ''data'') None)))]
             else []) @ [PeerOut (other p) (Propagated True)])
    \<and> peer_of (fst (adapter_step env s (OfPeer p (PeerAgent (SockMessage k text))))) p = peer_of s p"
proof -
  have c: "env_codec (peer_env_of env q) = ad_codec env" for q
    by (simp add: peer_env_of_def)
  have "peer_step (peer_env_of env p) (peer_of s p) (PeerAgent (SockMessage k text)) =
      (peer_of s p, [EmitPeerJWS (opt_getp (Some msg) ''data'')])"
    using assms(6) jws_message [OF assms(1-5)]
    by (simp add: peer_step_def agent_event_def agent_turn_def c agent_report_def agent_effect_def
        emitPeerJWSEvent_def then_do_def Let_def)
  then show ?thesis
    by (simp add: adapter_step_def peer_turn_def peer_report_def to_other_def then_do_def Let_def
        peer_step_def [where e = "PeerPropagate _" for x] propagatePeerJWSEvent_def c sendPeerJWS_def send_built_out)
qed

text \<open>
  C11. A JWS notification of one hub goes to the other hub. Suppose that the control agent of peer \<open>p\<close> has
  its callbacks, that none of its calls of \<open>receive\<close> waits on the socket (no \<^verbatim>\<open>loadCerts\<close> is waiting for its answer,
  which would take the notification for it and fail), and that the adapter still listens to the peer (no \<^verbatim>\<open>stop\<close>
  was called). When then the hub of \<open>p\<close> sends a \<^verbatim>\<open>PEER_JWS\<close> notification, the other peer, if it is ready and its
  websocket open, sends one \<^verbatim>\<open>PEER_JWS\<close> notification with the same data to its own hub, in the same turn; if it is not
  ready the notification is dropped; if it is ready with a closed websocket, nothing is sent
  although the result is \<^verbatim>\<open>true\<close>. Peer \<open>p\<close> itself sends nothing and its state does not change.
\<close>

theorem jws_reaches_other_hub:
  assumes "deserialise text = Some msg"
    and "opt_getp (Some msg) ''msg'' = Some (JStr (message_str PEER_JWS))"
    and "opt_getp (Some msg) ''verb'' = Some (JStr (verb_str NOTIFY))"
    and "ca_hasCallbacks (ps_agent (peer_of s p))" and "receivers_on k (ps_agent (peer_of s p)) = []"
    and "jws_listener (peer_of s p)"
  shows "snd (adapter_step env s (OfPeer p (PeerAgent (SockMessage k text)))) =
      PeerOut p (EmitPeerJWS (opt_getp (Some msg) ''data'')) #
      (let t = peer_of s (other p); a = ps_agent t in
       if \<not> isReady t then [PeerOut (other p) (Propagated False)]
       else (if ws_open a
             then [PeerOut (other p) (AgentOut (WsSend (the (ca_ws a))
                    (build_PEER_JWS_NOTIFY (cd_stringify (ad_codec env)) (cd_slug (ad_codec env) (ca_slugs a))
                      (opt_getp (Some msg) ''data'') None)))]
             else []) @ [PeerOut (other p) (Propagated True)])
    \<and> peer_of (fst (adapter_step env s (OfPeer p (PeerAgent (SockMessage k text))))) p = peer_of s p"
  by (rule jws_turn [OF assms])

definition jws_adapter :: Adapter where
  "jws_adapter =
     (let peer = (createPeerServer sample_cfg)\<lparr> isReady := True,
            ps_agent := fst (exec (ca_step sample_codec) sample_agent [CallInit, SockOpen 0]) \<rparr>
      in (createProxyAdapter sample_app)\<lparr> peerA := peer, peerB := peer \<rparr>)"

lemma jws_adapter_peers:
  "isReady (peer_of jws_adapter p)" "jws_listener (peer_of jws_adapter p)"
  "ps_agent (peer_of jws_adapter p) = fst (exec (ca_step sample_codec) sample_agent [CallInit, SockOpen 0])"
  by (cases p; simp add: jws_adapter_def peer_of_def createPeerServer_def Let_def del: exec.simps)+

theorem jws_reaches_other_hub_witness:
  "\<exists>text. snd (adapter_step \<lparr> ad_app = sample_app, ad_codec = sample_codec \<rparr> jws_adapter
        (OfPeer PeerA (PeerAgent (SockMessage 0 jws_text)))) =
      [PeerOut PeerA (EmitPeerJWS (Some (JArr [JStr ''key'']))),
       PeerOut PeerB (AgentOut (WsSend 0 text)), PeerOut PeerB (Propagated True)]"
  using jws_reaches_other_hub [of jws_text sample_jws jws_adapter PeerA 0
      "\<lparr> ad_app = sample_app, ad_codec = sample_codec \<rparr>"]
  by (simp add: jws_adapter_peers ca_ops ws_open_def sock_state_def receivers_on_def)

section \<open>Each peer runs on its own\<close>

text \<open>A listener changes of the other peer only its ping service and its count of slugs.\<close>

definition only_told :: "PeerServer \<Rightarrow> PeerServer \<Rightarrow> bool" where
  "only_told s t \<longleftrightarrow>
     (\<exists>g n. t = s\<lparr> ps_ping := g, ps_agent := (ps_agent s)\<lparr> ca_slugs := n \<rparr> \<rparr>)"

lemma only_told_refl [simp]: "only_told s s"
  unfolding only_told_def by (intro exI [of _ "ps_ping s"] exI [of _ "ca_slugs (ps_agent s)"]) simp

lemma only_told_trans: "only_told s t \<Longrightarrow> only_told t u \<Longrightarrow> only_told s u"
proof -
  assume "only_told s t" and "only_told t u"
  then obtain g n where "u = s\<lparr> ps_ping := g, ps_agent := (ps_agent s)\<lparr> ca_slugs := n \<rparr> \<rparr>"
    by (auto simp: only_told_def)
  then show "only_told s u" unfolding only_told_def by blast
qed

lemma only_told_ping [simp]: "only_told s (s\<lparr> ps_ping := g \<rparr>)"
  unfolding only_told_def by (intro exI [of _ g] exI [of _ "ca_slugs (ps_agent s)"]) simp

lemma only_told_propagate [simp]: "only_told s (fst (propagatePeerJWSEvent env d s))"
proof (cases "isReady s")
  case True
  then show ?thesis
    unfolding only_told_def
    by (intro exI [of _ "ps_ping s"] exI [of _ "Suc (ca_slugs (ps_agent s))"])
       (simp add: propagatePeerJWSEvent_def sendPeerJWS_def send_built_state Let_def)
qed (simp add: propagatePeerJWSEvent_def)

lemma only_told_report:
  "only_told (peer_of s (other p)) (peer_of (fst (peer_report env p x s)) (other p))"
  by (cases x)
     (simp_all add: peer_report_def to_other_def peer_step_def updatePingAuthDetails_def Let_def)

lemma only_told_reports:
  "only_told (peer_of s (other p)) (peer_of (fst (do_all (peer_report env p) xs s)) (other p))"
proof (induction xs arbitrary: s)
  case (Cons x xs)
  show ?case using only_told_trans [OF only_told_report Cons.IH] by simp
qed simp

text \<open>
  A peer is isolated from the other's failures. Whatever happens at peer \<open>p\<close> (errors,
  disconnections, retries, timeouts), a step of it changes of the other peer nothing but the
  credentials of its ping service and the count of the message ids it has used: its readiness,
  its server, its timers, its connection and its start go on untouched.
\<close>

theorem peers_are_isolated:
  "\<exists>g n. peer_of (fst (adapter_step env s (OfPeer p e))) (other p) =
     (peer_of s (other p))\<lparr> ps_ping := g, ps_agent := (ps_agent (peer_of s (other p)))\<lparr> ca_slugs := n \<rparr> \<rparr>"
proof -
  have "only_told (peer_of s (other p)) (peer_of (fst (adapter_step env s (OfPeer p e))) (other p))"
    using only_told_reports [of "set_peer p (fst (peer_step (peer_env_of env p) (peer_of s p) e)) s" p env]
    by (simp add: adapter_step_def peer_turn_def Let_def)
  then show ?thesis unfolding only_told_def .
qed

text \<open>What the other peer outputs in a turn of peer \<open>p\<close>.\<close>

fun propagation :: "adapter_out \<Rightarrow> bool" where
  "propagation (PeerOut p (Propagated b)) = True"
| "propagation _ = False"

fun jws_emission :: "adapter_out \<Rightarrow> bool" where
  "jws_emission (PeerOut p (EmitPeerJWS d)) = True"
| "jws_emission _ = False"

fun reply_of :: "peer_label \<Rightarrow> adapter_out \<Rightarrow> bool" where
  "reply_of q (PeerOut p x) = (p = q \<longrightarrow> (case x of AgentOut (WsSend k t) \<Rightarrow> True | Propagated b \<Rightarrow> True | _ \<Rightarrow> False))"
| "reply_of q _ = True"

lemma propagate_replies:
  "x \<in> set (snd (propagatePeerJWSEvent env d s)) \<Longrightarrow> (\<exists>k t. x = AgentOut (WsSend k t)) \<or> (\<exists>b. x = Propagated b)"
  by (auto simp: propagatePeerJWSEvent_def sendPeerJWS_def send_built_out Let_def split: if_splits)

lemma propagate_once:
  "length (filter propagation (map (PeerOut q) (snd (propagatePeerJWSEvent env d s)))) = 1"
  by (auto simp: propagatePeerJWSEvent_def sendPeerJWS_def send_built_out Let_def)

lemma no_propagation_results [simp]:
  "filter propagation (snd (start_result p ok s)) = []"
  "filter propagation (snd (start_rejected e s)) = []"
  "filter propagation (snd (stop_result p r s)) = []"
  by (auto simp: start_result_def start_rejected_def stop_result_def Let_def split: option.split)

lemma own_turn_no_propagation:
  assumes "\<not> adapter_call e"
  shows "filter propagation (map (PeerOut p) (snd (peer_step env s e))) = []"
proof -
  have "no_propagated s (fst (peer_step env s e)) (snd (peer_step env s e))"
    using assms by (intro no_propagated.peer_step_rel) auto
  then have "Propagated b \<notin> set (snd (peer_step env s e))" for b
    by (cases b) (simp_all add: no_propagated_def)
  then have "\<not> propagation (PeerOut p x)" if "x \<in> set (snd (peer_step env s e))" for x
    using that by (cases x) auto
  then show ?thesis by (auto simp: filter_empty_conv)
qed

lemma report_counts:
  assumes "\<not> propagation (PeerOut p x)"
  shows "length (filter propagation (snd (peer_report env p x s))) =
           length (filter jws_emission (snd (peer_report env p x s)))
       \<and> list_all (reply_of (other p)) (snd (peer_report env p x s))"
proof (cases x)
  case (EmitPeerJWS d)
  have emits: "filter jws_emission (map (PeerOut q) (snd (propagatePeerJWSEvent env' d t))) = []" for q env' t
    by (auto simp: filter_empty_conv dest!: propagate_replies)
  have replies: "list_all (reply_of (other p)) (map (PeerOut (other p)) (snd (propagatePeerJWSEvent env' d t)))" for env' t
    by (auto simp: list_all_iff dest!: propagate_replies)
  show ?thesis
    using EmitPeerJWS emits replies
    by (simp add: peer_report_def to_other_def peer_step_def propagate_once Let_def del: filter_map length_filter_map)
qed (use assms in \<open>auto simp: peer_report_def to_other_def peer_step_def start_result_def start_rejected_def
       stop_result_def Let_def split: option.split\<close>)

lemma reports_count:
  assumes "filter propagation (map (PeerOut p) xs) = []"
  shows "length (filter propagation (snd (do_all (peer_report env p) xs s))) =
           length (filter jws_emission (snd (do_all (peer_report env p) xs s)))
       \<and> list_all (reply_of (other p)) (snd (do_all (peer_report env p) xs s))"
  using assms
proof (induction xs arbitrary: s)
  case (Cons x xs)
  then have "\<not> propagation (PeerOut p x)" and "filter propagation (map (PeerOut p) xs) = []"
    by (auto simp del: filter_map length_filter_map split: if_splits)
  then show ?case using report_counts [of p x env s] Cons.IH [of "fst (peer_report env p x s)"] by simp
qed simp

text \<open>
  C17. JWS notifications do not echo between the hubs. In any step of a peer, the adapter
  propagates exactly as many notifications to the other peer as this peer emitted, and all
  that the other peer does in the step is to send them over its websocket; it emits nothing
  that would come back.
\<close>

theorem jws_never_echoes:
  "length (filter propagation (snd (adapter_step env s (OfPeer p e)))) =
     length (filter jws_emission (snd (adapter_step env s (OfPeer p e))))
   \<and> list_all (reply_of (other p)) (snd (adapter_step env s (OfPeer p e)))"
  using reports_count [OF own_turn_no_propagation]
  by (cases "adapter_call e") (simp_all add: adapter_step_def peer_turn_def Let_def)

end
