(* ===== verification/Logging_Plugin.thy ===== *)
theory Logging_Plugin
  imports Prelude Dto
begin

text \<open>
  \<^verbatim>\<open>src/infra/httpServer/plugins/loggingPlugin.ts\<close>: the log lines of a request and of its
  response. The environment, the log level, the random id and the clock are arguments.
\<close>

section \<open>Settings\<close>

definition INTERNAL_ROUTES :: "string option \<Rightarrow> string list" where
  "INTERNAL_ROUTES env =
     (if truthy_str env then split_on (CHR '','') (the env) else [''/health'', ''/metrics'', ''/live''])"

definition TRACE_ID_HEADER :: "string option \<Rightarrow> string" where
  "TRACE_ID_HEADER env = (case env of None \<Rightarrow> ''traceid'' | Some h \<Rightarrow> h)"

record log_env =
  LOG_INTERNAL_ROUTES :: "string option"
  LOG_TRACE_ID_HEADER :: "string option"
  isInfoEnabled :: bool

definition shouldLog :: "log_env \<Rightarrow> string \<Rightarrow> bool" where
  "shouldLog env path \<longleftrightarrow> isInfoEnabled env \<and> path \<notin> set (INTERNAL_ROUTES (LOG_INTERNAL_ROUTES env))"

section \<open>The two extensions\<close>

record hapi_info =
  info_id :: string
  info_remoteAddress :: string
  info_received :: int

record hapi_request =
  hq_path :: string
  hq_method :: string
  hq_headers :: "(string \<times> string) list"
  hq_info :: hapi_info

record log_context =
  cx_requestId :: string
  cx_remoteAddress :: string
  cx_path :: string
  cx_method :: string
  cx_received :: int

definition upper_char :: "char \<Rightarrow> char" where
  "upper_char c = (let n = of_char c :: nat in if 97 \<le> n \<and> n \<le> 122 then char_of (n - 32) else c)"

definition upper :: "string \<Rightarrow> string" where
  "upper s = map upper_char s"

text \<open>
  The header of the trace id, when it is there and not empty (Node's header names are in lower
  case, the lookup takes the configured name as it is), else a random id.
\<close>

definition request_context :: "log_env \<Rightarrow> string \<Rightarrow> hapi_request \<Rightarrow> log_context" where
  "request_context env uuid req =
     (let trace = oget (hq_headers req) (TRACE_ID_HEADER (LOG_TRACE_ID_HEADER env)) in
      \<lparr> cx_requestId = info_id (hq_info req) @ ''__'' @ (if truthy_str trace then the trace else uuid),
        cx_remoteAddress = info_remoteAddress (hq_info req),
        cx_path = hq_path req, cx_method = hq_method req, cx_received = info_received (hq_info req) \<rparr>)"

datatype log_line = InfoLine string log_context

definition onRequest :: "log_env \<Rightarrow> string \<Rightarrow> hapi_request \<Rightarrow> log_context \<times> log_line list" where
  "onRequest env uuid req =
     (let context = request_context env uuid req in
      (context,
       if shouldLog env (hq_path req)
       then [InfoLine (''[==> req] '' @ upper (hq_method req) @ '' '' @ hq_path req) context] else []))"

text \<open>\<^verbatim>\<open>(ms / 1000).toFixed(3)\<close> of a whole number of milliseconds.\<close>

definition seconds_fixed3 :: "int \<Rightarrow> string" where
  "seconds_fixed3 ms =
     (let n = nat \<bar>ms\<bar>; f = n mod 1000 in
      (if ms < 0 then ''-'' else []) @ show_nat (n div 1000) @ ''.''
        @ (if f < 10 then ''00'' else if f < 100 then ''0'' else []) @ show_nat f)"

text \<open>A response, or a Boom error with the status of its output.\<close>

datatype hapi_reply = ReplyError int | ReplyResponse int

fun reply_status :: "hapi_reply \<Rightarrow> int" where
  "reply_status (ReplyError s) = s"
| "reply_status (ReplyResponse s) = s"

definition onPreResponse :: "log_env \<Rightarrow> int \<Rightarrow> hapi_request \<Rightarrow> hapi_reply \<Rightarrow> log_context \<Rightarrow> log_line list" where
  "onPreResponse env now req reply context =
     (if shouldLog env (hq_path req)
      then [InfoLine (''[<== '' @ show_int (reply_status reply) @ ''][''
              @ seconds_fixed3 (now - cx_received context) @ '' s] ''
              @ upper (hq_method req) @ '' '' @ hq_path req) context]
      else [])"

section \<open>What is logged\<close>

text \<open>
  The access log names exactly the routes that are not internal. For every request, either
  both its lines are written (with info logging on and a path that is not internal) and carry
  the same context, whose id starts with the id of the request, or none is; and a configured
  list of internal routes is read exactly: its entries have no comma and joined by commas
  give the setting back.
\<close>

theorem request_log_lines:
  "let (context, before) = onRequest env uuid req;
       after = onPreResponse env now req reply context
   in (if isInfoEnabled env \<and> hq_path req \<notin> set (INTERNAL_ROUTES (LOG_INTERNAL_ROUTES env))
       then \<exists>l m. before = [InfoLine l context] \<and> after = [InfoLine m context]
       else before = [] \<and> after = [])
      \<and> take (length (info_id (hq_info req))) (cx_requestId context) = info_id (hq_info req)
      \<and> (case LOG_INTERNAL_ROUTES env of
           None \<Rightarrow> INTERNAL_ROUTES (LOG_INTERNAL_ROUTES env) = [''/health'', ''/metrics'', ''/live'']
         | Some s \<Rightarrow> s = [] \<or> join_with (CHR '','') (INTERNAL_ROUTES (LOG_INTERNAL_ROUTES env)) = s
             \<and> list_all (\<lambda>r. CHR '','' \<notin> set r) (INTERNAL_ROUTES (LOG_INTERNAL_ROUTES env)))"
  by (auto simp: onRequest_def onPreResponse_def shouldLog_def request_context_def INTERNAL_ROUTES_def
      list_all_iff Let_def dest: split_no_sep split: option.split)

end
