(* ===== verification/Http_Routes.thy ===== *)
theory Http_Routes
  imports Peer_Runs Logging_Plugin
begin

text \<open>
  \<^verbatim>\<open>start\<close>, \<^verbatim>\<open>registerPlugins\<close> and \<^verbatim>\<open>registerRoutes\<close> of
  \<^verbatim>\<open>src/infra/httpServer/HttpServer.ts\<close>: the server as it is given to Hapi, and one request
  through the whole of it, from the logging plugin over the route that Hapi chooses to the handler
  and back. The choice of a route and what Hapi does before the handler runs (the decoding of the path,
  cookies, the limits and the parsing of the body) are Hapi's.
\<close>

section \<open>Plugins and routes\<close>

datatype hapi_plugin = LoggingPlugin

datatype route_handler = HealthHandler | PingHandler | ProxyHandler

text \<open>The options that the routes set; \<open>None\<close> leaves them to Hapi's defaults.\<close>

record payload_options =
  pl_output :: string
  pl_parse :: bool

record route =
  rt_method :: string
  rt_path :: string
  rt_handler :: route_handler
  rt_payload :: "payload_options option"
  rt_validate :: "(joi_object \<times> joi_object) option"

record hapi_server =
  hapi_config :: ServerConfig
  hapi_plugins :: "hapi_plugin list"
  hapi_routes :: "route list"
  hapi_started :: bool

definition createServer :: "ServerConfig \<Rightarrow> hapi_server" where
  "createServer cfg = \<lparr> hapi_config = cfg, hapi_plugins = [], hapi_routes = [], hapi_started = False \<rparr>"

definition registerPlugins :: "hapi_server \<Rightarrow> hapi_server" where
  "registerPlugins h = h\<lparr> hapi_plugins := hapi_plugins h @ [LoggingPlugin] \<rparr>"

definition registerRoutes :: "hapi_server \<Rightarrow> hapi_server" where
  "registerRoutes h =
     h\<lparr> hapi_routes := hapi_routes h @
          [\<lparr> rt_method = ''GET'', rt_path = ''/health'', rt_handler = HealthHandler,
              rt_payload = None, rt_validate = None \<rparr>,
           \<lparr> rt_method = ''POST'', rt_path = ''/ping'', rt_handler = PingHandler,
              rt_payload = None, rt_validate = Some (requiredHeadersSchema, pingPayloadSchema) \<rparr>,
           \<lparr> rt_method = ''*'', rt_path = ''/{any*}'', rt_handler = ProxyHandler,
              rt_payload = Some \<lparr> pl_output = ''data'', pl_parse = False \<rparr>, rt_validate = None \<rparr>] \<rparr>"

text \<open>\<^verbatim>\<open>start\<close>: the routes are complete before the server accepts a connection.\<close>

definition http_start :: "hapi_server \<Rightarrow> hapi_server \<times> bool" where
  "http_start h = ((registerRoutes (registerPlugins h))\<lparr> hapi_started := True \<rparr>, True)"

section \<open>One request\<close>

text \<open>
  What a request meets: the choice of the route; what Hapi does for that route before its handler,
  which gives the payload of the request (\<open>None\<close> is \<^verbatim>\<open>undefined\<close>, as for a GET) or the status with which
  Hapi answers itself (400, 408, 413, 415); the handler that \<^verbatim>\<open>start\<close> was given; and the
  arguments of the other routes.
\<close>

record request_env =
  re_pick :: "route list \<Rightarrow> string \<Rightarrow> string \<Rightarrow> route option"
  re_receive :: "route \<Rightarrow> hapi_request \<Rightarrow> js option \<Rightarrow> int + js option"
  re_proxy :: "IncomingRequestDetails \<Rightarrow> ServerState \<Rightarrow> HttpRequestOptions list \<times> ProxyHandlerResponse"
  re_joi :: joi
  re_ping_deps :: PingDeps
  re_pm4ml :: bool
  re_startTime :: string
  re_serviceName :: string
  re_log :: log_env
  re_uuid :: string
  re_now :: int

text \<open>A response with what was sent to others on the way, or an error that Hapi answers.\<close>

datatype http_answer =
    HealthAnswer HealthcheckState int
  | PingAnswer hapi_response "PutPing list"
  | ProxyAnswer hapi_response "HttpRequestOptions list"
  | HapiError int

fun answer_status :: "http_answer \<Rightarrow> int" where
  "answer_status (HealthAnswer h c) = c"
| "answer_status (PingAnswer r sent) = hr_code r"
| "answer_status (ProxyAnswer r sent) = hr_code r"
| "answer_status (HapiError c) = c"

fun answer_reply :: "http_answer \<Rightarrow> hapi_reply" where
  "answer_reply (HapiError c) = ReplyError c"
| "answer_reply a = ReplyResponse (answer_status a)"

text \<open>The details that the proxy route hands on.\<close>

definition request_details :: "hapi_request \<Rightarrow> string \<Rightarrow> js option \<Rightarrow> IncomingRequestDetails" where
  "request_details req search payload =
     \<lparr> url_pathname = hq_path req, url_search = search, req_method = hq_method req,
       req_headers = hq_headers req, req_payload = payload \<rparr>"

text \<open>A route takes a request: Hapi's own part first, then the handler with the payload it got.\<close>

definition run_handler ::
  "request_env \<Rightarrow> HttpServer \<Rightarrow> PingService \<Rightarrow> hapi_request \<Rightarrow> string \<Rightarrow> js option \<Rightarrow> route \<Rightarrow> http_answer" where
  "run_handler env s ping req search body r =
     (case re_receive env r req body of
        Inl status \<Rightarrow> HapiError status
      | Inr payload \<Rightarrow>
          (case rt_handler r of
             HealthHandler \<Rightarrow>
               (let h = health_route (re_pm4ml env) (re_startTime env) (re_serviceName env) s
                in HealthAnswer (fst h) (snd h))
           | PingHandler \<Rightarrow>
               (case ping_route (re_joi env) (rt_validate r) (re_ping_deps env) ping (hq_headers req) payload of
                  Inl e \<Rightarrow> HapiError 500
                | Inr (resp, sent) \<Rightarrow> PingAnswer resp sent)
           | ProxyHandler \<Rightarrow>
               (let q = proxy_route (re_proxy env) s (request_details req search payload)
                in ProxyAnswer (snd q) (fst q))))"

text \<open>A request through a started server: the answer and the lines of the request log.\<close>

definition serve ::
  "request_env \<Rightarrow> hapi_server \<Rightarrow> HttpServer \<Rightarrow> PingService \<Rightarrow> hapi_request \<Rightarrow> string \<Rightarrow> js option
     \<Rightarrow> (http_answer \<times> log_line list) option" where
  "serve env h s ping req search body =
     (if \<not> hapi_started h then None
      else
        (let logged = LoggingPlugin \<in> set (hapi_plugins h);
             context = request_context (re_log env) (re_uuid env) req;
             answer = (case re_pick env (hapi_routes h) (hq_method req) (hq_path req) of
                         None \<Rightarrow> HapiError 404
                       | Some r \<Rightarrow> run_handler env s ping req search body r)
         in Some (answer,
              if logged
              then snd (onRequest (re_log env) (re_uuid env) req)
                   @ onPreResponse (re_log env) (re_now env) req (answer_reply answer) context
              else [])))"

section \<open>Where requests go\<close>

text \<open>
  What Hapi documents of its router, on a table whose paths are literal but for one route of all
  methods and paths: the route with the method and the path of the request (a HEAD request also
  finds a GET route), else the route for everything.
\<close>

definition catch_all :: "route \<Rightarrow> bool" where
  "catch_all r \<longleftrightarrow> rt_method r = ''*'' \<and> rt_path r = ''/{any*}''"

definition literal_route :: "route \<Rightarrow> bool" where
  "literal_route r \<longleftrightarrow> rt_method r \<noteq> ''*'' \<and> CHR ''{'' \<notin> set (rt_path r)"

definition route_method :: "string \<Rightarrow> string" where
  "route_method m = (if m = ''head'' then ''get'' else m)"

definition literal_match :: "string \<Rightarrow> string \<Rightarrow> route \<Rightarrow> bool" where
  "literal_match m p r \<longleftrightarrow> literal_route r \<and> lower (rt_method r) = route_method m \<and> rt_path r = p"

definition hapi_router :: "(route list \<Rightarrow> string \<Rightarrow> string \<Rightarrow> route option) \<Rightarrow> bool" where
  "hapi_router pick \<longleftrightarrow>
     (\<forall>rs m p. list_all (\<lambda>r. literal_route r \<or> catch_all r) rs
        \<and> distinct (map (\<lambda>r. (rt_method r, rt_path r)) rs) \<longrightarrow>
        pick rs m p = (case find (literal_match m p) rs of Some r \<Rightarrow> Some r | None \<Rightarrow> find catch_all rs))"

text \<open>The handler that a request reaches in the table of the code.\<close>

definition handler_for :: "string \<Rightarrow> string \<Rightarrow> route_handler" where
  "handler_for m p =
     (if (m = ''get'' \<or> m = ''head'') \<and> p = ''/health'' then HealthHandler
      else if m = ''post'' \<and> p = ''/ping'' then PingHandler
      else ProxyHandler)"

definition started_server :: "ServerConfig \<Rightarrow> hapi_server" where
  "started_server cfg = fst (http_start (createServer cfg))"

lemma started_server_simps [simp]:
  "hapi_started (started_server cfg)" "hapi_plugins (started_server cfg) = [LoggingPlugin]"
  "hapi_routes (started_server cfg) = hapi_routes (registerRoutes (createServer cfg))"
  by (simp_all add: started_server_def http_start_def registerPlugins_def registerRoutes_def createServer_def)

lemma lower_methods [simp]: "lower ''GET'' = ''get''" "lower ''POST'' = ''post''"
  by code_simp+

lemma route_table:
  "list_all (\<lambda>r. literal_route r \<or> catch_all r) (hapi_routes (registerRoutes (createServer cfg)))"
  "distinct (map (\<lambda>r. (rt_method r, rt_path r)) (hapi_routes (registerRoutes (createServer cfg))))"
  by (simp_all add: registerRoutes_def createServer_def literal_route_def catch_all_def)

lemma picked_route:
  assumes "hapi_router pick"
  shows "\<exists>r. pick (hapi_routes (registerRoutes (createServer cfg))) m p = Some r
           \<and> r \<in> set (hapi_routes (registerRoutes (createServer cfg))) \<and> rt_handler r = handler_for m p"
  by (subst assms [unfolded hapi_router_def, rule_format, OF conjI [OF route_table]])
     (auto simp: registerRoutes_def createServer_def literal_route_def literal_match_def
       catch_all_def handler_for_def route_method_def)

lemma route_options:
  assumes "r \<in> set (hapi_routes (registerRoutes (createServer cfg)))"
  shows "rt_handler r = PingHandler \<Longrightarrow> rt_validate r = Some (requiredHeadersSchema, pingPayloadSchema)"
    and "rt_handler r = ProxyHandler \<Longrightarrow> rt_payload r = Some \<lparr> pl_output = ''data'', pl_parse = False \<rparr>"
  using assms by (auto simp: registerRoutes_def createServer_def)

lemma serve_started:
  assumes "hapi_router (re_pick env)"
  shows "\<exists>r ans. r \<in> set (hapi_routes (started_server cfg))
     \<and> rt_handler r = handler_for (hq_method req) (hq_path req)
     \<and> ans = run_handler env s ping req search body r
     \<and> serve env (started_server cfg) s ping req search body =
         Some (ans, snd (onRequest (re_log env) (re_uuid env) req)
            @ onPreResponse (re_log env) (re_now env) req (answer_reply ans)
                (request_context (re_log env) (re_uuid env) req))"
  using picked_route [OF assms(1), of cfg "hq_method req" "hq_path req"]
  by (auto simp: serve_def Let_def)

lemma log_of_request:
  assumes "shouldLog le (hq_path req)"
  shows "\<exists>rest. snd (onRequest le uuid req) @ onPreResponse le now req reply ctx =
    [InfoLine (''[==> req] '' @ upper (hq_method req) @ '' '' @ hq_path req) (request_context le uuid req),
     InfoLine (''[<== '' @ show_int (reply_status reply) @ '']'' @ rest) ctx]"
  using assms by (simp add: onRequest_def onPreResponse_def Let_def)

lemma reply_of_answer [simp]: "reply_status (answer_reply a) = answer_status a"
  by (cases a) simp_all

text \<open>
  What the answer to a request has to be, by the handler that gets it and the payload that Hapi
  gives to the handler.
\<close>

definition ping_answered :: "http_answer \<Rightarrow> js option \<Rightarrow> bool" where
  "ping_answered ans payload \<longleftrightarrow>
     ans = HapiError 500 \<and> payload = None
   \<or> (\<exists>resp sent. ans = PingAnswer resp sent
           \<and> (hr_code resp = 202 \<and> hr_body resp = None \<or>
                hr_code resp = 400 \<and> sent = [] \<and> (\<exists>msg. hr_body resp = Some (handleFailedValidation msg)))
           \<and> length sent \<le> 1
           \<and> (\<forall>p \<in> set sent. \<exists>rid. pp_requestId p = Some (JStr rid) \<and> requestId_regex rid))"

definition proxied_or_503 ::
  "bool \<Rightarrow> axios \<Rightarrow> ServerState \<Rightarrow> hapi_request \<Rightarrow> string \<Rightarrow> js option \<Rightarrow> http_answer \<Rightarrow> bool" where
  "proxied_or_503 pm4ml axios st req search payload ans \<longleftrightarrow>
     (if pm4ml \<and> (accessToken st = [] \<or> httpsAgent st = None)
      then \<exists>resp. ans = ProxyAnswer resp [] \<and> hr_code resp = 503
             \<and> hr_body resp = Some (JObj [(''errorInformation'',
                   JObj [(''errorCode'', JStr ''2003''),
                         (''errorDescription'', JStr ''Proxy Adapter is temporarily unavailable'')])])
      else \<exists>opts. ans = ProxyAnswer (prepareHapiResponse (snd (sendRequest axios opts))) [opts]
             \<and> opt_url opts = (if pm4ml then SCHEME_HTTPS else SCHEME_HTTP) @ ''://''
                  @ peerEndpoint st @ hq_path req @ search
             \<and> opt_method opts = hq_method req \<and> opt_data opts = payload
             \<and> opt_agent opts = httpsAgent st)"

lemma ping_answer:
  assumes joi: "\<And>sch v. re_joi env sch v = None \<Longrightarrow> joi_accepts sch v"
    and "re_receive env r req body = Inr payload" "rt_handler r = PingHandler"
    and "rt_validate r = Some (requiredHeadersSchema, pingPayloadSchema)"
  shows "ping_answered (run_handler env s ping req search body r) payload"
  using ping_route_outcomes [where joi = "re_joi env" and deps = "re_ping_deps env" and ping = ping
      and hs = "hq_headers req" and payload = payload, OF joi]
  by (auto simp: assms run_handler_def ping_answered_def split: sum.splits prod.splits)

lemma proxied_answer:
  assumes "re_proxy env = handleProxyRequest cleanup axios penv" "re_pm4ml env = pm4mlEnabled (env_app penv)"
    and "re_receive env r req body = Inr payload" "rt_handler r = ProxyHandler"
  shows "proxied_or_503 (re_pm4ml env) axios (hs_state s) req search payload (run_handler env s ping req search body r)"
  by (auto simp: assms run_handler_def proxied_or_503_def proxy_route_def handleProxyRequest_def sendProxyRequest_def
      hd_isReady_iff errorResponsePeerFailedToStartDto_def errorResponseDto_def proxy_options_def
      getProxyTarget_def request_details_def sendRequest_def prepareHapiResponse_def Let_def)

lemma handler_outcomes:
  assumes joi: "\<And>sch v. re_joi env sch v = None \<Longrightarrow> joi_accepts sch v"
    and peer: "re_proxy env = handleProxyRequest cleanup axios penv" "re_pm4ml env = pm4mlEnabled (env_app penv)"
    and r: "r \<in> set (hapi_routes (started_server cfg))"
    and ans: "ans = run_handler env s ping req search body r"
  shows "case re_receive env r req body of
      Inl status \<Rightarrow> ans = HapiError status
    | Inr payload \<Rightarrow>
        (case rt_handler r of
           HealthHandler \<Rightarrow>
             ans = HealthAnswer (heathCheck (re_pm4ml env) (re_startTime env) (re_serviceName env) s) 200
         | PingHandler \<Rightarrow> ping_answered ans payload
         | ProxyHandler \<Rightarrow> proxied_or_503 (re_pm4ml env) axios (hs_state s) req search payload ans)"
proof (cases "re_receive env r req body")
  case (Inl status)
  then show ?thesis by (simp add: ans run_handler_def)
next
  case (Inr payload)
  show ?thesis
  proof (cases "rt_handler r")
    case HealthHandler
    with Inr show ?thesis
      by (simp add: ans run_handler_def health_route_def heathCheck_def Let_def)
  next
    case PingHandler
    with Inr r show ?thesis
      by (simp add: ans ping_answer [OF joi] route_options(1))
  next
    case ProxyHandler
    with Inr show ?thesis
      by (simp add: ans proxied_answer [OF peer])
  qed
qed

text \<open>
  C9. The way of a request through a started server, if Hapi chooses routes as it documents and Joi
  accepts only what its schemas describe. GET and HEAD of \<^verbatim>\<open>/health\<close>, POST of \<^verbatim>\<open>/ping\<close> and every other
  method and path have a route each, the last one with the body unparsed. What Hapi rejects before the
  handler (a malformed path or cookie, a body that is too large, too slow, or of a wrong type) is answered by Hapi's own
  status, and nothing is sent. Else \<^verbatim>\<open>/health\<close> is answered 200, also by a peer that is not ready;
  \<^verbatim>\<open>/ping\<close> is answered 202, or 400 with error code 3100 and no callback, and at most one
  callback follows, for a request id of the right form, except that Hapi answers 500 if the payload is
  \<^verbatim>\<open>undefined\<close>, which the schema lets pass; everything else is proxied: a peer that is not
  ready answers 503 with error code 2003 and sends nothing, a ready one sends exactly one request, with the path, query
  and method of the client and the payload that Hapi read, and answers what came back. If the path is logged, the
  log has exactly two lines, and the second has the status of the answer.
\<close>

theorem every_request_is_served:
  assumes router: "hapi_router (re_pick env)"
    and joi: "\<And>sch v. re_joi env sch v = None \<Longrightarrow> joi_accepts sch v"
    and peer: "re_proxy env = handleProxyRequest cleanup axios penv" "re_pm4ml env = pm4mlEnabled (env_app penv)"
  shows "\<exists>r ans lines. serve env (started_server cfg) s ping req search body = Some (ans, lines)
    \<and> r \<in> set (hapi_routes (started_server cfg)) \<and> rt_handler r = handler_for (hq_method req) (hq_path req)
    \<and> (rt_handler r = ProxyHandler \<longrightarrow> rt_payload r = Some \<lparr> pl_output = ''data'', pl_parse = False \<rparr>)
    \<and> (case re_receive env r req body of
         Inl status \<Rightarrow> ans = HapiError status
       | Inr payload \<Rightarrow>
           (case rt_handler r of
              HealthHandler \<Rightarrow>
                ans = HealthAnswer (heathCheck (re_pm4ml env) (re_startTime env) (re_serviceName env) s) 200
            | PingHandler \<Rightarrow> ping_answered ans payload
            | ProxyHandler \<Rightarrow> proxied_or_503 (re_pm4ml env) axios (hs_state s) req search payload ans))
    \<and> (shouldLog (re_log env) (hq_path req) \<longrightarrow>
         (\<exists>ctx rest. lines =
            [InfoLine (''[==> req] '' @ upper (hq_method req) @ '' '' @ hq_path req) ctx,
             InfoLine (''[<== '' @ show_int (answer_status ans) @ '']'' @ rest) ctx]))"
proof -
  let ?ctx = "request_context (re_log env) (re_uuid env) req"
  obtain r ans where r: "r \<in> set (hapi_routes (started_server cfg))"
      "rt_handler r = handler_for (hq_method req) (hq_path req)"
    and ans: "ans = run_handler env s ping req search body r"
    and served: "serve env (started_server cfg) s ping req search body =
      Some (ans, snd (onRequest (re_log env) (re_uuid env) req)
        @ onPreResponse (re_log env) (re_now env) req (answer_reply ans) ?ctx)" (is "_ = Some (ans, ?lines)")
    using serve_started [OF router] by blast
  have log: "shouldLog (re_log env) (hq_path req) \<longrightarrow>
      (\<exists>ctx rest. ?lines =
         [InfoLine (''[==> req] '' @ upper (hq_method req) @ '' '' @ hq_path req) ctx,
          InfoLine (''[<== '' @ show_int (answer_status ans) @ '']'' @ rest) ctx])"
    using log_of_request [of "re_log env" req "re_uuid env" "re_now env" "answer_reply ans" ?ctx]
    unfolding reply_of_answer by blast
  have raw: "rt_handler r = ProxyHandler \<longrightarrow> rt_payload r = Some \<lparr> pl_output = ''data'', pl_parse = False \<rparr>"
    using route_options(2) [of r cfg] r(1) by simp
  show ?thesis
    by (intro exI conjI) (rule served, rule r(1), rule r(2), rule raw,
        rule handler_outcomes [OF joi peer r(1) ans], assumption, rule log)
qed

text \<open>A peer that is not ready, with a router that does what Hapi documents.\<close>

definition sample_requests :: request_env where
  "sample_requests =
     \<lparr> re_pick = (\<lambda>rs m p. case find (literal_match m p) rs of Some r \<Rightarrow> Some r | None \<Rightarrow> find catch_all rs),
       re_receive = (\<lambda>r req body. Inr body),
       re_proxy = handleProxyRequest (\<lambda>hs rm. hs) (\<lambda>_. Inl (ThrownError ''refused'')) sample_env,
       re_joi = (\<lambda>sch v. if joi_accepts sch v then None else Some ''invalid''),
       re_ping_deps = sample_ping_deps, re_pm4ml = pm4mlEnabled (env_app sample_env), re_startTime = [],
       re_serviceName = ''proxy'',
       re_log = \<lparr> LOG_INTERNAL_ROUTES = None, LOG_TRACE_ID_HEADER = None, isInfoEnabled = True \<rparr>,
       re_uuid = ''uuid'', re_now = 1250 \<rparr>"

definition sample_request :: hapi_request where
  "sample_request =
     \<lparr> hq_path = ''/parties'', hq_method = ''get'', hq_headers = [],
       hq_info = \<lparr> info_id = ''r1'', info_remoteAddress = ''dfsp'', info_received = 0 \<rparr> \<rparr>"

lemma sample_request_facts:
  "hapi_router (re_pick sample_requests)"
  "re_joi sample_requests sch v = None \<Longrightarrow> joi_accepts sch v"
  "re_proxy sample_requests = handleProxyRequest (\<lambda>hs rm. hs) (\<lambda>_. Inl (ThrownError ''refused'')) sample_env"
  "re_pm4ml sample_requests = pm4mlEnabled (env_app sample_env)"
  "shouldLog (re_log sample_requests) (hq_path sample_request)"
  "handler_for (hq_method sample_request) (hq_path sample_request) = ProxyHandler"
  by (simp_all add: sample_requests_def sample_request_def hapi_router_def shouldLog_def
      INTERNAL_ROUTES_def handler_for_def truthy_str_def split: if_splits)

theorem every_request_is_served_witness:
  "\<exists>resp lines. serve sample_requests (started_server (serverConfig sample_cfg)) (http_init ''hub'') ping_init sample_request [] None
       = Some (ProxyAnswer resp [], lines)
     \<and> hr_code resp = 503 \<and> length lines = 2"
proof -
  have receive: "re_receive sample_requests r req body = Inr body" for r req body
    by (simp add: sample_requests_def)
  have pm4ml: "pm4mlEnabled (env_app sample_env)" "accessToken (hs_state (http_init ''hub'')) = []"
    by simp_all
  show ?thesis
    using every_request_is_served [OF sample_request_facts(1-4), of "serverConfig sample_cfg"
        "http_init ''hub''" ping_init sample_request "[]" None] sample_request_facts(4-6) pm4ml
    by (fastforce simp: receive proxied_or_503_def)
qed

end
