(* ===== verification/Proxied_Requests.thy ===== *)
theory Proxied_Requests
  imports Adapter_Runs Http_Routes
begin

text \<open>
  What a request that is proxied in the middle of a run carries: the chain from the credentials
  that a peer's token client and management API report, over the state of its HTTP server, to the
  request that goes to the hub.
\<close>

section \<open>The endpoint of the hub\<close>

definition endpoint :: "PeerServer \<Rightarrow> string" where
  "endpoint s = peerEndpoint (hs_state (ps_http s))"

lemma http_emit_endpoint [simp]:
  "peerEndpoint (hs_state (fst (http_emit d h))) = peerEndpoint (hs_state h)"
  by (simp add: http_emit_def on_serverState_def reCreateHttpsAgent_def Let_def split: option.split)

interpretation endpoint: peer_contract "\<lambda>s t outs. endpoint t = endpoint s"
  by unfold_locales
     (simp_all add: endpoint_def emitServerStateEvent_def http_stopped_def http_stop_def
       shutdown_timer_def Let_def split: option.split)

section \<open>The server after a run\<close>

text \<open>The server takes events until \<^verbatim>\<open>stop\<close> returns.\<close>

interpretation listens: peer_contract
  "\<lambda>s t outs. hs_listening (ps_http s) \<longrightarrow> hs_listening (ps_http t) \<or> StopResolved True \<in> set outs"
  by unfold_locales
     (auto simp: emitServerStateEvent_def http_emit_def on_serverState_def reCreateHttpsAgent_def
       http_stopped_def shutdown_timer_def Let_def split: option.split)

lemma view_afters:
  "fold view_after es v = (last_accepted ev_accessToken (fst v) es, last_accepted accepted_certs (snd v) es)"
  by (induction es arbitrary: v) (simp_all add: view_after_def)

definition holds_reports :: "PeerServer \<Rightarrow> PeerServer \<Rightarrow> peer_out list \<Rightarrow> bool" where
  "holds_reports s t outs \<longleftrightarrow>
     endpoint t = endpoint s
     \<and> (hs_listening (ps_http s) \<and> StopResolved True \<notin> set outs \<longrightarrow>
          hs_listening (ps_http t)
          \<and> server_view (ps_http t) = fold view_after (emitted outs) (server_view (ps_http s)))"

lemma step_holds_reports: "holds_reports s (fst (peer_step env s e)) (snd (peer_step env s e))"
proof (cases "(\<exists>d. e = PeerPingDetails d) \<or> (\<exists>d. e = PeerPropagate d)")
  case True
  then show ?thesis
    by (cases "isReady s") (auto simp: peer_step_def holds_reports_def endpoint_def
        propagatePeerJWSEvent_def updatePingAuthDetails_def Let_def)
next
  case False
  then show ?thesis
    using tells_peer_step [where e = e and s = s and env = env] endpoint.peer_step_rel [where e = e and s = s and env = env]
      listens.peer_step_rel [where e = e and s = s and env = env]
    by (auto simp: tells_def holds_reports_def)
qed

lemma run_holds_reports:
  "holds_reports s (fst (exec (peer_step env) s es)) (snd (exec (peer_step env) s es))"
proof (induction es arbitrary: s)
  case Nil
  then show ?case by (simp add: holds_reports_def)
next
  case (Cons e es)
  then show ?case
    using step_holds_reports [where s = s and e = e and env = env] Cons.IH [of "fst (peer_step env s e)"]
    by (auto simp: holds_reports_def Let_def)
qed

lemma created_server [simp]:
  "endpoint (createPeerServer cfg) = cfg_peerEndpoint cfg"
  "server_view (ps_http (createPeerServer cfg)) = ([], None)" "hs_listening (ps_http (createPeerServer cfg))"
  by (simp_all add: endpoint_def server_view_def server_certs_def createPeerServer_def http_init_def)

lemma server_after_run:
  assumes "exec (peer_step env) (createPeerServer cfg) es = (s, outs)" and "StopResolved True \<notin> set outs"
  shows "peerEndpoint (hs_state (ps_http s)) = cfg_peerEndpoint cfg"
    and "accessToken (hs_state (ps_http s)) = last_accepted ev_accessToken [] (emitted outs)"
    and "server_certs (ps_http s) = last_accepted accepted_certs None (emitted outs)"
  using run_holds_reports [where s = "createPeerServer cfg" and env = env and es = es] assms
  by (simp_all add: holds_reports_def endpoint_def [of s] server_view_def [of "ps_http s"] view_afters)

section \<open>A proxied request\<close>

lemma served_by_proxy:
  assumes "serve renv h st ping req search body = Some (ProxyAnswer resp sent, lines)"
    and "re_proxy renv = handleProxyRequest cleanup axios env"
    and "opts \<in> set sent"
  shows "hd_isReady (serverStateToHealthcheckDetailsDto (pm4mlEnabled (env_app env)) (hs_state st))
       \<and> (\<exists>payload. opts = proxy_options
                   (getProxyTarget cleanup (env_app env) (request_details req search payload) (hs_state st))
                   (request_details req search payload) (hs_state st))"
  using assms
  by (auto simp: serve_def run_handler_def proxy_route_def handleProxyRequest_def sendProxyRequest_def
      sendRequest_def Let_def split: option.splits route_handler.splits if_splits sum.splits)

text \<open>
  C5. A proxied request carries what the hub gave last. In whatever run of a peer with PM4ML enabled
  a request arrives, as long as no \<^verbatim>\<open>stop\<close> of it has returned: if it is sent on at all, it goes by HTTPS
  to the endpoint that the peer is configured for, with the path and query of the client, with the
  last access token that the run passed on, which is not the empty one of a failed refresh, and
  through an agent made of the last certificates that the run passed on.
\<close>

theorem proxied_with_last_credentials:
  assumes run: "exec (peer_step env) (createPeerServer cfg) es = (s, outs)"
    and not_stopped: "StopResolved True \<notin> set outs"
    and proxy: "re_proxy renv = handleProxyRequest cleanup axios env" "pm4mlEnabled (env_app env)"
    and served: "serve renv h (ps_http s) (ps_ping s) req search payload = Some (ProxyAnswer resp sent, lines)"
    and sent: "opts \<in> set sent"
  shows "\<exists>token certs ag.
       last_accepted ev_accessToken [] (emitted outs) = token \<and> token \<noteq> []
     \<and> last_accepted accepted_certs None (emitted outs) = Some certs
     \<and> opt_agent opts = Some ag \<and> agent_certs ag = certs
     \<and> oget (opt_headers opts) AUTH_HEADER = Some (''Bearer '' @ token)
     \<and> opt_url opts = SCHEME_HTTPS @ ''://'' @ cfg_peerEndpoint cfg @ hq_path req @ search"
proof -
  let ?st = "hs_state (ps_http s)"
  obtain p where ready: "accessToken ?st \<noteq> []" "httpsAgent ?st \<noteq> None"
    and opts: "opts = proxy_options (getProxyTarget cleanup (env_app env) (request_details req search p) ?st)
        (request_details req search p) ?st"
    using served_by_proxy [OF served proxy(1) sent] proxy(2) by (auto simp: hd_isReady_iff)
  obtain ag where ag: "httpsAgent ?st = Some ag" using ready(2) by auto
  then have "server_certs (ps_http s) = Some (agent_certs ag)" by (simp add: server_certs_def)
  then show ?thesis
    using server_after_run [OF run not_stopped] ready(1) ag proxy(2)
    by (simp add: opts proxy_options_def target_headers_lookup)
       (simp add: getProxyTarget_def request_details_def)
qed

definition sample_run :: "peer_event list" where
  "sample_run =
     [PeerStart, PeerTokenResponse 0 sample_token, PeerAgent (SockOpen 0),
      PeerAgent (SockMessage 0 certs_text), PeerHttpStarted None]"

lemma sample_served:
  assumes "accessToken (hs_state st) \<noteq> []" and "httpsAgent (hs_state st) \<noteq> None"
  shows "\<exists>resp opts lines. serve sample_requests (started_server cfg) st ping sample_request [] None =
           Some (ProxyAnswer resp [opts], lines)"
proof -
  obtain r ans lines where r: "rt_handler r = ProxyHandler"
    and ans: "ans = run_handler sample_requests st ping sample_request [] None r"
      "serve sample_requests (started_server cfg) st ping sample_request [] None = Some (ans, lines)"
    using serve_started [OF sample_request_facts(1), of cfg sample_request st ping "[]" None]
      sample_request_facts(6) by auto
  have "re_receive sample_requests r sample_request None = Inr None"
    by (simp add: sample_requests_def)
  then show ?thesis
    using proxied_answer [OF sample_request_facts(3,4) _ r, of sample_request None None st "[]" ping] assms ans
    by (auto simp: proxied_or_503_def)
qed

theorem proxied_with_last_credentials_witness:
  "\<exists>s outs resp opts lines.
     exec (peer_step sample_env) (createPeerServer sample_cfg) sample_run = (s, outs)
   \<and> serve sample_requests (started_server (serverConfig sample_cfg)) (ps_http s) (ps_ping s) sample_request [] None
       = Some (ProxyAnswer resp [opts], lines)
   \<and> oget (opt_headers opts) AUTH_HEADER = Some ''Bearer tok''
   \<and> opt_url opts = ''https://hub-a:4001/parties''"
proof -
  obtain s outs where run: "exec (peer_step sample_env) (createPeerServer sample_cfg) sample_run = (s, outs)"
    and outs: "emitted outs = [token_event ''tok'', certs_event (JStr ''pem''), certs_event (JStr ''pem'')]"
      "StopResolved True \<notin> set outs"
    and ready: "accessToken (hs_state (ps_http s)) = ''tok''" "httpsAgent (hs_state (ps_http s)) \<noteq> None"
    using start_turns [of sample_env sample_token "''tok''" 300 certs_text sample_certs "JStr ''pem''"]
    by (fastforce simp: sample_run_def server_certs_def)
  have "accessToken (hs_state (ps_http s)) \<noteq> []" using ready(1) by simp
  then obtain resp opts lines where served: "serve sample_requests (started_server (serverConfig sample_cfg))
      (ps_http s) (ps_ping s) sample_request [] None = Some (ProxyAnswer resp [opts], lines)"
    using sample_served ready(2) by blast
  have "oget (opt_headers opts) AUTH_HEADER = Some (''Bearer '' @ ''tok'')"
    and "opt_url opts = SCHEME_HTTPS @ ''://'' @ cfg_peerEndpoint sample_cfg @ hq_path sample_request @ []"
    using proxied_with_last_credentials [OF run outs(2) sample_request_facts(3) _ served, of opts] outs(1)
    by auto
  with run served show ?thesis
    by (auto simp: SCHEME_HTTPS_def sample_cfg_def sample_request_def)
qed

end
