(* ===== verification/Peer_Lifecycle.thy ===== *)
theory Peer_Lifecycle
  imports Peer_Runs
begin

text \<open>
  The life cycle of a peer as an abstract machine of four kinds of phases, and the proof that the
  peer server, with its token client, control agent, timers and interleaved stops, refines it.
\<close>

section \<open>The abstract life cycle\<close>

text \<open>
  A peer with PM4ML is idle, in an attempt to start (and waits for something), waiting for its
  retry, or running with the refresh loop of the JWS certificates.
\<close>

datatype peer_phase = Idle | Trying pm4ml_wait | RetryIn int | Running int

inductive life :: "peer_env \<Rightarrow> peer_event \<Rightarrow> peer_phase \<Rightarrow> peer_phase \<Rightarrow> bool" for env where
  life_start: "life env PeerStart Idle (Trying AwaitToken)"
| life_retry: "life env (PeerRetryTimer n) (RetryIn d) (Trying AwaitToken)"
| life_token: "getOidcToken r = OidcToken t k \<Longrightarrow> life env (PeerTokenResponse i r) (Trying AwaitToken) (Trying AwaitInit)"
| life_no_token:
    "getOidcToken r = OidcError e \<Longrightarrow>
       life env (PeerTokenResponse i r) (Trying AwaitToken) (Trying (AwaitClose (isDnsRelatedError e)))"
| life_still_open: "life env (PeerTokenResponse i r) (Trying AwaitInit) (Trying (AwaitClose False))"
| life_connected: "life env (PeerAgent (SockOpen k)) (Trying AwaitInit) (Trying AwaitCerts)"
| life_certs:
    "deserialise text = Some msg \<Longrightarrow> isCertsPayload msg \<Longrightarrow>
       life env (PeerAgent (SockMessage k text)) (Trying AwaitCerts)
         (Running (node_delay (checkPeerJwsInterval (env_app env))))"
| life_no_certs: "life env (PeerAgent a) (Trying AwaitCerts) (Trying (AwaitClose False))"
| life_closed: "life env (PeerAgent a) (Trying (AwaitClose dns)) (RetryIn (retry_delay env dns))"
| life_stop_retry: "life env PeerStop (RetryIn d) Idle"
| life_stop_loop: "life env PeerStop (Running d) Idle"

inductive_cases life_to_running: "life env e p (Running d)"

fun phase_from :: "pm4ml_wait option \<Rightarrow> (nat \<times> int) list \<Rightarrow> (nat \<times> int) list \<Rightarrow> peer_phase" where
  "phase_from (Some w) rs js = Trying w"
| "phase_from None (p # ps) js = RetryIn (snd p)"
| "phase_from None [] (p # ps) = Running (snd p)"
| "phase_from None [] [] = Idle"

definition phase_of_peer :: "PeerServer \<Rightarrow> peer_phase" where
  "phase_of_peer s = phase_from (ps_run s) (retry_armed s) (jws_armed s)"

lemma phase_components [simp]:
  "phase_of_peer (s\<lparr> ps_http := h \<rparr>) = phase_of_peer s"
  "phase_of_peer (s\<lparr> ps_auth := a \<rparr>) = phase_of_peer s"
  "phase_of_peer (s\<lparr> ps_agent := c \<rparr>) = phase_of_peer s"
  "phase_of_peer (s\<lparr> ps_ping := p \<rparr>) = phase_of_peer s"
  "phase_of_peer (s\<lparr> isReady := b \<rparr>) = phase_of_peer s"
  "phase_of_peer (s\<lparr> ps_start := q \<rparr>) = phase_of_peer s"
  "phase_of_peer (s\<lparr> stops_closing := m \<rparr>) = phase_of_peer s"
  "phase_of_peer (s\<lparr> stops_http := n \<rparr>) = phase_of_peer s"
  by (simp_all add: phase_of_peer_def)

text \<open>What an operation does to the phase, for a state in which attempts exclude each other.\<close>

lemma start_failed_phase [simp]: "phase_of_peer (fst (start_failed env e s)) = Trying (AwaitClose (isDnsRelatedError e))"
  by (simp add: peer_ops phase_of_peer_def)

lemma certs_loaded_phase:
  "attempt_inv s \<Longrightarrow> ps_run s \<noteq> None \<Longrightarrow>
     phase_of_peer (fst (certs_loaded env s)) = Running (node_delay (checkPeerJwsInterval (env_app env)))"
  by (auto simp: attempt_inv_def peer_ops phase_of_peer_def)

lemma retry_closed_phase:
  "attempt_inv s \<Longrightarrow> ps_run s \<noteq> None \<Longrightarrow> phase_of_peer (fst (retry_closed env dns s)) = RetryIn (retry_delay env dns)"
  by (auto simp: attempt_inv_def peer_ops phase_of_peer_def)

lemma stop_phase:
  assumes "attempt_inv s" and "pm4mlEnabled (env_app env)"
  shows "phase_of_peer (fst (peer_stop env s)) = (case phase_of_peer s of Trying w \<Rightarrow> Trying w | _ \<Rightarrow> Idle)"
  using assms
  by (cases "ps_run s"; cases "retry_armed s"; cases "jws_armed s")
     (auto simp: attempt_inv_def peer_ops phase_of_peer_def split: option.split)

section \<open>The control agent's reports\<close>

text \<open>
  In an event of the control agent: \<^verbatim>\<open>init\<close> resolves only when a socket opens, \<^verbatim>\<open>loadCerts\<close> only
  on a certificates message, and what it rejects with is never a DNS error.
\<close>

definition agent_report_ok :: "ca_event \<Rightarrow> ca_out \<Rightarrow> bool" where
  "agent_report_ok e x =
     (case x of
        InitResolved \<Rightarrow> \<exists>k. e = SockOpen k
      | InitRejected _ \<Rightarrow> False
      | LoadResolved _ \<Rightarrow> \<exists>k text msg. e = SockMessage k text \<and> deserialise text = Some msg \<and> isCertsPayload msg
      | LoadRejected err \<Rightarrow> \<not> isDnsRelatedError err
      | _ \<Rightarrow> True)"

lemma not_open_error_dns [simp]: "\<not> isDnsRelatedError (not_open_error s)"
  by (simp add: not_open_error_def)

lemma agent_report_okI:
  assumes "\<not> agent_call e" and "x \<in> set (snd (ca_step cd a e))"
  shows "agent_report_ok e x"
proof (cases x)
  case InitResolved
  then show ?thesis
    using assms
    by (cases e)
       (auto simp: agent_report_ok_def ca_ops send_built_out reject_load_def
         dest: on_message_not_init loadCerts_not_init ws_close_not_init
         split: option.splits awaiter.splits if_splits)
next
  case (InitRejected err)
  then show ?thesis
    using assms
    by (cases e)
       (auto simp: agent_report_ok_def ca_ops send_built_out reject_load_def
         dest: on_message_not_init loadCerts_not_init ws_close_not_init
         split: option.splits awaiter.splits if_splits)
next
  case (LoadResolved c)
  then show ?thesis using load_resolved_from assms(2) by (fastforce simp: agent_report_ok_def)
next
  case (LoadRejected err)
  have load: "\<not> isDnsRelatedError err" if "LoadRejected err \<in> set (reject_load w e')" "\<not> isDnsRelatedError e'" for w e'
    using that by (auto simp: reject_load_def split: awaiter.splits)
  have rec: "\<not> isDnsRelatedError err" if "LoadRejected err \<in> set (snd (loadCerts cd w b))" for w b
    using that by (auto simp: loadCerts_def send_built_out receive_def reject_load_def
        split: option.splits awaiter.splits if_splits)
  have msg: "\<not> isDnsRelatedError err" if "LoadRejected err \<in> set (snd (on_message cd k t b))" for k t b
    using that
    by (auto simp: on_message_def Let_def receiver_message_def loadCerts_resume_def on_cert_def
        resolve_load_def reject_load_def
        dest!: ca_handle_out_kinds call_receivers_out_kinds split: if_splits option.splits awaiter.splits)
  have no_close: "LoadRejected err \<notin> set (snd (ws_close b))" for b
    by (simp add: ws_close_def split: option.split)
  show ?thesis
    using assms LoadRejected rec msg no_close
    by (cases e)
       (auto simp: agent_report_ok_def ca_ops send_built_out reject_load_def
         split: option.splits awaiter.splits if_splits)
qed (simp_all add: agent_report_ok_def)

section \<open>The simulation\<close>

abbreviation lives :: "peer_env \<Rightarrow> peer_event \<Rightarrow> PeerServer \<Rightarrow> PeerServer \<Rightarrow> bool" where
  "lives env e s t \<equiv> (life env e)\<^sup>*\<^sup>* (phase_of_peer s) (phase_of_peer t)"

lemma lives_one: "life env e (phase_of_peer s) (phase_of_peer t) \<Longrightarrow> lives env e s t"
  by (rule r_into_rtranclp)

lemma do_all_lives:
  assumes "attempt_inv s"
    and "\<And>x t. x \<in> set xs \<Longrightarrow> attempt_inv t \<Longrightarrow> lives env e t (fst (f x t)) \<and> attempt_inv (fst (f x t))"
  shows "lives env e s (fst (do_all f xs s))"
  using assms
proof (induction xs arbitrary: s)
  case (Cons x xs)
  let ?t = "fst (f x s)"
  have "lives env e s ?t" and "attempt_inv ?t" using Cons.prems by simp_all
  moreover have "lives env e ?t (fst (do_all f xs ?t))"
    using Cons.prems calculation(2) by (intro Cons.IH) simp_all
  ultimately show ?case by (simp add: rtranclp_trans)
qed simp

lemma trying_phase: "ps_run s = Some w \<Longrightarrow> phase_of_peer s = Trying w"
  by (simp add: phase_of_peer_def)

lemma agent_effect_lives:
  assumes "attempt_inv s" and "agent_report_ok a x"
  shows "lives env (PeerAgent a) s (fst (agent_effect env x s))"
proof (cases x)
  case (LoadResolved c)
  then obtain k t msg where e: "a = SockMessage k t" "deserialise t = Some msg" "isCertsPayload msg"
    using assms(2) by (auto simp: agent_report_ok_def)
  show ?thesis
    using assms(1) LoadResolved e life_certs [OF e(2,3)]
    by (auto simp: agent_effect_def trying_phase certs_loaded_phase intro!: lives_one)
next
  case (LoadRejected err)
  then show ?thesis
    using assms by (auto simp: agent_report_ok_def agent_effect_def trying_phase intro!: lives_one life_no_certs)
next
  case (CloseResolved c ok)
  then show ?thesis
    using assms(1)
    by (auto simp: agent_effect_def stop_closed_def trying_phase retry_closed_phase
        split: closer.split option.split pm4ml_wait.split intro!: lives_one life_closed)
next
  case (OnCert c)
  then show ?thesis by (simp add: agent_effect_def emitServerStateEvent_def Let_def)
next
  case (InitRejected err)
  then show ?thesis using assms(2) by (simp add: agent_report_ok_def)
qed (simp_all add: agent_effect_def)

lemma call_load_ok: "x \<in> set (snd (ca_step cd a CallLoadCerts)) \<Longrightarrow> agent_report_ok e x"
  by (auto simp: ca_step_def loadCerts_def send_built_out receive_def reject_load_def agent_report_ok_def
      split: option.splits if_splits)

lemma agent_turn_phase [simp]:
  "phase_of_peer (fst (agent_turn env e s)) = phase_of_peer s"
  "attempt_inv (fst (agent_turn env e s)) = attempt_inv s"
  by (simp_all add: agent_turn_def Let_def)

lemma agent_report_lives:
  assumes "attempt_inv s" and "agent_report_ok a x"
  shows "lives env (PeerAgent a) s (fst (agent_report env x s))"
proof (cases "x = InitResolved \<and> ps_run s = Some AwaitInit")
  case True
  then obtain k where k: "a = SockOpen k" using assms(2) by (auto simp: agent_report_ok_def)
  let ?s = "s\<lparr> ps_run := Some AwaitCerts \<rparr>"
  have inv: "attempt_inv ?s" using assms(1) True by (intro run_wait_attempt) simp_all
  have "lives env (PeerAgent a) s ?s"
    using True k by (intro lives_one) (simp add: trying_phase life_connected)
  moreover have "lives env (PeerAgent a) (fst (agent_turn env CallLoadCerts ?s))
      (fst (do_all (agent_effect env) (snd (agent_turn env CallLoadCerts ?s)) (fst (agent_turn env CallLoadCerts ?s))))"
    using inv
    by (intro do_all_lives)
       (auto simp: agent_turn_def Let_def intro: agent_effect_lives agent_effect_attempt call_load_ok)
  ultimately show ?thesis
    using True by (simp add: agent_report_def init_resolved_def call_agent_def Let_def)
next
  case False
  then show ?thesis
    using assms agent_effect_lives by (auto simp: agent_report_def)
qed

lemma agent_event_lives: "attempt_inv s \<Longrightarrow> lives env (PeerAgent a) s (fst (agent_event env a s))"
proof (cases "agent_call a")
  case False
  assume inv: "attempt_inv s"
  have "lives env (PeerAgent a) (fst (agent_turn env a s))
      (fst (do_all (agent_report env) (snd (agent_turn env a s)) (fst (agent_turn env a s))))"
    using inv False
    by (intro do_all_lives)
       (auto simp: agent_turn_def Let_def intro!: agent_report_lives agent_report_attempt agent_report_okI)
  then show ?thesis using False by (simp add: agent_event_def Let_def)
qed (simp add: agent_event_def)

lemma auth_report_phase [simp]:
  "phase_of_peer (fst (auth_report env (TokenRequest q) s)) = phase_of_peer s"
  "phase_of_peer (fst (auth_report env (EmitNewToken t) s)) = phase_of_peer s"
  by (simp_all add: auth_report_def emitServerStateEvent_def Let_def)

lemma auth_response_out:
  "x \<in> set (snd (auth_step cfg a (AuthResponse i r))) \<Longrightarrow>
     (\<exists>q. x = TokenRequest q) \<or> (\<exists>t. x = EmitNewToken t) \<or> x = UpdatesResult (makeAccessTokenUpdatesResult (getOidcToken r))"
  by (auto simp: auth_defs split: if_splits)

lemma auth_fire_out: "x \<in> set (snd (auth_step cfg a (AuthFire n))) \<Longrightarrow> \<exists>q. x = TokenRequest q"
  by (auto simp: auth_defs split: if_splits)

lemma makeAccessTokenUpdatesResult_dns:
  "makeAccessTokenUpdatesResult d = Some e \<Longrightarrow> \<exists>e'. d = OidcError e' \<and> isDnsRelatedError e' = isDnsRelatedError e"
  by (cases d) (auto simp: makeAccessTokenUpdatesResult_def is_error_def split: thrown.splits if_splits)

lemma init_lives:
  assumes "attempt_inv s" and "ps_run s = Some AwaitInit"
  shows "lives env (PeerTokenResponse i r) s (fst (call_agent env CallInit s))"
proof -
  have out: "x \<in> set (snd (agent_turn env CallInit s)) \<Longrightarrow> x = InitRejected already_open \<or> (\<exists>k addr. x = NewWebSocket k addr)" for x
    by (auto simp: agent_turn_def ca_step_def ca_init_def open_ws_def reject_open_def Let_def split: if_splits)
  have still_open: "(life env (PeerTokenResponse i r))\<^sup>*\<^sup>* (Trying AwaitInit) (Trying (AwaitClose False))"
    by (rule r_into_rtranclp) (rule life_still_open)
  have dns: "\<not> isDnsRelatedError already_open" by (simp add: already_open_def)
  have "lives env (PeerTokenResponse i r) t (fst (agent_effect env x t))"
    if "x \<in> set (snd (agent_turn env CallInit s))" for x t
    using out [OF that] dns still_open
    by (auto simp: agent_effect_def trying_phase)
  then have "lives env (PeerTokenResponse i r) (fst (agent_turn env CallInit s))
      (fst (do_all (agent_effect env) (snd (agent_turn env CallInit s)) (fst (agent_turn env CallInit s))))"
    using assms(1) by (intro do_all_lives) (auto intro: agent_effect_attempt)
  then show ?thesis by (simp add: call_agent_def Let_def)
qed

lemma token_turn_lives:
  assumes "attempt_inv s"
  shows "lives env (PeerTokenResponse i r) s (fst (auth_turn env (AuthResponse i r) s))"
proof -
  let ?d = "getOidcToken r" and ?e = "PeerTokenResponse i r"
  have report: "lives env ?e t (fst (auth_report env (UpdatesResult (makeAccessTokenUpdatesResult ?d)) t))"
    if inv: "attempt_inv t" for t
  proof (cases "ps_run t = Some AwaitToken")
    case True
    let ?t = "t\<lparr> ps_run := Some AwaitInit \<rparr>"
    show ?thesis
    proof (cases ?d)
      case (OidcToken tok n)
      have "lives env ?e t ?t"
        using True life_token [OF OidcToken] by (intro lives_one) (simp add: trying_phase)
      moreover have "lives env ?e ?t (fst (call_agent env CallInit ?t))"
        using inv True by (intro init_lives run_wait_attempt) simp_all
      ultimately show ?thesis
        using True OidcToken by (simp add: auth_report_def makeAccessTokenUpdatesResult_def initControlAgent_def)
    next
      case (OidcError err)
      then obtain e' where e': "makeAccessTokenUpdatesResult ?d = Some e'"
        by (simp add: makeAccessTokenUpdatesResult_def)
      then have "isDnsRelatedError e' = isDnsRelatedError err"
        using OidcError by (auto dest!: makeAccessTokenUpdatesResult_dns)
      then show ?thesis
        using True e' life_no_token [OF OidcError]
        by (auto simp: auth_report_def trying_phase intro!: lives_one)
    qed
  qed (simp add: auth_report_def)
  have each: "lives env ?e t (fst (auth_report env x t))"
    if "x \<in> set (snd (auth_step (authConfig (env_cfg env)) (ps_auth s) (AuthResponse i r)))" "attempt_inv t" for x t
    using auth_response_out [OF that(1)] report [OF that(2)] by (elim disjE exE) simp_all
  have "lives env ?e (s\<lparr> ps_auth := a \<rparr>)
      (fst (do_all (auth_report env) (snd (auth_step (authConfig (env_cfg env)) (ps_auth s) (AuthResponse i r)))
         (s\<lparr> ps_auth := a \<rparr>)))" for a
    using assms each by (intro do_all_lives) (auto intro: auth_report_attempt)
  then show ?thesis by (simp add: auth_turn_def Let_def)
qed

lemma token_timer_phase: "phase_of_peer (fst (auth_turn env (AuthFire n) s)) = phase_of_peer s"
proof -
  have "phase_of_peer (fst (do_all (auth_report env) xs t)) = phase_of_peer t"
    if "\<And>x. x \<in> set xs \<Longrightarrow> \<exists>q. x = TokenRequest q" for xs t
    using that by (induction xs arbitrary: t) fastforce+
  then show ?thesis using auth_fire_out by (simp add: auth_turn_def Let_def)
qed

lemma peer_turn_lives:
  assumes pm4ml: "pm4mlEnabled (env_app env)" and inv: "attempt_inv s"
  shows "lives env e s (fst (peer_step env s e))"
proof -
  have idle: "phase_of_peer s = Idle" if "ps_start s = NotStarted"
    using inv that by (simp add: attempt_inv_def phase_of_peer_def)
  have retry: "\<exists>d. phase_of_peer s = RetryIn d" if "n \<in> fst ` set (retry_armed s)" for n
    using inv that by (cases "ps_run s"; cases "retry_armed s") (auto simp: attempt_inv_def phase_of_peer_def)
  show ?thesis
  proof (cases e)
    case PeerStart
    then show ?thesis
      using pm4ml idle
      by (auto simp: peer_step_def peer_start_def run_pm4ml_def trying_phase Let_def
          intro: lives_one life_start)
  next
    case PeerStop
    then show ?thesis
      using stop_phase [OF inv pm4ml]
      by (cases "phase_of_peer s") (auto simp: peer_step_def intro: life.intros)
  next
    case (PeerTokenResponse i r)
    then show ?thesis using token_turn_lives [OF inv] by (simp add: peer_step_def)
  next
    case (PeerAgent a)
    then show ?thesis using agent_event_lives [OF inv] by (simp add: peer_step_def)
  next
    case (PeerRetryTimer n)
    show ?thesis
    proof (cases "n \<in> fst ` set (retry_armed s)")
      case True
      then obtain d where "phase_of_peer s = RetryIn d" using retry by blast
      then show ?thesis
        using pm4ml True PeerRetryTimer
        by (simp add: peer_step_def run_pm4ml_def trying_phase Let_def life_retry r_into_rtranclp)
    qed (simp add: peer_step_def PeerRetryTimer)
  qed (simp_all add: peer_step_def propagatePeerJWSEvent_def updatePingAuthDetails_def
      token_timer_phase http_started_def http_stopped_def Let_def split: start_phase.split option.split)
qed

text \<open>The running phase is entered only by a certificates message, from the wait for it.\<close>

lemma running_only_by_certs:
  assumes "(life env e)\<^sup>*\<^sup>* p (Running d)" and "\<And>d. p \<noteq> Running d"
  shows "\<exists>k t msg. e = PeerAgent (SockMessage k t) \<and> deserialise t = Some msg \<and> isCertsPayload msg"
  using assms by (cases rule: rtranclp.cases) (auto elim!: life_to_running)

text \<open>
  C6. A peer refines its abstract life cycle. With PM4ML enabled, in every state that a run
  reaches, whatever calls, responses, socket events, timers and stops it contains, a further
  event moves the peer's phase only along transitions of the life cycle that this event allows:
  an attempt begins only by \<^verbatim>\<open>start\<close> or the retry timer, gets its token before it connects and
  connects before it asks for certificates, ends in the running phase only by a certificates
  message, and otherwise, through the close of the control agent, in a retry with the delay of
  the kind of the failure; \<^verbatim>\<open>stop\<close> ends a wait for the retry and the running phase.
\<close>

theorem peer_refines_lifecycle:
  assumes "pm4mlEnabled (env_app env)"
  shows "let s = fst (exec (peer_step env) (createPeerServer cfg) es) in
    (life env e)\<^sup>*\<^sup>* (phase_of_peer s) (phase_of_peer (fst (peer_step env s e)))"
  unfolding Let_def
  by (rule peer_turn_lives [OF assms peer_attempts.exec_inv [OF attempt_inv_create]]) simp

theorem peer_refines_lifecycle_witness:
  "let s = fst (exec (peer_step sample_env) (createPeerServer sample_cfg) [PeerStart]) in
    (life sample_env (PeerTokenResponse 0 sample_token))\<^sup>*\<^sup>* (phase_of_peer s)
      (phase_of_peer (fst (peer_step sample_env s (PeerTokenResponse 0 sample_token))))"
  by (rule peer_refines_lifecycle) simp

end
