(* ===== verification/Peer_Faults.thy ===== *)
theory Peer_Faults
  imports Peer_Runs
begin

text \<open>
  The other ways a start goes: without PM4ML, with a token request that fails, with
  certificates that never come, with a token refresh in flight while a start fails, and with a
  \<^verbatim>\<open>stop\<close> in the middle.
\<close>

lemmas stop_turn_defs =
  start_failed_def retryStartPm4ml_def stopPm4mlPart_def stopPeerJwsRefreshLoop_def
  stopUpdates_def ca_close_def ws_close_def close_timeout_def finish_close_def retry_closed_def
  stop_closed_def peer_stop_def http_stopped_def pm4ml_returns_def

text \<open>
  Without PM4ML a peer asks for no token and opens no websocket: a new peer is ready at
  once, the start only starts the HTTP server, its health check is good, and \<^verbatim>\<open>stop\<close> only stops
  the server.
\<close>

theorem start_without_pm4ml:
  assumes "\<not> pm4mlEnabled (env_app env)"
  shows "\<exists>s. exec (peer_step env) (createPeerServer cfg) [PeerStart, PeerHttpStarted None]
             = (s, [HttpStart, StartResolved True])
         \<and> isReady s
         \<and> hd_isReady (serverStateToHealthcheckDetailsDto (pm4mlEnabled (env_app env)) (hs_state (ps_http s)))
         \<and> snd (exec (peer_step env) s [PeerStop, PeerHttpStopped None]) = [HttpStopCall, StopResolved True]
         \<and> \<not> isReady (fst (exec (peer_step env) s [PeerStop, PeerHttpStopped None]))"
  using assms
  by (simp add: peer_step_def peer_start_def run_pm4ml_def createPeerServer_def pm4ml_returns_def
      http_started_def hd_isReady_iff peer_stop_def http_stopped_def Let_def)

definition no_pm4ml_env :: peer_env where
  "no_pm4ml_env = sample_env\<lparr> env_app := sample_app\<lparr> pm4mlEnabled := False \<rparr> \<rparr>"

theorem start_without_pm4ml_witness:
  "\<exists>s. exec (peer_step no_pm4ml_env) (createPeerServer sample_cfg) [PeerStart, PeerHttpStarted None]
     = (s, [HttpStart, StartResolved True]) \<and> isReady s"
  using start_without_pm4ml [of no_pm4ml_env sample_cfg] by (auto simp: no_pm4ml_env_def)

lemma dns_wrapped [simp]: "isDnsRelatedError (if is_error e then e else ThrownError m) = isDnsRelatedError e"
  by (cases e) (simp_all add: is_error_def isDnsRelatedError_def)

text \<open>
  C19. A start whose token request fails is retried after the configured delay. From a new
  peer with PM4ML enabled, the failed response passes the empty token on and stops the token
  updates; once the control agent has closed, exactly one retry is scheduled (after the DNS
  interval for a DNS error, the start interval otherwise), the HTTP server is started all the
  same, \<^verbatim>\<open>start\<close> returns \<^verbatim>\<open>false\<close> and the peer is not ready; when the timer fires, the token is
  requested again.
\<close>

theorem failed_token_is_retried:
  assumes "pm4mlEnabled (env_app env)" and "getOidcToken r = OidcError e"
  shows "\<exists>s. exec (peer_step env) (createPeerServer (env_cfg env))
        [PeerStart, PeerTokenResponse 0 r, PeerAgent (CloseTimeout 0), PeerHttpStarted None] =
      (s, [AuthOut (TokenRequest (createHttpOptions (authConfig (env_cfg env)))),
           EmitPingAuthDetails (token_event []),
           ArmRetry (retry_delay env (isDnsRelatedError e)),
           HttpStart, StartResolved False])
    \<and> \<not> isReady s
    \<and> retry_armed s = [(0, retry_delay env (isDnsRelatedError e))]
    \<and> phase_of (ps_auth s) = Stopped
    \<and> snd (peer_step env s (PeerRetryTimer 0)) = [AuthOut (TokenRequest (createHttpOptions (authConfig (env_cfg env))))]"
  using assms
  by (simp add: token_turn_defs connect_turn_defs stop_turn_defs http_started_def phase_of_def)

theorem failed_token_is_retried_witness:
  "retry_armed (fst (exec (peer_step sample_env) (createPeerServer sample_cfg)
      [PeerStart, PeerTokenResponse 0 (Inl (ThrownAxios
         \<lparr> ae_message = ''getaddrinfo'', ae_code = Some ''EAI_AGAIN'', ae_status = None, ae_response = None \<rparr>)),
       PeerAgent (CloseTimeout 0), PeerHttpStarted None])) = [(0, 5000)]"
  using failed_token_is_retried [of sample_env "Inl (ThrownAxios
         \<lparr> ae_message = ''getaddrinfo'', ae_code = Some ''EAI_AGAIN'', ae_status = None, ae_response = None \<rparr>)"
      "ThrownAxios \<lparr> ae_message = ''getaddrinfo'', ae_code = Some ''EAI_AGAIN'', ae_status = None, ae_response = None \<rparr>"]
  by (auto simp: getOidcToken_def isDnsRelatedError_def DNS_RELATED_CODES_def retry_delay_def node_delay_def)

text \<open>A peer whose websocket is open and whose start waits for the certificates.\<close>

definition waiting_certs :: "PeerServer \<Rightarrow> bool" where
  "waiting_certs s \<longleftrightarrow>
     ps_run s = Some AwaitCerts \<and> ps_start s = InPm4ml \<and> \<not> isReady s
     \<and> ca_ws (ps_agent s) = Some 0 \<and> ca_socks (ps_agent s) = [OPEN]
     \<and> ca_receivers (ps_agent s) =
         [\<lparr> rc_no = 0, rc_sock = 0, rc_validate = True, rc_awaiter = ByCaller, rc_timer = True \<rparr>]
     \<and> ca_closings (ps_agent s) = [] \<and> ca_next (ps_agent s) = Suc 0
     \<and> single_loop (ps_auth s) \<and> in_flight (ps_auth s) = []
     \<and> retry_armed s = [] \<and> peer_next s = 0"

lemma connected_waits:
  assumes "pm4mlEnabled (env_app env)" and "getOidcToken r = OidcToken t n"
  shows "\<exists>s addr req. exec (peer_step env) (createPeerServer (env_cfg env))
        [PeerStart, PeerTokenResponse 0 r, PeerAgent (SockOpen 0)] =
      (s, [AuthOut (TokenRequest (createHttpOptions (authConfig (env_cfg env)))),
           EmitPingAuthDetails (token_event t), AgentOut (NewWebSocket 0 addr), AgentOut (WsSend 0 req)])
    \<and> waiting_certs s"
  using assms
  by (simp add: token_turn_defs connect_turn_defs waiting_certs_def single_loop_def)

lemma lost_certs_turns:
  assumes "waiting_certs s"
  shows "\<exists>u. exec (peer_step env) s [PeerAgent (ReceiveTimeout 0), PeerAgent (SockClose 0), PeerHttpStarted None] =
      (u, [AgentOut (WsClose 0), ArmRetry (retry_delay env False), HttpStart, StartResolved False])
    \<and> \<not> isReady u \<and> retry_armed u = [(0, retry_delay env False)] \<and> quiescent (ps_auth u)
    \<and> ca_ws (ps_agent u) = None \<and> \<not> ca_shouldReconnect (ps_agent u)"
proof -
  have q: "quiescent (stopUpdates (ps_auth s))"
    using assms by (intro stop_quiescent) (simp_all add: waiting_certs_def)
  show ?thesis
  using assms q
  by (simp add: waiting_certs_def peer_step_def agent_event_def agent_turn_def agent_report_def agent_effect_def
      ca_step_def receive_timeout_def reject_load_def on_close_def set_sock_def closings_on_def sock_state_def
      start_failed_def retryStartPm4ml_def stopPm4mlPart_def stopPeerJwsRefreshLoop_def
   ca_close_def ws_close_def finish_close_def retry_closed_def
  pm4ml_returns_def http_started_def then_do_def Let_def)
qed
text \<open>
  C21. A start whose certificates do not come is undone and retried. When the message that
  \<^verbatim>\<open>loadCerts\<close> waits for does not arrive in time, the token updates stop, the websocket is
  closed, and once it has closed one retry is scheduled after the start interval; the start
  returns \<^verbatim>\<open>false\<close>, and the agent that the retry will use no longer reconnects by itself.
\<close>

theorem failed_certs_are_retried:
  assumes "pm4mlEnabled (env_app env)" and "getOidcToken r = OidcToken t n"
  shows "\<exists>s addr req. exec (peer_step env) (createPeerServer (env_cfg env))
        [PeerStart, PeerTokenResponse 0 r, PeerAgent (SockOpen 0), PeerAgent (ReceiveTimeout 0),
         PeerAgent (SockClose 0), PeerHttpStarted None] =
      (s, [AuthOut (TokenRequest (createHttpOptions (authConfig (env_cfg env)))),
           EmitPingAuthDetails (token_event t), AgentOut (NewWebSocket 0 addr), AgentOut (WsSend 0 req),
           AgentOut (WsClose 0), ArmRetry (retry_delay env False), HttpStart, StartResolved False])
    \<and> \<not> isReady s \<and> retry_armed s = [(0, retry_delay env False)]
    \<and> phase_of (ps_auth s) = Stopped
    \<and> ca_ws (ps_agent s) = None \<and> \<not> ca_shouldReconnect (ps_agent s)"
proof -
  obtain s addr req where s: "exec (peer_step env) (createPeerServer (env_cfg env))
        [PeerStart, PeerTokenResponse 0 r, PeerAgent (SockOpen 0)] =
      (s, [AuthOut (TokenRequest (createHttpOptions (authConfig (env_cfg env)))),
           EmitPingAuthDetails (token_event t), AgentOut (NewWebSocket 0 addr), AgentOut (WsSend 0 req)])"
    and w: "waiting_certs s"
    using connected_waits [OF assms] by blast
  obtain u where u: "exec (peer_step env) s [PeerAgent (ReceiveTimeout 0), PeerAgent (SockClose 0), PeerHttpStarted None] =
      (u, [AgentOut (WsClose 0), ArmRetry (retry_delay env False), HttpStart, StartResolved False])"
    and "\<not> isReady u" "retry_armed u = [(0, retry_delay env False)]" "quiescent (ps_auth u)"
      "ca_ws (ps_agent u) = None" "\<not> ca_shouldReconnect (ps_agent u)"
    using lost_certs_turns [OF w] by blast
  then show ?thesis
    using exec_append_eq [OF s u] by (auto simp: phase_of_def quiescent_def)
qed

theorem failed_certs_are_retried_witness:
  "retry_armed (fst (exec (peer_step sample_env) (createPeerServer sample_cfg)
      [PeerStart, PeerTokenResponse 0 sample_token, PeerAgent (SockOpen 0), PeerAgent (ReceiveTimeout 0),
       PeerAgent (SockClose 0), PeerHttpStarted None])) = [(0, 60000)]"
  using failed_certs_are_retried [of sample_env sample_token "''tok''" 300]
  by (auto simp: retry_delay_def node_delay_def)

text \<open>A peer whose start has just sent its token request.\<close>

definition fresh_run :: "PeerServer \<Rightarrow> bool" where
  "fresh_run s \<longleftrightarrow>
     ps_run s = Some AwaitToken \<and> ps_start s = InPm4ml \<and> retryStartTimer s = None
     \<and> in_flight (ps_auth s) = [True] \<and> auth_armed (ps_auth s) = [] \<and> auth_timer (ps_auth s) = None
     \<and> ca_ws (ps_agent s) = None \<and> ca_socks (ps_agent s) = [] \<and> ca_opens (ps_agent s) = []
     \<and> ca_receivers (ps_agent s) = [] \<and> ca_closings (ps_agent s) = [] \<and> ca_next (ps_agent s) = 0"

lemma start_turn:
  assumes "pm4mlEnabled (env_app env)"
  shows "\<exists>s. peer_step env (createPeerServer cfg) PeerStart =
      (s, [AuthOut (TokenRequest (createHttpOptions (authConfig (env_cfg env))))]) \<and> fresh_run s"
  using assms
  by (simp add: peer_step_def peer_start_def run_pm4ml_def createPeerServer_def auth_step_def
      startAccessTokenUpdates_def auth_init_def createControlAgent_def control_agent_def fresh_run_def Let_def)

lemma stopped_in_start:
  assumes "pm4mlEnabled (env_app env)" and "fresh_run s"
  shows "\<exists>u. exec (peer_step env) s [PeerStop, PeerAgent (CloseTimeout 0), PeerHttpStopped None] =
      (u, [HttpStopCall, StopResolved True])
    \<and> in_flight (ps_auth u) = [True] \<and> auth_armed (ps_auth u) = [] \<and> ps_run u = Some AwaitToken
    \<and> \<not> hs_listening (ps_http u) \<and> ca_socks (ps_agent u) = [] \<and> ca_ws (ps_agent u) = None
    \<and> ca_opens (ps_agent u) = [] \<and> ca_receivers (ps_agent u) = []"
  using assms
  by (simp add: fresh_run_def peer_step_def stop_turn_defs http_stop_def agent_event_def agent_turn_def
      ca_step_def agent_report_def agent_effect_def then_do_def Let_def)

lemma token_turn:
  assumes "ps_run s = Some AwaitToken" and "in_flight (ps_auth s) = [True]" and "auth_armed (ps_auth s) = []"
    and "getOidcToken r = OidcToken t n" and "\<not> hs_listening (ps_http s)" and "ca_ws (ps_agent s) = None"
    and "ca_socks (ps_agent s) = []" and "ca_opens (ps_agent s) = []" "ca_receivers (ps_agent s) = []"
  shows "\<exists>u addr. peer_step env s (PeerTokenResponse 0 r) =
      (u, [EmitPingAuthDetails (token_event t), AgentOut (NewWebSocket 0 addr)])
    \<and> phase_of (ps_auth u) = Waiting (node_delay (updateTimeoutSec (authConfig (env_cfg env)) (OidcToken t n) * 1000))
    \<and> ps_run u = Some AwaitInit \<and> ca_ws (ps_agent u) = Some 0 \<and> ca_socks (ps_agent u) = [CONNECTING]
    \<and> ca_opens (ps_agent u) = [(0, ByCaller)] \<and> ca_receivers (ps_agent u) = [] \<and> ca_hasCallbacks (ps_agent u)"
  using assms
  by (simp add: peer_step_def auth_turn_def auth_defs auth_report_def emitted_token_def makeAccessTokenUpdatesResult_def
  emitServerStateEvent_def http_emit_def emitPingAuthDetails_def initControlAgent_def call_agent_def agent_turn_def ca_step_def ca_init_def open_ws_def
  schedulePing_def ws_open_def agent_effect_def then_do_def phase_of_def)

lemma open_turn:
  assumes "ps_run s = Some AwaitInit" "ca_ws (ps_agent s) = Some 0" "ca_socks (ps_agent s) = [CONNECTING]"
    "ca_opens (ps_agent s) = [(0, ByCaller)]" "ca_receivers (ps_agent s) = []" "ca_hasCallbacks (ps_agent s)"
  shows "\<exists>u req. peer_step env s (PeerAgent (SockOpen 0)) = (u, [AgentOut (WsSend 0 req)])
    \<and> ps_run u = Some AwaitCerts \<and> awaits_certs 0 (ps_agent u)"
  using assms
  by (simp add: peer_step_def call_agent_def agent_turn_def ca_step_def  agent_effect_def then_do_def
     agent_event_def on_open_def set_sock_def open_resolved_def agent_report_def init_resolved_def
  loadCerts_def send_built_def ca_send_def sock_state_def receive_def ws_open_def awaits_certs_def receivers_on_def Let_def)

text \<open>
  C37. \<^verbatim>\<open>stop\<close> does not cancel a start that waits for its token. If \<^verbatim>\<open>stop\<close> is called and even
  returns before the token response, the response still passes the token on, arms the next
  token request and opens the websocket; when the socket opens and the certificates follow,
  the stopped peer becomes ready again.
\<close>

theorem stop_does_not_cancel_start:
  assumes "pm4mlEnabled (env_app env)" and "getOidcToken r = OidcToken t n"
    and "deserialise text = Some msg" and "isCertsPayload msg"
  shows "\<exists>s addr. exec (peer_step env) (createPeerServer (env_cfg env))
        [PeerStart, PeerStop, PeerAgent (CloseTimeout 0), PeerHttpStopped None, PeerTokenResponse 0 r] =
      (s, [AuthOut (TokenRequest (createHttpOptions (authConfig (env_cfg env)))), HttpStopCall,
           StopResolved True, EmitPingAuthDetails (token_event t), AgentOut (NewWebSocket 0 addr)])
    \<and> phase_of (ps_auth s) = Waiting (node_delay (updateTimeoutSec (authConfig (env_cfg env)) (OidcToken t n) * 1000))
    \<and> isReady (fst (exec (peer_step env) s [PeerAgent (SockOpen 0), PeerAgent (SockMessage 0 text)]))"
proof -
  obtain s where s: "peer_step env (createPeerServer (env_cfg env)) PeerStart =
      (s, [AuthOut (TokenRequest (createHttpOptions (authConfig (env_cfg env))))])" and f: "fresh_run s"
    using start_turn [OF assms(1)] by blast
  obtain u where u: "exec (peer_step env) s [PeerStop, PeerAgent (CloseTimeout 0), PeerHttpStopped None] =
      (u, [HttpStopCall, StopResolved True])"
    and v: "ps_run u = Some AwaitToken" "in_flight (ps_auth u) = [True]" "auth_armed (ps_auth u) = []"
      "\<not> hs_listening (ps_http u)" "ca_ws (ps_agent u) = None" "ca_socks (ps_agent u) = []"
      "ca_opens (ps_agent u) = []" "ca_receivers (ps_agent u) = []"
    using stopped_in_start [OF assms(1) f] by blast
  obtain w addr where w: "peer_step env u (PeerTokenResponse 0 r) =
      (w, [EmitPingAuthDetails (token_event t), AgentOut (NewWebSocket 0 addr)])"
    and p: "phase_of (ps_auth w) = Waiting (node_delay (updateTimeoutSec (authConfig (env_cfg env)) (OidcToken t n) * 1000))"
    and x: "ps_run w = Some AwaitInit" "ca_ws (ps_agent w) = Some 0" "ca_socks (ps_agent w) = [CONNECTING]"
      "ca_opens (ps_agent w) = [(0, ByCaller)]" "ca_receivers (ps_agent w) = []" "ca_hasCallbacks (ps_agent w)"
    using token_turn [OF v(1-3) assms(2) v(4-8)] by blast
  obtain y req where "peer_step env w (PeerAgent (SockOpen 0)) = (y, [AgentOut (WsSend 0 req)])"
    and "ps_run y = Some AwaitCerts" "awaits_certs 0 (ps_agent y)"
    using open_turn [OF x] by blast
  then have "isReady (fst (exec (peer_step env) w [PeerAgent (SockOpen 0), PeerAgent (SockMessage 0 text)]))"
    using certs_turn_ready assms(3,4) by (simp add: Let_def)
  moreover have "exec (peer_step env) u [PeerTokenResponse 0 r] =
      (w, [EmitPingAuthDetails (token_event t), AgentOut (NewWebSocket 0 addr)])"
    using w by simp
  from exec_Cons_eq [of "peer_step env", OF s exec_append_eq [OF u this]]
  have "exec (peer_step env) (createPeerServer (env_cfg env))
        [PeerStart, PeerStop, PeerAgent (CloseTimeout 0), PeerHttpStopped None, PeerTokenResponse 0 r] =
      (w, [AuthOut (TokenRequest (createHttpOptions (authConfig (env_cfg env)))), HttpStopCall,
           StopResolved True, EmitPingAuthDetails (token_event t), AgentOut (NewWebSocket 0 addr)])"
    by simp
  ultimately show ?thesis using p by blast
qed

theorem stop_does_not_cancel_start_witness:
  "\<exists>s. fst (exec (peer_step sample_env) (createPeerServer sample_cfg)
        [PeerStart, PeerStop, PeerAgent (CloseTimeout 0), PeerHttpStopped None, PeerTokenResponse 0 sample_token]) = s
     \<and> isReady (fst (exec (peer_step sample_env) s [PeerAgent (SockOpen 0), PeerAgent (SockMessage 0 certs_text)]))"
  using stop_does_not_cancel_start [of sample_env sample_token "''tok''" 300 certs_text sample_certs]
  by (metis fst_conv sample_certs_simps(1) sample_texts(1) sample_env_simps(1-3) sample_token_ok)

section \<open>A retry beside a refresh\<close>

lemma connected_loop:
  assumes "pm4mlEnabled (env_app env)" and "getOidcToken r = OidcToken t n"
  shows "\<exists>s. fst (exec (peer_step env) (createPeerServer (env_cfg env))
        [PeerStart, PeerTokenResponse 0 r, PeerAgent (SockOpen 0)]) = s
    \<and> waiting_certs s \<and> auth_timer (ps_auth s) = Some 0 \<and> (\<exists>d. auth_armed (ps_auth s) = [(0, d)]) \<and> auth_next (ps_auth s) = 1"
  using assms
  by (simp add: token_turn_defs connect_turn_defs waiting_certs_def single_loop_def)

lemma refresh_turns:
  assumes "waiting_certs s" "auth_timer (ps_auth s) = Some 0" "auth_armed (ps_auth s) = [(0, d)]" "auth_next (ps_auth s) = 1"
  shows "\<exists>u. fst (exec (peer_step env) s [PeerTokenTimer 0, PeerAgent (ReceiveTimeout 0)]) = u
    \<and> in_flight (ps_auth u) = [False] \<and> auth_armed (ps_auth u) = [] \<and> auth_next (ps_auth u) = 1
    \<and> ps_run u = Some (AwaitClose False) \<and> ps_start u = InPm4ml \<and> retry_armed u = [] \<and> peer_next u = 0
    \<and> ca_ws (ps_agent u) = Some 0 \<and> ca_socks (ps_agent u) = [CLOSING] \<and> \<not> ca_shouldReconnect (ps_agent u)
    \<and> ca_closings (ps_agent u) = [\<lparr> cl_no = 1, cl_sock = Some 0, cl_closer = ForRetry \<rparr>]"
  using assms
  by (simp add: waiting_certs_def peer_step_def auth_turn_def auth_defs auth_report_def agent_event_def agent_turn_def agent_report_def agent_effect_def
      ca_step_def receive_timeout_def reject_load_def sock_state_def
      start_failed_def retryStartPm4ml_def stopPm4mlPart_def stopPeerJwsRefreshLoop_def
      ca_close_def ws_close_def  then_do_def)

lemma answer_turn:
  assumes "in_flight (ps_auth u) = [False]" "auth_armed (ps_auth u) = []"
  shows "\<exists>h. fst (peer_step env u (PeerTokenResponse 0 r)) = u\<lparr> ps_auth := (ps_auth u)\<lparr> in_flight := [], auth_timer := Some (auth_next (ps_auth u)),
         auth_armed := [(auth_next (ps_auth u), node_delay (updateTimeoutSec (authConfig (env_cfg env)) (getOidcToken r) * 1000))],
         auth_next := Suc (auth_next (ps_auth u)) \<rparr>, ps_http := h \<rparr>"
  using assms
  by (simp add: peer_step_def auth_turn_def auth_defs auth_report_def emitServerStateEvent_def) (rule exI, rule refl)

lemma closed_turns:
  assumes "pm4mlEnabled (env_app env)"
    "ps_run u = Some (AwaitClose False)" "ps_start u = InPm4ml" "retry_armed u = []" "peer_next u = 0"
    "ca_ws (ps_agent u) = Some 0" "ca_socks (ps_agent u) = [CLOSING]" "\<not> ca_shouldReconnect (ps_agent u)"
    "ca_closings (ps_agent u) = [\<lparr> cl_no = 1, cl_sock = Some 0, cl_closer = ForRetry \<rparr>]"
  shows "ps_auth (fst (exec (peer_step env) u [PeerAgent (SockClose 0), PeerHttpStarted None, PeerRetryTimer 0]))
     = (ps_auth u)\<lparr> in_flight := in_flight (ps_auth u) @ [True] \<rparr>"
  using assms
  by (simp add: peer_step_def agent_event_def agent_turn_def agent_report_def agent_effect_def auth_step_def startAccessTokenUpdates_def
      ca_step_def on_close_def set_sock_def closings_on_def sock_state_def finish_close_def retry_closed_def
  pm4ml_returns_def http_started_def run_pm4ml_def then_do_def Let_def)

text \<open>
  The \<^verbatim>\<open>stopUpdates\<close> of a failed start ends no loop whose token request is in flight. When the certificates time
  out while the token is refreshed, the response makes that loop wait again, and the retry starts a
  second loop beside it; the client holds the timer of one.
\<close>

theorem retry_adds_token_loop:
  assumes "pm4mlEnabled (env_app env)" and "getOidcToken r = OidcToken t n"
  shows "loops_of (ps_auth (fst (exec (peer_step env) (createPeerServer (env_cfg env))
        [PeerStart, PeerTokenResponse 0 r, PeerAgent (SockOpen 0), PeerTokenTimer 0,
         PeerAgent (ReceiveTimeout 0), PeerTokenResponse 0 r2, PeerAgent (SockClose 0),
         PeerHttpStarted None, PeerRetryTimer 0])))
    = (let d = node_delay (updateTimeoutSec (authConfig (env_cfg env)) (getOidcToken r2) * 1000)
       in \<lparr> requesting = {#True#}, waiting = {#d#}, held = Some d \<rparr>)"
proof -
  let ?f = "peer_step env"
  obtain s d where s: "fst (exec ?f (createPeerServer (env_cfg env))
        [PeerStart, PeerTokenResponse 0 r, PeerAgent (SockOpen 0)]) = s"
    and w: "waiting_certs s" "auth_timer (ps_auth s) = Some 0" "auth_armed (ps_auth s) = [(0, d)]" "auth_next (ps_auth s) = 1"
    using connected_loop [OF assms] by blast
  obtain u where u: "fst (exec ?f s [PeerTokenTimer 0, PeerAgent (ReceiveTimeout 0)]) = u"
    and au: "in_flight (ps_auth u) = [False]" "auth_armed (ps_auth u) = []"
    and pu: "ps_run u = Some (AwaitClose False)" "ps_start u = InPm4ml" "retry_armed u = []" "peer_next u = 0"
      "ca_ws (ps_agent u) = Some 0" "ca_socks (ps_agent u) = [CLOSING]" "\<not> ca_shouldReconnect (ps_agent u)"
      "ca_closings (ps_agent u) = [\<lparr> cl_no = 1, cl_sock = Some 0, cl_closer = ForRetry \<rparr>]"
    using refresh_turns [OF w] by blast
  obtain h where v: "fst (?f u (PeerTokenResponse 0 r2)) = u\<lparr> ps_auth := (ps_auth u)\<lparr> in_flight := [],
       auth_timer := Some (auth_next (ps_auth u)),
       auth_armed := [(auth_next (ps_auth u), node_delay (updateTimeoutSec (authConfig (env_cfg env)) (getOidcToken r2) * 1000))],
       auth_next := Suc (auth_next (ps_auth u)) \<rparr>, ps_http := h \<rparr>" (is "_ = ?v")
    using answer_turn [OF au] by blast
  have "ps_auth (fst (exec ?f ?v [PeerAgent (SockClose 0), PeerHttpStarted None, PeerRetryTimer 0])) =
      (ps_auth ?v)\<lparr> in_flight := in_flight (ps_auth ?v) @ [True] \<rparr>"
    by (rule closed_turns [OF assms(1)]) (simp_all add: pu)
  moreover have "fst (exec ?f (createPeerServer (env_cfg env))
        ([PeerStart, PeerTokenResponse 0 r, PeerAgent (SockOpen 0)] @ [PeerTokenTimer 0, PeerAgent (ReceiveTimeout 0)]
         @ [PeerTokenResponse 0 r2] @ [PeerAgent (SockClose 0), PeerHttpStarted None, PeerRetryTimer 0])) =
      fst (exec ?f ?v [PeerAgent (SockClose 0), PeerHttpStarted None, PeerRetryTimer 0])"
    by (simp only: exec_append Let_def fst_conv s u) (simp only: exec.simps Let_def fst_conv v)
  ultimately show ?thesis
    by (simp add: loops_of_def held_delay_def Let_def del: exec.simps)
qed

theorem retry_adds_token_loop_witness:
  "requesting (loops_of (ps_auth (fst (exec (peer_step sample_env) (createPeerServer sample_cfg)
        [PeerStart, PeerTokenResponse 0 sample_token, PeerAgent (SockOpen 0), PeerTokenTimer 0,
         PeerAgent (ReceiveTimeout 0), PeerTokenResponse 0 sample_token, PeerAgent (SockClose 0),
         PeerHttpStarted None, PeerRetryTimer 0])))) = {#True#}"
  using retry_adds_token_loop [of sample_env sample_token "''tok''" 300 sample_token]
  by (simp add: Let_def del: exec.simps)


end
