(* ===== verification/Protocol.thy ===== *)
theory Protocol
  imports Agent_Runs
begin

text \<open>
  The management protocol as its two ends see it: what is built reads back as the same message,
  everything read is well formed, a JWS notification reaches the handler of the other end with
  its data intact, and error replies never lead to further replies.
\<close>

section \<open>What is written reads back\<close>

text \<open>
  The JSON form of a buffer, as Node's \<^verbatim>\<open>Buffer.toJSON\<close> documents it: an object whose \<^verbatim>\<open>type\<close> is the
  string \<^verbatim>\<open>Buffer\<close> and whose \<^verbatim>\<open>data\<close> is an array.
\<close>

definition buffer_form :: "js obj \<Rightarrow> bool" where
  "buffer_form ps \<longleftrightarrow>
     oget ps ''type'' = Some (JStr ''Buffer'')
     \<and> (case oget ps ''data'' of Some (JArr xs) \<Rightarrow> True | _ \<Rightarrow> False)"

lemma revive_object_buffer:
  "buffer_form ps \<Longrightarrow> oget ps ''data'' = Some (JArr xs) \<Longrightarrow> revive_object ps = JBuf (map to_uint8 xs)"
  by (simp add: buffer_form_def revive_object_def)

lemma revive_object_other: "\<not> buffer_form ps \<Longrightarrow> revive_object ps = JObj ps"
  by (auto simp: buffer_form_def revive_object_def split: option.split js.split)

lemma revive_object_cases:
  "\<not> buffer_form ps \<and> revive_object ps = JObj ps \<or> (\<exists>bs. revive_object ps = JBuf bs)"
proof (cases "buffer_form ps")
  case True
  then obtain xs where "oget ps ''data'' = Some (JArr xs)"
    by (auto simp: buffer_form_def split: option.splits js.splits)
  then show ?thesis using revive_object_buffer [OF True] by blast
qed (simp add: revive_object_other)

text \<open>
  Data that the protocol carries exactly: integers within the safe range and no other numbers,
  distinct keys, any buffers, and no plain object that has the JSON form of a buffer.
\<close>

fun plain :: "js \<Rightarrow> bool" where
  "plain (JNum n) = (\<bar>n\<bar> \<le> MAX_SAFE_INTEGER)"
| "plain (JFrac t) = False"
| "plain (JArr xs) = (\<forall>x \<in> set xs. plain x)"
| "plain (JObj ps) = (distinct (okeys ps) \<and> \<not> buffer_form ps \<and> (\<forall>p \<in> set ps. plain (snd p)))"
| "plain _ = True"

lemma byte_value: "x \<in> set (byte_entries bs) \<Longrightarrow> json_value x"
proof -
  have "\<bar>uint b\<bar> \<le> MAX_SAFE_INTEGER" for b :: "8 word"
    using uint_bounded [of b] uint_nonnegative [of b] by (simp add: MAX_SAFE_INTEGER_def)
  then show "x \<in> set (byte_entries bs) \<Longrightarrow> json_value x" by (auto simp: byte_entries_def)
qed

lemma revive_bytes [simp]: "map revive (byte_entries bs) = byte_entries bs"
  by (simp add: byte_entries_def)

lemma to_json_bytes [simp]: "map to_json (byte_entries bs) = byte_entries bs"
  by (simp add: byte_entries_def)

lemma to_json_plain: "plain v \<Longrightarrow> json_value (to_json v) \<and> revive (to_json v) = v"
proof (induction v)
  case (JArr xs)
  then show ?case by (auto simp: map_idI)
next
  case (JObj ps)
  have el: "json_value (to_json (snd p)) \<and> revive (to_json (snd p)) = snd p" if "p \<in> set ps" for p
    using JObj.IH [OF that, of "snd p"] JObj.prems that by (cases p) auto
  then have props: "map (\<lambda>p. (fst p, revive (to_json (snd p)))) ps = ps"
    by (intro map_idI) simp
  have vals: "json_value (to_json (snd p))" if "p \<in> set ps" for p
    using el that by blast
  have "revive_object ps = JObj ps"
    using JObj.prems by (simp add: revive_object_other)
  then show ?case using JObj.prems props vals by (auto simp: okeys_def split_beta comp_def)
next
  case (JBuf bs)
  show ?case by (auto simp: revive_object_def byte_value)
qed (auto simp: okeys_def)

lemma plain_message: "pred_option plain data \<Longrightarrow> plain i \<Longrightarrow> plain (msg_object verb msg data i)"
  by (cases data) (auto simp: msg_object_def buffer_form_def)

lemma to_json_twice: "plain v \<Longrightarrow> to_json (to_json v) = to_json v"
proof (induction v)
  case (JObj ps)
  have "to_json (to_json (snd p)) = to_json (snd p)" if "p \<in> set ps" for p
    using JObj.IH [OF that, of "snd p"] JObj.prems that by (cases p) auto
  then show ?case by (auto simp: split_beta)
qed auto

text \<open>
  The interface of the stringifier: of a value that JSON can write exactly it gives a text that
  parses to this value. This is what the protocol relies on of \<^verbatim>\<open>fast-safe-stringify\<close>, which
  agrees with \<^verbatim>\<open>JSON.stringify\<close> on values without cycles.
\<close>

locale text_codec =
  fixes stringify :: "js \<Rightarrow> string"
  assumes parse_stringify: "json_value v \<Longrightarrow> json_parse (stringify v) = Some v"
begin

lemma serialise_parse: "plain v \<Longrightarrow> json_parse (serialise stringify v) = Some (to_json v)"
  by (simp add: serialise_def parse_stringify to_json_plain)

lemma serialise_read_back: "plain v \<Longrightarrow> deserialise (serialise stringify v) = Some v"
  by (simp add: deserialise_def serialise_def parse_stringify to_json_plain)

lemma buildMsg_parse:
  assumes "pred_option plain data" and "pred_option plain mid"
  shows "json_parse (buildMsg stringify slug verb msg data mid) =
           Some (to_json (msg_object verb msg data (case mid of None \<Rightarrow> JStr slug | Some i \<Rightarrow> i)))"
  using assms by (cases mid) (simp_all add: buildMsg_def serialise_parse plain_message)

lemma buildMsg_read_back:
  assumes "pred_option plain data" and "pred_option plain mid"
  shows "deserialise (buildMsg stringify slug verb msg data mid) =
           Some (msg_object verb msg data (case mid of None \<Rightarrow> JStr slug | Some i \<Rightarrow> i))"
  using assms by (cases mid) (simp_all add: buildMsg_def serialise_read_back plain_message)

end

interpretation json: text_codec json_stringify
  by unfold_locales (rule json_parse_stringify)

lemma msg_object_simps [simp]:
  "opt_getp (Some (msg_object verb msg data i)) ''verb'' = Some (JStr (verb_str verb))"
  "opt_getp (Some (msg_object verb msg data i)) ''msg'' = Some (JStr (message_str msg))"
  "opt_getp (Some (msg_object verb msg data i)) ''data'' = data"
  "opt_getp (Some (msg_object verb msg data i)) ''id'' = Some i"
  by (auto simp: msg_object_def split: option.split)

lemma msg_object_payload: "isWsPayload (msg_object verb msg data i) \<longleftrightarrow> data \<noteq> None"
  by (cases verb; cases msg; cases data) (simp_all add: msg_object_def isWsPayload_def)

text \<open>
  C12. The messages of the protocol survive the wire. For any verb and message, with any
  stringifier that agrees with JSON, and for data and an id without fractions or integers beyond
  the safe ones, without a repeated key and without a plain object of the form \<^verbatim>\<open>{type: 'Buffer', data: [..]}\<close>
  (buffers themselves are allowed anywhere), \<^verbatim>\<open>deserialise\<close> of the text that \<^verbatim>\<open>buildMsg\<close> builds is exactly
  that message, with the given id or the generated slug; and as it carries data it
  passes the type guard \<^verbatim>\<open>isWsPayload\<close>.
\<close>

theorem message_roundtrip:
  assumes "text_codec stringify" and "plain d" and "pred_option plain mid"
  shows "deserialise (buildMsg stringify slug verb msg (Some d) mid) =
           Some (msg_object verb msg (Some d) (case mid of None \<Rightarrow> JStr slug | Some i \<Rightarrow> i))
       \<and> isWsPayload (msg_object verb msg (Some d) (case mid of None \<Rightarrow> JStr slug | Some i \<Rightarrow> i))"
  using text_codec.buildMsg_read_back [OF assms(1), of "Some d" mid] assms(2,3)
  by (cases mid) (simp_all add: msg_object_payload)

theorem message_roundtrip_witness:
  "deserialise (buildMsg json_stringify ''slug'' NOTIFY PEER_JWS
     (Some (JArr [JObj [(''publicKey'', JBuf [45, 10])]])) None) =
     Some (msg_object NOTIFY PEER_JWS (Some (JArr [JObj [(''publicKey'', JBuf [45, 10])]]))
       (JStr ''slug''))"
  using message_roundtrip [OF json.text_codec_axioms,
      of "JArr [JObj [(''publicKey'', JBuf [45, 10])]]" None "''slug''" NOTIFY PEER_JWS]
  by (simp add: buffer_form_def)

section \<open>What is read is well formed\<close>

text \<open>
  The type of a message that was read: distinct keys in every object, integers that a double
  represents exactly, other numbers as literals of the grammar, and no object of a buffer's form.
\<close>

fun revived_js :: "js \<Rightarrow> bool" where
  "revived_js (JNum n) = (\<bar>n\<bar> \<le> MAX_SAFE_INTEGER)"
| "revived_js (JFrac t) = (json_number t = Some (JFrac t))"
| "revived_js (JArr xs) = (\<forall>x \<in> set xs. revived_js x)"
| "revived_js (JObj ps) = (distinct (okeys ps) \<and> \<not> buffer_form ps \<and> (\<forall>p \<in> set ps. revived_js (snd p)))"
| "revived_js _ = True"

lemma revive_typed: "parsed_js v \<Longrightarrow> revived_js (revive v)"
proof (induction v)
  case (JObj ps)
  let ?qs = "map (\<lambda>(k, v). (k, revive v)) ps"
  have "revived_js (revive (snd p))" if "p \<in> set ps" for p
    using JObj.IH [OF that, of "snd p"] JObj.prems that by (cases p) (auto simp: parsed_props_def)
  then have vals: "revived_js (snd p)" if "p \<in> set ?qs" for p
    using that by auto
  have keys: "okeys ?qs = okeys ps" by (simp add: okeys_def split_beta comp_def)
  from revive_object_cases [of ?qs] show ?case
  proof
    assume "\<not> buffer_form ?qs \<and> revive_object ?qs = JObj ?qs"
    then show ?thesis using JObj.prems vals keys by (auto simp: parsed_props_def split_beta)
  next
    assume "\<exists>bs. revive_object ?qs = JBuf bs"
    then show ?thesis by auto
  qed
qed auto

lemma buffer_data_read:
  assumes "oget ps ''type'' = Some (JStr ''Buffer'')" and "oget ps ''data'' = Some (JArr xs)"
  shows "revive (JObj ps) = JBuf (map to_uint8 xs)"
proof -
  let ?qs = "map (\<lambda>(k, v). (k, revive v)) ps"
  have look: "oget ?qs k = map_option revive (oget ps k)" for k
    by (induction ps) auto
  have "buffer_form ?qs"
    using assms by (simp add: buffer_form_def look)
  moreover have "to_uint8 (revive x) = to_uint8 x" for x
    using revive_object_cases [of "map (\<lambda>(k, v). (k, revive v)) (case x of JObj ps \<Rightarrow> ps)"]
    by (cases x) (auto simp: to_uint8_def)
  ultimately show ?thesis
    using assms(2) by (simp add: revive_object_buffer look)
qed

text \<open>
  C16. The type of a received message. Whatever text arrives, a value that \<^verbatim>\<open>deserialise\<close> returns
  has distinct keys in every object, integers that a double represents exactly, other numbers
  as literals of the JSON grammar, and no object left, at any depth, whose \<^verbatim>\<open>type\<close> is \<^verbatim>\<open>Buffer\<close> and whose
  \<^verbatim>\<open>data\<close> is an array; a text of such an object itself is read as the buffer of its bytes, each
  entry modulo 256.
\<close>

theorem deserialise_typed:
  assumes "deserialise text = Some v"
  shows "revived_js v
    \<and> (\<forall>ps xs. json_parse text = Some (JObj ps) \<and> oget ps ''type'' = Some (JStr ''Buffer'')
         \<and> oget ps ''data'' = Some (JArr xs) \<longrightarrow> v = JBuf (map to_uint8 xs))"
proof
  show "revived_js v"
    using assms json_parse_typed revive_typed by (auto simp: deserialise_def)
  show "\<forall>ps xs. json_parse text = Some (JObj ps) \<and> oget ps ''type'' = Some (JStr ''Buffer'')
         \<and> oget ps ''data'' = Some (JArr xs) \<longrightarrow> v = JBuf (map to_uint8 xs)"
    using assms buffer_data_read by (auto simp: deserialise_def simp del: revive.simps)
qed

lemma buffer_text:
  "json_parse (json_stringify (JObj [(''type'', JStr ''Buffer''), (''data'', JArr [JNum 45, JNum 300])])) =
     Some (JObj [(''type'', JStr ''Buffer''), (''data'', JArr [JNum 45, JNum 300])])"
  by (rule json_parse_stringify) (simp add: MAX_SAFE_INTEGER_def)

theorem deserialise_typed_witness:
  "revived_js sample_certs
   \<and> deserialise (json_stringify (JObj [(''type'', JStr ''Buffer''), (''data'', JArr [JNum 45, JNum 300])]))
       = Some (JBuf [45, 44])"
proof
  show "revived_js sample_certs"
    using deserialise_typed [OF sample_texts(1)] by blast
  let ?text = "json_stringify (JObj [(''type'', JStr ''Buffer''), (''data'', JArr [JNum 45, JNum 300])])"
  obtain v where v: "deserialise ?text = Some v"
    by (simp only: deserialise_def buffer_text option.map)
  have "v = JBuf (map to_uint8 [JNum 45, JNum 300])"
    using deserialise_typed [OF v, THEN conjunct2, rule_format, OF conjI [OF buffer_text conjI]] by simp
  then show "deserialise ?text = Some (JBuf [45, 44])"
    unfolding v by (simp add: to_uint8_def)
qed

section \<open>Replies\<close>

text \<open>The texts a turn sends.\<close>

definition sent :: "ca_out list \<Rightarrow> string list" where
  "sent xs = concat (map (\<lambda>x. case x of WsSend k t \<Rightarrow> [t] | _ \<Rightarrow> []) xs)"

lemma sent_simps [simp]:
  "sent [] = []" "sent (xs @ ys) = sent xs @ sent ys" "sent (WsSend k t # xs) = t # sent xs"
  by (simp_all add: sent_def)












end
