(* ===== verification/Peer_Recovery.thy ===== *)
theory Peer_Recovery
  imports Proxied_Requests Peer_Lifecycle Peer_Faults Protocol
begin

text \<open>
  Recovery: a peer whose attempts to start have failed, however often and in whatever way, becomes
  ready by the next attempt that goes well; and the loop that keeps it supplied with the JWS keys of
  its hub runs on until \<^verbatim>\<open>stop\<close>.
\<close>

section \<open>Invariants of the control agent inside a peer\<close>

text \<open>
  The interface of a property of the control agent that each of its steps keeps: every turn of a
  peer keeps it too, since a peer changes its agent only through the agent's own steps.
\<close>

locale agent_property =
  fixes P :: "ControlAgent \<Rightarrow> bool" and cd :: codec
  assumes agent_step: "P a \<Longrightarrow> P (fst (ca_step cd a e))"
begin

definition holds_in :: "PeerServer \<Rightarrow> bool" where
  "holds_in s \<longleftrightarrow> P (ps_agent s)"

lemma turn: "env_codec env = cd \<Longrightarrow> holds_in s \<Longrightarrow> holds_in (fst (agent_turn env e s))"
  by (simp add: holds_in_def agent_turn_def agent_step Let_def)

lemma components [simp]:
  "holds_in (s\<lparr> ps_http := h \<rparr>) = holds_in s" "holds_in (s\<lparr> ps_auth := a \<rparr>) = holds_in s"
  "holds_in (s\<lparr> ps_run := w \<rparr>) = holds_in s" "holds_in (s\<lparr> ps_ping := g \<rparr>) = holds_in s"
  "holds_in (s\<lparr> isReady := b \<rparr>) = holds_in s" "holds_in (s\<lparr> stops_closing := m \<rparr>) = holds_in s"
  "holds_in (s\<lparr> retry_armed := rs \<rparr>) = holds_in s" "holds_in (s\<lparr> ps_start := q \<rparr>) = holds_in s"
  "holds_in (s\<lparr> stops_http := j \<rparr>) = holds_in s" "holds_in (s\<lparr> jws_listener := b \<rparr>) = holds_in s"
  "holds_in (s\<lparr> jws_armed := js \<rparr>) = holds_in s" "holds_in (s\<lparr> peer_next := i \<rparr>) = holds_in s"
  "holds_in (s\<lparr> retryStartTimer := f \<rparr>) = holds_in s" "holds_in (s\<lparr> peerJwsRefreshLoopTimer := f \<rparr>) = holds_in s"
  by (simp_all add: holds_in_def)

lemma stop_part: "env_codec env = cd \<Longrightarrow> holds_in s \<Longrightarrow> holds_in (fst (stopPm4mlPart env c s))"
  by (simp add: stopPm4mlPart_def stopPeerJwsRefreshLoop_def turn Let_def)

lemma emit [simp]: "holds_in (fst (emitServerStateEvent e s)) = holds_in s"
  by (simp add: emitServerStateEvent_def Let_def)

lemma returns [simp]: "holds_in (fst (pm4ml_returns ok s)) = holds_in s"
  by (simp add: pm4ml_returns_def Let_def)

lemma effect: "env_codec env = cd \<Longrightarrow> holds_in s \<Longrightarrow> holds_in (fst (agent_effect env x s))"
  by (auto simp: agent_effect_def start_failed_def retryStartPm4ml_def stop_part certs_loaded_def
      startPeerJwsRefreshLoop_def retry_closed_def stop_closed_def Let_def
      split: ca_out.split closer.split option.split pm4ml_wait.split)

lemma call: "env_codec env = cd \<Longrightarrow> holds_in s \<Longrightarrow> holds_in (fst (call_agent env e s))"
  unfolding call_agent_def Let_def by (rule do_all_inv) (auto intro: turn effect)

lemma report: "env_codec env = cd \<Longrightarrow> holds_in s \<Longrightarrow> holds_in (fst (agent_report env x s))"
  by (simp add: agent_report_def init_resolved_def call effect)

lemma token_report: "env_codec env = cd \<Longrightarrow> holds_in s \<Longrightarrow> holds_in (fst (auth_report env x s))"
  by (auto simp: auth_report_def initControlAgent_def call start_failed_def retryStartPm4ml_def stop_part
      split: auth_out.split option.split)

lemma auth: "env_codec env = cd \<Longrightarrow> holds_in s \<Longrightarrow> holds_in (fst (auth_turn env e s))"
  unfolding auth_turn_def Let_def by (rule do_all_inv) (auto intro: token_report)

lemma event: "env_codec env = cd \<Longrightarrow> holds_in s \<Longrightarrow> holds_in (fst (agent_event env e s))"
  by (auto simp: agent_event_def Let_def intro!: do_all_inv turn report)

lemma run_part: "holds_in s \<Longrightarrow> holds_in (fst (run_pm4ml env s))"
  by (simp add: run_pm4ml_def Let_def)

lemma propagate: "env_codec env = cd \<Longrightarrow> holds_in s \<Longrightarrow> holds_in (fst (propagatePeerJWSEvent env d s))"
  using agent_step [of "ps_agent s" "CallSendPeerJWS d"]
  by (simp add: propagatePeerJWSEvent_def holds_in_def ca_step_def Let_def)

lemma peer_turn: "env_codec env = cd \<Longrightarrow> holds_in s \<Longrightarrow> holds_in (fst (peer_step env s e))"
  by (cases e)
     (auto simp: peer_step_def peer_start_def run_part peer_stop_def stop_part propagate
       updatePingAuthDetails_def auth event turn http_started_def http_stopped_def Let_def
       split: start_phase.split option.split)

lemma peer_run: "env_codec env = cd \<Longrightarrow> holds_in s \<Longrightarrow> P (ps_agent (fst (exec (peer_step env) s es)))"
  by (induction es arbitrary: s) (simp_all add: Let_def peer_turn, simp add: holds_in_def)

end

text \<open>Everything that refers to a socket refers to one that was created.\<close>

definition sockets_known :: "ControlAgent \<Rightarrow> bool" where
  "sockets_known a \<longleftrightarrow>
     (\<forall>r \<in> set (ca_receivers a). rc_sock r < length (ca_socks a))
     \<and> (\<forall>p \<in> set (ca_opens a). fst p < length (ca_socks a))"

lemma sent_sockets [simp]: "sockets_known (fst (send_built cd b mid a)) = sockets_known a"
  by (simp add: sockets_known_def)

lemma load_sockets: "sockets_known a \<Longrightarrow> sockets_known (fst (loadCerts cd w a))"
  by (auto simp: loadCerts_def receive_def sockets_known_def ws_open_def sock_state_def
      split: option.split if_splits)

lemma receivers_called: "set (ca_receivers (fst (call_receivers cd text rs a))) \<subseteq> set (ca_receivers a)
    \<and> ca_socks (fst (call_receivers cd text rs a)) = ca_socks a
    \<and> ca_opens (fst (call_receivers cd text rs a)) = ca_opens a"
proof (induction rs arbitrary: a)
  case (Cons r rs)
  let ?a = "a\<lparr> ca_receivers := filter (\<lambda>q. rc_no q \<noteq> rc_no r) (ca_receivers a) \<rparr>"
  show ?case using Cons.IH [of ?a] by (auto simp: Let_def)
qed simp

lemma message_sockets: "sockets_known a \<Longrightarrow> sockets_known (fst (on_message cd k text a))"
  using receivers_called [of cd "text" "receivers_on k a" "fst (ca_handle cd text a)"]
  by (auto simp: on_message_def sockets_known_def Let_def)

lemma closes_sockets [simp]:
  "sockets_known (fst (do_all (finish_close b) cs a)) = sockets_known a"
  by (induction cs arbitrary: a) (auto simp: finish_close_def sockets_known_def)

interpretation sockets: agent_property sockets_known cd for cd
proof (unfold_locales, goal_cases)
  case (1 a e)
  have open_sock: "sockets_known (a\<lparr> ca_socks := (ca_socks a)[k := OPEN], ca_opens := filter (\<lambda>p. fst p \<noteq> k) (ca_opens a) \<rparr>)" for k
    using 1 by (simp add: sockets_known_def)
  show ?case
    using 1 load_sockets [OF open_sock]
    by (cases e)
       (auto simp: ca_ops message_sockets load_sockets ws_close_def split: option.split awaiter.split,
        auto simp: sockets_known_def split: if_splits intro: less_SucI)
qed

section \<open>The turns of an attempt\<close>

text \<open>The retry timer fires, the token comes, the socket opens, the certificates come.\<close>

lemma retry_turn:
  assumes "pm4mlEnabled (env_app env)" and "n \<in> fst ` set (retry_armed s)"
  shows "\<exists>t. peer_step env s (PeerRetryTimer n)
           = (t, [AuthOut (TokenRequest (createHttpOptions (authConfig (env_cfg env))))])
         \<and> ps_run t = Some AwaitToken \<and> ps_agent t = ps_agent s \<and> ps_http t = ps_http s
         \<and> in_flight (ps_auth t) = in_flight (ps_auth s) @ [True]"
  using assms by (simp add: peer_step_def run_pm4ml_def auth_defs)

text \<open>An agent whose new socket \<open>k\<close> has been created by \<^verbatim>\<open>init\<close> and is not open yet.\<close>

definition connecting :: "nat \<Rightarrow> ControlAgent \<Rightarrow> bool" where
  "connecting k a \<longleftrightarrow>
     ca_ws a = Some k \<and> k < length (ca_socks a) \<and> map_of (ca_opens a) k = Some ByCaller
     \<and> ca_hasCallbacks a \<and> receivers_on k a = []"

lemma init_connects:
  assumes "sockets_known a" and "\<not> ws_open a"
  shows "\<exists>b addr. ca_step cd a CallInit = (b, [NewWebSocket (length (ca_socks a)) addr])
           \<and> connecting (length (ca_socks a)) b"
proof -
  let ?a = "schedulePing (a\<lparr> ca_hasCallbacks := True \<rparr>)"
  have closed: "ws_open ?a = ws_open a" by (intro ws_open_cong) (simp_all add: schedulePing_def)
  have "length (ca_socks a) \<notin> fst ` set (ca_opens a)" and "receivers_on (length (ca_socks a)) a = []"
    using assms(1) by (auto simp: sockets_known_def receivers_on_def filter_empty_conv)
  then have "map_of (ca_opens a) (length (ca_socks a)) = None"
    and "filter (\<lambda>r. rc_sock r = length (ca_socks a)) (ca_receivers a) = []"
    by (simp_all add: map_of_eq_None_iff receivers_on_def)
  then show ?thesis
    using assms(2) closed
    by (simp add: ca_step_def ca_init_def open_ws_def Let_def)
       (simp add: connecting_def schedulePing_def receivers_on_def map_add_def)
qed

lemma attempt_token_turn:
  assumes "ps_run s = Some AwaitToken" and "in_flight (ps_auth s) = fs @ [True]"
    and "getOidcToken r = OidcToken tok x"
    and "sockets_known (ps_agent s)" and "\<not> ws_open (ps_agent s)"
  shows "\<exists>t outs. peer_step env s (PeerTokenResponse (length fs) r) = (t, outs)
     \<and> emitted outs = [token_event tok] \<and> ps_run t = Some AwaitInit
     \<and> connecting (length (ca_socks (ps_agent s))) (ps_agent t)"
proof -
  obtain b addr where b: "ca_step (env_codec env) (ps_agent s) CallInit = (b, [NewWebSocket (length (ca_socks (ps_agent s))) addr])"
    "connecting (length (ca_socks (ps_agent s))) b"
    using init_connects [OF assms(4,5)] by blast
  then show ?thesis
    using assms(1-3)
    by (simp add: peer_step_def auth_turn_def auth_defs auth_report_def emitted_token_def
        makeAccessTokenUpdatesResult_def initControlAgent_def call_agent_def agent_turn_def
        agent_effect_def emitServerStateEvent_def emitPingAuthDetails_def then_do_def)
qed

lemma attempt_open_turn:
  assumes "ps_run s = Some AwaitInit" and "connecting k (ps_agent s)"
  shows "\<exists>t outs. peer_step env s (PeerAgent (SockOpen k)) = (t, outs)
     \<and> emitted outs = [] \<and> ps_run t = Some AwaitCerts \<and> awaits_certs k (ps_agent t)"
proof -
  let ?a = "(set_sock k OPEN (ps_agent s))\<lparr> ca_opens := filter (\<lambda>p. fst p \<noteq> k) (ca_opens (ps_agent s)) \<rparr>"
  have step: "ca_step (env_codec env) (ps_agent s) (SockOpen k) = (?a, [InitResolved])"
    using assms(2) by (simp add: ca_step_def on_open_def connecting_def open_resolved_def set_sock_def Let_def)
  have "ws_open ?a" using assms(2) by (simp add: ws_open_def sock_state_def set_sock_def connecting_def)
  then have load: "\<exists>b req. ca_step (env_codec env) ?a CallLoadCerts = (b, [WsSend k req]) \<and> awaits_certs k b"
    using assms(2)
    by (simp add: ca_step_def loadCerts_def receive_def send_built_out then_do_def Let_def)
       (simp add: connecting_def awaits_certs_def receivers_on_def set_sock_def)
  then obtain b req where "ca_step (env_codec env) ?a CallLoadCerts = (b, [WsSend k req])" "awaits_certs k b"
    by blast
  then show ?thesis
    using assms(1) step
    by (simp add: peer_step_def agent_event_def agent_turn_def agent_report_def init_resolved_def
        call_agent_def agent_effect_def then_do_def Let_def)
qed

lemma certs_turn_runs:
  assumes "awaits_certs k (ps_agent s)"
    and "deserialise text = Some msg" and "isCertsPayload msg" and "payload_creds msg = Some c"
    and "ps_run s = Some AwaitCerts" and "attempt_inv s"
  shows "\<exists>t outs. peer_step env s (PeerAgent (SockMessage k text)) = (t, outs)
     \<and> emitted outs = [certs_event c, certs_event c] \<and> isReady t
     \<and> phase_of_peer t = Running (node_delay (checkPeerJwsInterval (env_app env)))"
proof -
  obtain rs where a: "ca_step (env_codec env) (ps_agent s) (SockMessage k text)
      = ((ps_agent s)\<lparr> ca_receivers := rs \<rparr>, [OnCert c, OnCert c, LoadResolved c])"
    using certs_turn_agent [OF assms(1-4)] by blast
  show ?thesis
    using assms(5,6)
    by (simp add: peer_step_def agent_event_def agent_turn_def a agent_report_def agent_effect_def
        emitServerStateEvent_def emitPingAuthDetails_def certs_loaded_def startPeerJwsRefreshLoop_def
        pm4ml_returns_def then_do_def attempt_inv_def phase_of_peer_def Let_def)
qed

lemma good_attempt:
  assumes "pm4mlEnabled (env_app env)" and "attempt_inv s" and "sockets_known (ps_agent s)"
    and "n \<in> fst ` set (retry_armed s)" and "\<not> ws_open (ps_agent s)"
    and "getOidcToken r = OidcToken tok x"
    and "deserialise text = Some msg" and "isCertsPayload msg" and "payload_creds msg = Some c"
    and "k = length (ca_socks (ps_agent s))"
  shows "\<exists>t outs. exec (peer_step env) s
        [PeerRetryTimer n, PeerTokenResponse (length (in_flight (ps_auth s))) r,
         PeerAgent (SockOpen k), PeerAgent (SockMessage k text)] = (t, outs)
     \<and> emitted outs = [token_event tok, certs_event c, certs_event c] \<and> isReady t
     \<and> phase_of_peer t = Running (node_delay (checkPeerJwsInterval (env_app env)))"
proof -
  obtain s1 o1 where s1: "peer_step env s (PeerRetryTimer n) = (s1, o1)" "emitted o1 = []"
      "ps_run s1 = Some AwaitToken" "ps_agent s1 = ps_agent s"
      "in_flight (ps_auth s1) = in_flight (ps_auth s) @ [True]"
    using retry_turn [OF assms(1,4)] by auto
  obtain s2 o2 where s2: "peer_step env s1 (PeerTokenResponse (length (in_flight (ps_auth s))) r) = (s2, o2)"
      "emitted o2 = [token_event tok]" "ps_run s2 = Some AwaitInit" "connecting k (ps_agent s2)"
    using attempt_token_turn [OF s1(3,5) assms(6), of env] assms(3,5,10) s1(4) by auto
  obtain s3 o3 where s3: "peer_step env s2 (PeerAgent (SockOpen k)) = (s3, o3)" "emitted o3 = []"
      "ps_run s3 = Some AwaitCerts" "awaits_certs k (ps_agent s3)"
    using attempt_open_turn [OF s2(3,4)] by blast
  have "attempt_inv s3"
    using peer_step_attempt [of s env "PeerRetryTimer n"] peer_step_attempt [of s1 env "PeerTokenResponse (length (in_flight (ps_auth s))) r"]
      peer_step_attempt [of s2 env "PeerAgent (SockOpen k)"] assms(2) s1(1) s2(1) s3(1) by simp
  from certs_turn_runs [OF s3(4) assms(7-9) s3(3) this] obtain t o4 where
    "peer_step env s3 (PeerAgent (SockMessage k text)) = (t, o4)"
    "emitted o4 = [certs_event c, certs_event c]" "isReady t"
    "phase_of_peer t = Running (node_delay (checkPeerJwsInterval (env_app env)))"
    by blast
  then show ?thesis using s1(1,2) s2(1,2) s3(1,2) by simp
qed

text \<open>
  C20. A peer recovers from any failures. Take any run of a peer with PM4ML enabled, with whatever
  failed attempts, lost connections, timeouts and late responses, that leaves a retry scheduled and
  no open socket. Then one attempt that goes well (the retry timer fires, the token request is
  answered with a token, the new socket opens, and the next message on it brings certificates) makes
  the peer ready and starts its refresh loop; and if no \<^verbatim>\<open>stop\<close> has returned, its server holds this
  token and these certificates, so that it serves requests.
\<close>

theorem peer_recovers:
  assumes pm4ml: "pm4mlEnabled (env_app env)"
    and run: "exec (peer_step env) (createPeerServer cfg) es = (s, outs)"
    and retry: "n \<in> fst ` set (retry_armed s)" and closed: "\<not> ws_open (ps_agent s)"
    and token: "getOidcToken r = OidcToken tok x"
    and certs: "deserialise text = Some msg" "isCertsPayload msg"
    and k: "k = length (ca_socks (ps_agent s))"
  shows "\<exists>t outs2. exec (peer_step env) s
        [PeerRetryTimer n, PeerTokenResponse (length (in_flight (ps_auth s))) r,
         PeerAgent (SockOpen k), PeerAgent (SockMessage k text)] = (t, outs2)
     \<and> isReady t \<and> phase_of_peer t = Running (node_delay (checkPeerJwsInterval (env_app env)))
     \<and> (StopResolved True \<notin> set (outs @ outs2) \<longrightarrow>
          accessToken (hs_state (ps_http t)) = tok \<and> server_certs (ps_http t) = payload_creds msg
          \<and> hd_isReady (serverStateToHealthcheckDetailsDto True (hs_state (ps_http t))))"
proof -
  have inv: "attempt_inv s"
    using peer_attempts.exec_inv [OF attempt_inv_create, of env cfg es] run by simp
  have "sockets.holds_in (createPeerServer cfg)"
    by (simp add: sockets.holds_in_def sockets_known_def createPeerServer_def createControlAgent_def control_agent_def)
  then have known: "sockets_known (ps_agent s)"
    using sockets.peer_run [of env "env_codec env" "createPeerServer cfg" es] run by simp
  obtain c where c: "payload_creds msg = Some c" "truthy (Some c)"
    using certs(2) by (cases "payload_creds msg") (simp_all add: isCertsPayload_def)
  obtain t outs2 where t: "exec (peer_step env) s
        [PeerRetryTimer n, PeerTokenResponse (length (in_flight (ps_auth s))) r,
         PeerAgent (SockOpen k), PeerAgent (SockMessage k text)] = (t, outs2)"
    and e: "emitted outs2 = [token_event tok, certs_event c, certs_event c]" "isReady t"
      "phase_of_peer t = Running (node_delay (checkPeerJwsInterval (env_app env)))"
    using good_attempt [OF pm4ml inv known retry closed token certs c(1) k] by blast
  have view: "accessToken (hs_state (ps_http t)) = tok \<and> server_certs (ps_http t) = Some c"
    if "StopResolved True \<notin> set (outs @ outs2)"
    using server_after_run(2,3) [OF exec_append_eq [OF run t] that] e(1) c(2)
    by (simp add: last_accepted_append accepted_certs_def)
  have "tok \<noteq> []"
    using token by (auto simp: getOidcToken_def split: sum.splits option.splits if_splits)
  with t e(2,3) view c(1) show ?thesis
    by (auto simp: hd_isReady_iff server_certs_def)
qed

text \<open>A peer whose first token request failed on the name of the token endpoint.\<close>

definition unresolved_name :: oidc_http where
  "unresolved_name = Inl (ThrownAxios
     \<lparr> ae_message = ''getaddrinfo'', ae_code = Some ''EAI_AGAIN'', ae_status = None, ae_response = None \<rparr>)"

definition failed_start :: "peer_event list" where
  "failed_start =
     [PeerStart, PeerTokenResponse 0 unresolved_name, PeerAgent (CloseTimeout 0), PeerHttpStarted None]"

definition failed_peer :: "PeerServer \<times> peer_out list" where
  "failed_peer = exec (peer_step sample_env) (createPeerServer sample_cfg) failed_start"

lemma failed_peer_waits:
  "retry_armed (fst failed_peer) = [(0, 5000)]"
  "in_flight (ps_auth (fst failed_peer)) = []"
  "ca_socks (ps_agent (fst failed_peer)) = []" "ca_ws (ps_agent (fst failed_peer)) = None"
  by (simp_all add: failed_peer_def failed_start_def unresolved_name_def getOidcToken_def is_error_def
      isDnsRelatedError_def DNS_RELATED_CODES_def retry_delay_def node_delay_def
      token_turn_defs connect_turn_defs stop_turn_defs http_started_def)

theorem peer_recovers_witness:
  "\<exists>t outs. exec (peer_step sample_env) (fst failed_peer)
      [PeerRetryTimer 0, PeerTokenResponse 0 sample_token,
       PeerAgent (SockOpen 0), PeerAgent (SockMessage 0 certs_text)] = (t, outs) \<and> isReady t"
  using peer_recovers [of sample_env sample_cfg failed_start "fst failed_peer" "snd failed_peer" 0
      sample_token "''tok''" 300 certs_text sample_certs 0]
  by (auto simp: failed_peer_waits failed_peer_def [symmetric] ws_open_def sample_token_ok
      sample_texts)

section \<open>The refresh loop of the JWS keys\<close>

lemma running_stays:
  assumes "(life env e)\<^sup>*\<^sup>* p q" and "p = Running d" and "e \<noteq> PeerStop"
  shows "q = Running d"
  using assms(1) by (induction rule: rtranclp_induct) (auto simp: assms elim: life.cases)

lemma running_turn:
  assumes "pm4mlEnabled (env_app env)" and "attempt_inv s" and "phase_of_peer s = Running d" and "e \<noteq> PeerStop"
  shows "phase_of_peer (fst (peer_step env s e)) = Running d"
  using running_stays [OF peer_turn_lives [OF assms(1,2)] assms(3,4)] .

lemma running_run:
  assumes "pm4mlEnabled (env_app env)" and "attempt_inv s" and "phase_of_peer s = Running d" and "PeerStop \<notin> set es"
  shows "phase_of_peer (fst (exec (peer_step env) s es)) = Running d"
  using assms(2-)
proof (induction es arbitrary: s)
  case (Cons e es)
  then show ?case
    using running_turn [OF assms(1), of s d e] peer_step_attempt [of s env e] by (auto simp: Let_def)
qed simp

lemma running_armed:
  assumes "attempt_inv s" and "phase_of_peer s = Running d"
  shows "\<exists>n. jws_armed s = [(n, d)] \<and> peerJwsRefreshLoopTimer s = Some n"
  using assms
  by (cases "ps_run s"; cases "retry_armed s"; cases "jws_armed s") (auto simp: attempt_inv_def phase_of_peer_def)

lemma fetch_turn:
  assumes "text_codec (cd_stringify cd)"
  shows "\<exists>text. snd (triggerFetchPeerJws cd a) = (if ws_open a then [WsSend (the (ca_ws a)) text] else [])
     \<and> deserialise text = Some (msg_object READ PEER_JWS (Some (JObj [])) (JStr (cd_slug cd (ca_slugs a))))"
  using text_codec.buildMsg_read_back [OF assms, of "Some (JObj [])" None "cd_slug cd (ca_slugs a)" READ PEER_JWS]
  by (simp add: triggerFetchPeerJws_def send_built_out build_PEER_JWS_READ_def buffer_form_def) blast

text \<open>
  C34. The keys of the hub are asked for again and again until \<^verbatim>\<open>stop\<close>. Once a peer runs, exactly
  one interval with the configured delay stays armed through every sequence of responses, socket
  events, timers and messages in which \<^verbatim>\<open>stop\<close> is not called. When it fires and the socket is open,
  the peer sends one message over it, which reads back as the request of the peers' JWS keys, and
  nothing when the socket is not open; firing does not disarm it. A call of \<^verbatim>\<open>stop\<close> ends the loop:
  from then on no interval fires.
\<close>

theorem jws_keys_refreshed_until_stop:
  assumes pm4ml: "pm4mlEnabled (env_app env)" and codec: "text_codec (cd_stringify (env_codec env))"
    and running: "phase_of_peer (fst (exec (peer_step env) (createPeerServer cfg) es)) = Running d"
    and t: "t = fst (exec (peer_step env) (createPeerServer cfg) (es @ fs))" and nostop: "PeerStop \<notin> set fs"
  shows "\<exists>n text. jws_armed t = [(n, d)]
     \<and> snd (peer_step env t (PeerJwsInterval n)) =
         (if ws_open (ps_agent t) then [AgentOut (WsSend (the (ca_ws (ps_agent t))) text)] else [])
     \<and> deserialise text = Some (msg_object READ PEER_JWS (Some (JObj []))
         (JStr (cd_slug (env_codec env) (ca_slugs (ps_agent t)))))
     \<and> jws_armed (fst (peer_step env t (PeerJwsInterval n))) = [(n, d)]
     \<and> (\<forall>m. snd (peer_step env (fst (peer_step env t PeerStop)) (PeerJwsInterval m)) = [])"
proof -
  have inv: "attempt_inv (fst (exec (peer_step env) (createPeerServer cfg) gs))" for gs
    by (rule peer_attempts.exec_inv [OF attempt_inv_create]) simp
  have "phase_of_peer t = Running d"
    using running_run [OF pm4ml inv running nostop] by (simp add: t exec_append Let_def)
  then obtain n where n: "jws_armed t = [(n, d)]" "peerJwsRefreshLoopTimer t = Some n"
    using running_armed [of t d] inv t by blast
  obtain req where "snd (triggerFetchPeerJws (env_codec env) (ps_agent t)) =
        (if ws_open (ps_agent t) then [WsSend (the (ca_ws (ps_agent t))) req] else [])"
      "deserialise req = Some (msg_object READ PEER_JWS (Some (JObj []))
         (JStr (cd_slug (env_codec env) (ca_slugs (ps_agent t)))))"
    using fetch_turn [OF codec] by blast
  moreover have "jws_armed (fst (peer_step env t PeerStop)) = []"
    using n pm4ml by (auto simp: peer_step_def peer_ops split: option.split)
  ultimately show ?thesis
    using n by (intro exI [of _ n] exI [of _ req])
      (simp add: peer_step_def agent_turn_def ca_step_def Let_def)
qed

lemma started_runs:
  assumes "pm4mlEnabled (env_app env)" and "getOidcToken r = OidcToken tok x"
    and "deserialise text = Some msg" and "isCertsPayload msg"
  shows "phase_of_peer (fst (exec (peer_step env) (createPeerServer (env_cfg env))
           [PeerStart, PeerTokenResponse 0 r, PeerAgent (SockOpen 0), PeerAgent (SockMessage 0 text)]))
         = Running (node_delay (checkPeerJwsInterval (env_app env)))"
proof -
  obtain s o1 where s: "exec (peer_step env) (createPeerServer (env_cfg env))
      [PeerStart, PeerTokenResponse 0 r, PeerAgent (SockOpen 0)] = (s, o1)"
    and w: "awaits_certs 0 (ps_agent s)" "ps_run s = Some AwaitCerts"
    using connect_turns [OF assms(1,2)] by blast
  have "attempt_inv s"
    using peer_attempts.exec_inv [OF attempt_inv_create, of env "env_cfg env"
        "[PeerStart, PeerTokenResponse 0 r, PeerAgent (SockOpen 0)]"] s by simp
  moreover obtain c where "payload_creds msg = Some c"
    using assms(4) by (cases "payload_creds msg") (simp_all add: isCertsPayload_def)
  ultimately obtain t o2 where "exec (peer_step env) s [PeerAgent (SockMessage 0 text)] = (t, o2)"
    and "phase_of_peer t = Running (node_delay (checkPeerJwsInterval (env_app env)))"
    using certs_turn_runs [OF w(1) assms(3,4) _ w(2)] by fastforce
  then show ?thesis using exec_append_eq [OF s] by fastforce
qed

theorem jws_keys_refreshed_until_stop_witness:
  "\<exists>n. jws_armed (fst (exec (peer_step sample_env) (createPeerServer sample_cfg)
     ([PeerStart, PeerTokenResponse 0 sample_token, PeerAgent (SockOpen 0),
       PeerAgent (SockMessage 0 certs_text)] @ [PeerHttpStarted None, PeerAgent (SockClose 0)]))) = [(n, 1800000)]"
  using jws_keys_refreshed_until_stop [where env = sample_env and cfg = sample_cfg and d = 1800000
      and es = "[PeerStart, PeerTokenResponse 0 sample_token, PeerAgent (SockOpen 0), PeerAgent (SockMessage 0 certs_text)]"
      and fs = "[PeerHttpStarted None, PeerAgent (SockClose 0)]", OF _ _ _ refl]
    started_runs [of sample_env sample_token "''tok''" 300 certs_text sample_certs]
  by (simp add: json.text_codec_axioms sample_codec_def node_delay_def del: exec.simps) blast

end
