(* ===== verification/Peer_Projection.thy ===== *)
theory Peer_Projection
  imports Adapter_Runs
begin

text \<open>
  The two peers of an adapter run side by side: apart from the credentials of the ping service and
  the JWS notifications, which the adapter hands over, what a peer does in any interleaving with the
  other is what it does alone. The proof is an unwinding: what one observes of a peer depends only on
  what one observed before, and the calls of the adapter's listeners change nothing of it.
\<close>

section \<open>Unwinding\<close>

text \<open>The results of a turn as seen by an observer of the state and of some of the outputs.\<close>

locale observation =
  fixes view :: "'s \<Rightarrow> 'v" and vis :: "'o \<Rightarrow> bool"
begin

definition sim :: "'s \<times> 'o list \<Rightarrow> 's \<times> 'o list \<Rightarrow> bool" where
  "sim q r \<longleftrightarrow> view (fst q) = view (fst r) \<and> filter vis (snd q) = filter vis (snd r)"

lemma sim_refl [simp]: "sim q q"
  by (simp add: sim_def)

lemma sim_trans: "sim q r \<Longrightarrow> sim r u \<Longrightarrow> sim q u"
  by (simp add: sim_def)

lemma sim_pair [simp]: "sim (s, xs) (t, ys) \<longleftrightarrow> view s = view t \<and> filter vis xs = filter vis ys"
  by (simp add: sim_def)

lemma then_do_sim:
  "sim q r \<Longrightarrow> (\<And>s t. view s = view t \<Longrightarrow> sim (f s) (g t)) \<Longrightarrow> sim (then_do q f) (then_do r g)"
  by (simp add: sim_def)

text \<open>Reacting to outputs that look the same, where those that are not seen cause nothing.\<close>

lemma do_all_skip:
  assumes silent: "\<And>x s. \<not> v x \<Longrightarrow> sim (f x s) (s, [])"
    and same: "\<And>x s t. view s = view t \<Longrightarrow> sim (f x s) (f x t)"
  shows "view s = view t \<Longrightarrow> sim (do_all f xs s) (do_all f (filter v xs) t)"
proof (induction xs arbitrary: s t)
  case (Cons x xs)
  show ?case
  proof (cases "v x")
    case True
    then show ?thesis using same [OF Cons.prems] Cons.IH by (simp add: then_do_sim)
  next
    case False
    from silent [OF False, of s] have "view (fst (f x s)) = view t" "filter vis (snd (f x s)) = []"
      using Cons.prems by (simp_all add: sim_def)
    with Cons.IH [of "fst (f x s)" t] False show ?thesis by (simp add: sim_def)
  qed
qed simp

lemma do_all_sim:
  assumes "\<And>x s. \<not> v x \<Longrightarrow> sim (f x s) (s, [])"
    and "\<And>x s t. view s = view t \<Longrightarrow> sim (f x s) (f x t)"
    and "filter v xs = filter v ys" and "view s = view t"
  shows "sim (do_all f xs s) (do_all f ys t)"
proof -
  have "sim (do_all f xs s) (do_all f (filter v xs) s)" and "sim (do_all f ys t) (do_all f (filter v ys) s)"
    using assms(4) by (auto intro!: do_all_skip assms(1,2))
  then show ?thesis using assms(3) by (simp add: sim_def)
qed

end

text \<open>
  The interface of a machine whose turns cannot be told apart in states that cannot be told apart:
  neither can its runs.
\<close>

locale unwinding = observation view vis
  for view :: "'s \<Rightarrow> 'v" and vis :: "'o \<Rightarrow> bool" +
  fixes step :: "'s \<Rightarrow> 'e \<Rightarrow> 's \<times> 'o list"
  assumes consistent: "view s = view t \<Longrightarrow> sim (step s e) (step t e)"
begin

lemma exec_sim: "view s = view t \<Longrightarrow> sim (exec step s es) (exec step t es)"
proof (induction es arbitrary: s t)
  case (Cons e es)
  have "sim (step s e) (step t e)" by (rule consistent) (rule Cons.prems)
  moreover from this have "sim (exec step (fst (step s e)) es) (exec step (fst (step t e)) es)"
    by (intro Cons.IH) (simp add: sim_def)
  ultimately show ?case by (simp add: sim_def Let_def)
qed simp

end

section \<open>What is seen of a control agent\<close>

text \<open>Everything but how many message ids it has used, and the messages it sends with them.\<close>

definition noslug :: "ControlAgent \<Rightarrow> ControlAgent" where
  "noslug a = a\<lparr> ca_slugs := 0 \<rparr>"

fun not_sent :: "ca_out \<Rightarrow> bool" where
  "not_sent (WsSend k t) = False"
| "not_sent _ = True"

interpretation agent: observation noslug not_sent .

lemma noslug_eqE:
  assumes "noslug a = noslug b"
  obtains n where "b = a\<lparr> ca_slugs := n \<rparr>"
proof -
  have "b = (noslug b)\<lparr> ca_slugs := ca_slugs b \<rparr>" by (simp add: noslug_def)
  also have "\<dots> = a\<lparr> ca_slugs := ca_slugs b \<rparr>" unfolding assms [symmetric] by (simp add: noslug_def)
  finally show thesis by (rule that)
qed

lemma noslug_simps [simp]:
  "ca_id (noslug a) = ca_id a" "ca_ws (noslug a) = ca_ws a" "ca_socks (noslug a) = ca_socks a"
  "noslug (a\<lparr> ca_slugs := n \<rparr>) = noslug a"
  by (simp_all add: noslug_def)

lemma slugs_apart [simp]:
  "sock_state (a\<lparr> ca_slugs := n \<rparr>) k = sock_state a k"
  "ws_open (a\<lparr> ca_slugs := n \<rparr>) = ws_open a"
  "not_open_error (a\<lparr> ca_slugs := n \<rparr>) = not_open_error a"
  "ws_address (a\<lparr> ca_slugs := n \<rparr>) = ws_address a"
  "closings_on k (a\<lparr> ca_slugs := n \<rparr>) = closings_on k a"
  "receivers_on k (a\<lparr> ca_slugs := n \<rparr>) = receivers_on k a"
  "on_cert c (a\<lparr> ca_slugs := n \<rparr>) = on_cert c a"
  "loadCerts_resume w res (a\<lparr> ca_slugs := n \<rparr>) = loadCerts_resume w res a"
  by (simp_all add: sock_state_def ws_open_def not_open_error_def ws_address_def closings_on_def
      receivers_on_def on_cert_def loadCerts_resume_def split: option.split)

lemma send_alike: "noslug a = noslug b \<Longrightarrow> agent.sim (send_built cd f i a) (send_built cd f i b)"
  by (elim noslug_eqE) (simp add: agent.sim_def send_built_state send_built_out)

lemma receive_alike: "noslug a = noslug b \<Longrightarrow> agent.sim (receive v w a) (receive v w b)"
  by (elim noslug_eqE) (simp add: agent.sim_def receive_def noslug_def split: option.split)

lemma load_alike: "noslug a = noslug b \<Longrightarrow> agent.sim (loadCerts cd w a) (loadCerts cd w b)"
  unfolding loadCerts_def by (intro agent.then_do_sim send_alike receive_alike)

lemma open_alike: "noslug a = noslug b \<Longrightarrow> agent.sim (open_ws w a) (open_ws w b)"
  by (elim noslug_eqE) (simp add: agent.sim_def open_ws_def schedulePing_def noslug_def Let_def ws_address_def ws_open_def sock_state_def split: option.split)

lemma close_alike: "noslug a = noslug b \<Longrightarrow> agent.sim (ws_close a) (ws_close b)"
  by (elim noslug_eqE) (simp add: agent.sim_def ws_close_def noslug_def split: option.split)

lemma finish_one: "noslug a = noslug b \<Longrightarrow> agent.sim (finish_close ok c a) (finish_close ok c b)"
  by (elim noslug_eqE) (simp add: finish_close_def noslug_def)

lemma finish_alike: "noslug a = noslug b \<Longrightarrow> agent.sim (do_all (finish_close ok) cs a) (do_all (finish_close ok) cs b)"
  by (rule agent.do_all_sim [where v = "\<lambda>c. True"]) (simp_all add: finish_one)

lemma handle_alike:
  assumes "noslug a = noslug b"
  shows "agent.sim (ca_handle cd text a) (ca_handle cd text b)"
proof -
  have "on_cert c a = on_cert c b" "ca_hasCallbacks a = ca_hasCallbacks b" for c
    using assms by (auto elim: noslug_eqE)
  moreover note assms send_alike [OF assms]
  ultimately show ?thesis
    by (simp add: handle_defs send_error_def split: option.split sum.split)
qed

lemma receivers_alike:
  "noslug a = noslug b \<Longrightarrow> agent.sim (call_receivers cd text rs a) (call_receivers cd text rs b)"
proof (induction rs arbitrary: a b)
  case (Cons r rs)
  obtain n where b: "b = a\<lparr> ca_slugs := n \<rparr>" using Cons.prems by (rule noslug_eqE)
  let ?a = "a\<lparr> ca_receivers := filter (\<lambda>q. rc_no q \<noteq> rc_no r) (ca_receivers a) \<rparr>"
  let ?b = "?a\<lparr> ca_slugs := n \<rparr>"
  have "b\<lparr> ca_receivers := filter (\<lambda>q. rc_no q \<noteq> rc_no r) (ca_receivers b) \<rparr> = ?b"
    by (simp add: b)
  moreover have "snd (receiver_message cd text r ?b) = snd (receiver_message cd text r ?a)"
    by (simp add: receiver_message_def split: option.split)
  moreover have "agent.sim (call_receivers cd text rs ?a) (call_receivers cd text rs ?b)"
    by (rule Cons.IH) simp
  moreover have "noslug ?a = noslug ?b" by simp
  ultimately show ?case by (simp only: call_receivers.simps Let_def) (simp add: agent.sim_def del: noslug_simps)
qed simp

lemma uncaught_seen: "list_ex is_uncaught xs = list_ex is_uncaught (filter not_sent xs)"
proof (induction xs)
  case (Cons x xs)
  then show ?case by (cases x) (simp_all add: is_uncaught_def)
qed simp

lemma message_alike: "noslug a = noslug b \<Longrightarrow> agent.sim (on_message cd k text a) (on_message cd k text b)"
proof -
  assume ab: "noslug a = noslug b"
  have h: "agent.sim (ca_handle cd text a) (ca_handle cd text b)" using ab by (rule handle_alike)
  then have "list_ex is_uncaught (snd (ca_handle cd text a)) = list_ex is_uncaught (snd (ca_handle cd text b))"
    unfolding uncaught_seen [of "snd (ca_handle cd text a)"] uncaught_seen [of "snd (ca_handle cd text b)"]
    by (simp add: agent.sim_def)
  moreover have "receivers_on k a = receivers_on k b" using ab by (auto elim: noslug_eqE)
  ultimately show ?thesis
    using h by (auto simp: on_message_def Let_def intro!: agent.then_do_sim receivers_alike)
qed

lemma agent_ops_alike:
  assumes "noslug a = noslug b"
  shows "agent.sim (ca_init a) (ca_init b)" "agent.sim (ca_close c a) (ca_close c b)"
    "agent.sim (on_open cd k a) (on_open cd k b)" "agent.sim (on_close k a) (on_close k b)"
    "agent.sim (on_error k a) (on_error k b)" "agent.sim (ping_timeout a) (ping_timeout b)"
    "agent.sim (receive_timeout m a) (receive_timeout m b)" "agent.sim (close_timeout m a) (close_timeout m b)"
    "noslug (schedulePing a) = noslug (schedulePing b)"
proof -
  obtain n where b: "b = a\<lparr> ca_slugs := n \<rparr>" using assms by (rule noslug_eqE)
  show "agent.sim (ca_init a) (ca_init b)"
    unfolding ca_init_def by (rule open_alike) (simp add: b noslug_def)
  show "agent.sim (ca_close c a) (ca_close c b)"
    unfolding ca_close_def by (rule close_alike) (simp add: b noslug_def)
  show "agent.sim (on_open cd k a) (on_open cd k b)"
    by (auto simp: on_open_def open_resolved_def set_sock_def b noslug_def Let_def
        split: option.split awaiter.split intro!: load_alike)
  show "agent.sim (on_close k a) (on_close k b)"
    unfolding on_close_def Let_def
    by (auto simp: b set_sock_def schedulePing_def noslug_def closings_on_def intro!: finish_alike)
  show "agent.sim (on_error k a) (on_error k b)"
    unfolding on_error_def by (intro agent.then_do_sim close_alike assms) (simp add: b finish_alike)
  show "agent.sim (ping_timeout a) (ping_timeout b)"
    by (auto simp: ping_timeout_def b noslug_def split: option.split intro!: open_alike)
  show "agent.sim (receive_timeout m a) (receive_timeout m b)"
    by (simp add: receive_timeout_def b noslug_def split: option.split)
  show "agent.sim (close_timeout m a) (close_timeout m b)"
    by (simp add: close_timeout_def finish_close_def b noslug_def split: option.split)
  show "noslug (schedulePing a) = noslug (schedulePing b)"
    by (simp add: schedulePing_def b noslug_def)
qed

lemma agent_alike:
  assumes "noslug a = noslug b"
  shows "agent.sim (ca_step cd a e) (ca_step cd b e)"
  by (cases e)
     (simp_all add: ca_step_def agent_ops_alike [OF assms] load_alike [OF assms] message_alike [OF assms]
       triggerFetchPeerJws_def sendPeerJWS_def send_alike [OF assms])

section \<open>What is seen of a peer\<close>

text \<open>
  Everything but its ping service and what is not seen of its agent; of the outputs, everything but
  the messages to the hub and the answers to the adapter's JWS listener.
\<close>

definition own :: "PeerServer \<Rightarrow> PeerServer" where
  "own s = s\<lparr> ps_ping := ping_init, ps_agent := noslug (ps_agent s) \<rparr>"

fun seen :: "peer_out \<Rightarrow> bool" where
  "seen (AgentOut x) = not_sent x"
| "seen (Propagated b) = False"
| "seen _ = True"

interpretation peer: observation own seen .

lemma seen_maps [simp]:
  "filter seen (map AgentOut xs) = map AgentOut (filter not_sent xs)"
  "filter seen (map HttpOut hs) = map HttpOut hs" "filter seen (map AuthOut as) = map AuthOut as"
  by (induction xs) simp_all

lemma own_eqE:
  assumes "own s = own t"
  obtains g a where "t = s\<lparr> ps_ping := g, ps_agent := a \<rparr>" "noslug (ps_agent s) = noslug a"
proof -
  have "t = (own t)\<lparr> ps_ping := ps_ping t, ps_agent := ps_agent t \<rparr>" by (simp add: own_def)
  also have "\<dots> = s\<lparr> ps_ping := ps_ping t, ps_agent := ps_agent t \<rparr>"
    unfolding assms [symmetric] by (simp add: own_def)
  finally have t: "t = s\<lparr> ps_ping := ps_ping t, ps_agent := ps_agent t \<rparr>" .
  have "ps_agent (own s) = ps_agent (own t)" using assms by simp
  then have "noslug (ps_agent s) = noslug (ps_agent t)" by (simp add: own_def)
  with t show thesis by (rule that)
qed

lemma own_fields:
  assumes "own s = own t"
  shows "isReady s = isReady t" "retryStartTimer s = retryStartTimer t" "retry_armed s = retry_armed t"
    "peerJwsRefreshLoopTimer s = peerJwsRefreshLoopTimer t" "jws_armed s = jws_armed t"
    "peer_next s = peer_next t" "jws_listener s = jws_listener t" "ps_start s = ps_start t"
    "ps_run s = ps_run t" "stops_closing s = stops_closing t" "stops_http s = stops_http t"
    "ps_auth s = ps_auth t" "ps_http s = ps_http t" "noslug (ps_agent s) = noslug (ps_agent t)"
  using assms by (auto elim!: own_eqE)

lemma turn_alike:
  assumes "own s = own t"
  shows "own (fst (agent_turn env e s)) = own (fst (agent_turn env e t))"
    "filter not_sent (snd (agent_turn env e s)) = filter not_sent (snd (agent_turn env e t))"
proof -
  obtain g a where t: "t = s\<lparr> ps_ping := g, ps_agent := a \<rparr>" and a: "noslug (ps_agent s) = noslug a"
    using assms by (rule own_eqE)
  show "own (fst (agent_turn env e s)) = own (fst (agent_turn env e t))"
    "filter not_sent (snd (agent_turn env e s)) = filter not_sent (snd (agent_turn env e t))"
    using agent_alike [OF a, of "env_codec env" e]
    by (simp_all add: t agent_turn_def agent.sim_def own_def Let_def)
qed

lemma stop_part_alike:
  assumes "own s = own t"
  shows "peer.sim (stopPm4mlPart env c s) (stopPm4mlPart env c t)"
proof -
  obtain g a where "t = s\<lparr> ps_ping := g, ps_agent := a \<rparr>" "noslug (ps_agent s) = noslug a"
    using assms by (rule own_eqE)
  then have "own (stopPeerJwsRefreshLoop (s\<lparr> ps_auth := stopUpdates (ps_auth s) \<rparr>)) =
      own (stopPeerJwsRefreshLoop (t\<lparr> ps_auth := stopUpdates (ps_auth t) \<rparr>))"
    by (simp add: stopPeerJwsRefreshLoop_def own_def)
  from turn_alike [OF this] show ?thesis by (simp add: stopPm4mlPart_def peer.sim_def Let_def)
qed

lemma piece_alike:
  assumes "own s = own t"
  shows "peer.sim (emitServerStateEvent ev s) (emitServerStateEvent ev t)"
    "peer.sim (certs_loaded env s) (certs_loaded env t)"
    "peer.sim (retry_closed env dns s) (retry_closed env dns t)"
    "peer.sim (stop_closed s) (stop_closed t)" "peer.sim (run_pm4ml env s) (run_pm4ml env t)"
    "peer.sim (http_started err s) (http_started err t)" "peer.sim (http_stopped err s) (http_stopped err t)"
    "emitPeerJWSEvent d s = emitPeerJWSEvent d t"
    "own (s\<lparr> ps_run := w \<rparr>) = own (t\<lparr> ps_run := w \<rparr>)"
    "own (s\<lparr> ps_auth := au \<rparr>) = own (t\<lparr> ps_auth := au \<rparr>)"
proof -
  obtain g a where "t = s\<lparr> ps_ping := g, ps_agent := a \<rparr>" "noslug (ps_agent s) = noslug a"
    using assms by (rule own_eqE)
  note t = this
  show "peer.sim (emitServerStateEvent ev s) (emitServerStateEvent ev t)"
    "peer.sim (certs_loaded env s) (certs_loaded env t)"
    "peer.sim (retry_closed env dns s) (retry_closed env dns t)"
    "peer.sim (stop_closed s) (stop_closed t)" "peer.sim (run_pm4ml env s) (run_pm4ml env t)"
    "peer.sim (http_started err s) (http_started err t)" "peer.sim (http_stopped err s) (http_stopped err t)"
    "emitPeerJWSEvent d s = emitPeerJWSEvent d t"
    "own (s\<lparr> ps_run := w \<rparr>) = own (t\<lparr> ps_run := w \<rparr>)"
    "own (s\<lparr> ps_auth := au \<rparr>) = own (t\<lparr> ps_auth := au \<rparr>)"
    by (simp_all add: t peer_ops emitPeerJWSEvent_def own_def then_do_def split: start_phase.split option.split)
qed

lemma failed_alike: "own s = own t \<Longrightarrow> peer.sim (start_failed env err s) (start_failed env err t)"
  unfolding start_failed_def retryStartPm4ml_def by (intro stop_part_alike piece_alike)

lemma effect_alike:
  assumes "own s = own t"
  shows "peer.sim (agent_effect env x s) (agent_effect env x t)"
  using assms own_fields [OF assms] piece_alike [OF assms] failed_alike [OF assms]
  by (auto simp: agent_effect_def split: ca_out.split closer.split option.split pm4ml_wait.split)

lemma silent_effect: "\<not> not_sent x \<Longrightarrow> peer.sim (agent_effect env x s) (s, [])"
  by (cases x) (simp_all add: agent_effect_def)

lemma call_alike:
  assumes "own s = own t"
  shows "peer.sim (call_agent env e s) (call_agent env e t)"
  unfolding call_agent_def Let_def
  by (rule peer.do_all_sim [where v = not_sent])
     (simp_all add: silent_effect effect_alike turn_alike [OF assms])

lemma report_alike:
  assumes "own s = own t"
  shows "peer.sim (agent_report env x s) (agent_report env x t)"
  using assms
  by (simp add: agent_report_def init_resolved_def own_fields(9) [OF assms] effect_alike [OF assms]
      call_alike [OF piece_alike(9) [OF assms]])

lemma silent_report: "\<not> not_sent x \<Longrightarrow> peer.sim (agent_report env x s) (s, [])"
  by (cases x) (simp_all add: agent_report_def silent_effect)

lemma event_alike:
  assumes "own s = own t"
  shows "peer.sim (agent_event env e s) (agent_event env e t)"
proof -
  have "peer.sim (do_all (agent_report env) (snd (agent_turn env e s)) (fst (agent_turn env e s)))
      (do_all (agent_report env) (snd (agent_turn env e t)) (fst (agent_turn env e t)))"
    by (rule peer.do_all_sim [where v = not_sent], erule silent_report, erule report_alike)
       (rule turn_alike [OF assms])+
  then show ?thesis using assms by (simp add: agent_event_def Let_def)
qed

lemma token_report_alike:
  assumes "own s = own t"
  shows "peer.sim (auth_report env x s) (auth_report env x t)"
  using assms
  by (simp add: auth_report_def initControlAgent_def own_fields(9) [OF assms] piece_alike(1) [OF assms]
      call_alike [OF piece_alike(9) [OF assms]] failed_alike [OF assms]
      split: auth_out.split option.split)

lemma auth_alike:
  assumes "own s = own t"
  shows "peer.sim (auth_turn env e s) (auth_turn env e t)"
proof -
  have "peer.sim (do_all (auth_report env) xs (s\<lparr> ps_auth := au \<rparr>)) (do_all (auth_report env) xs (t\<lparr> ps_auth := au \<rparr>))" for xs au
    by (rule peer.do_all_sim [where v = "\<lambda>x. True"], simp, erule token_report_alike)
       (simp_all add: piece_alike(10) [OF assms])
  then show ?thesis using own_fields(12) [OF assms] by (simp add: auth_turn_def Let_def)
qed

lemma turns_alike:
  assumes "own s = own t"
  shows "peer.sim (peer_start env s) (peer_start env t)" "peer.sim (peer_stop env s) (peer_stop env t)"
    "peer.sim (run_pm4ml env (s\<lparr> retry_armed := rs \<rparr>)) (run_pm4ml env (t\<lparr> retry_armed := rs \<rparr>))"
    "own (s\<lparr> ps_http := h \<rparr>) = own (t\<lparr> ps_http := h \<rparr>)"
    "peer.sim (propagatePeerJWSEvent env d s) (propagatePeerJWSEvent env d t)"
    "own (updatePingAuthDetails pd s) = own (updatePingAuthDetails pd t)"
proof -
  obtain g a where "t = s\<lparr> ps_ping := g, ps_agent := a \<rparr>" "noslug (ps_agent s) = noslug a"
    using assms by (rule own_eqE)
  note t = this
  show "peer.sim (peer_start env s) (peer_start env t)"
    unfolding peer_start_def by (rule piece_alike(5)) (simp add: t own_def)
  show "peer.sim (run_pm4ml env (s\<lparr> retry_armed := rs \<rparr>)) (run_pm4ml env (t\<lparr> retry_armed := rs \<rparr>))"
    by (rule piece_alike(5)) (simp add: t own_def)
  show "own (s\<lparr> ps_http := h \<rparr>) = own (t\<lparr> ps_http := h \<rparr>)"
    "own (updatePingAuthDetails pd s) = own (updatePingAuthDetails pd t)"
    by (simp_all add: t own_def updatePingAuthDetails_def)
  show "peer.sim (peer_stop env s) (peer_stop env t)"
    by (auto simp: peer_stop_def Let_def t(1) own_def t(2) split: option.split intro!: stop_part_alike)
  show "peer.sim (propagatePeerJWSEvent env d s) (propagatePeerJWSEvent env d t)"
    using agent_alike [OF t(2), of "env_codec env" "CallSendPeerJWS d"] t(2)
    by (simp add: t(1) propagatePeerJWSEvent_def own_def Let_def ca_step_def agent.sim_def)
qed

lemma step_alike:
  assumes "own s = own t"
  shows "peer.sim (peer_step env s e) (peer_step env t e)"
  using own_fields [OF assms]
  by (cases e)
     (simp_all add: peer_step_def assms turns_alike [OF assms] piece_alike [OF assms] auth_alike [OF assms]
       event_alike [OF assms] turn_alike [OF assms] Let_def)

text \<open>The calls of the adapter's listeners are not seen.\<close>

fun listener_call :: "peer_event \<Rightarrow> bool" where
  "listener_call (PeerPropagate d) = True"
| "listener_call (PeerPingDetails d) = True"
| "listener_call _ = False"

lemma listener_silent: "listener_call e \<Longrightarrow> peer.sim (peer_step env s e) (s, [])"
proof (cases e)
  case (PeerPropagate d)
  have "filter not_sent (snd (sendPeerJWS cd d a)) = []" for cd a
    by (simp add: sendPeerJWS_def send_built_out)
  then show ?thesis
    by (simp add: PeerPropagate peer_step_def propagatePeerJWSEvent_def sendPeerJWS_def send_built_state own_def Let_def)
qed (simp_all add: peer_step_def updatePingAuthDetails_def own_def)

interpretation peer_runs: unwinding own seen "peer_step env" for env
  by unfold_locales (rule step_alike)

section \<open>A peer in the adapter\<close>

definition outs_of :: "peer_label \<Rightarrow> adapter_out list \<Rightarrow> peer_out list" where
  "outs_of p outs = concat (map (\<lambda>x. case x of PeerOut q y \<Rightarrow> if q = p then [y] else [] | _ \<Rightarrow> []) outs)"

lemma outs_of_simps [simp]:
  "outs_of p [] = []" "outs_of p (xs @ ys) = outs_of p xs @ outs_of p ys"
  "outs_of p (PeerOut q y # xs) = (if q = p then y # outs_of p xs else outs_of p xs)"
  "outs_of p (AdapterStarted a b # xs) = outs_of p xs" "outs_of p (AdapterStopped # xs) = outs_of p xs"
  "outs_of p (AdapterStartFailed e # xs) = outs_of p xs" "outs_of p (AdapterStopFailed e # xs) = outs_of p xs"
  "outs_of p (map (PeerOut q) zs) = (if q = p then zs else [])"
  by (induction zs) (simp_all add: outs_of_def)

lemma outs_of_iff: "y \<in> set (outs_of p outs) \<longleftrightarrow> PeerOut p y \<in> set outs"
  by (auto simp: outs_of_def split: adapter_out.splits if_splits intro: rev_bexI)

lemma results_not_of_peers [simp]:
  "outs_of p (snd (start_result q ok s)) = []" "outs_of p (snd (start_rejected e s)) = []"
  "outs_of p (snd (stop_result q r s)) = []"
  by (simp_all add: start_result_def start_rejected_def stop_result_def Let_def split: option.split)

text \<open>What a report of \<open>p\<close> makes of \<open>p\<close>, and of the other peer.\<close>

lemma report_own: "outs_of p (snd (peer_report env p x s)) = [x]"
  by (cases x) (simp_all add: peer_report_def to_other_def Let_def)

lemma report_other:
  "peer.sim (peer_of (fst (peer_report env p x s)) (other p), outs_of (other p) (snd (peer_report env p x s)))
     (peer_of s (other p), [])"
  using listener_silent [of _ "peer_env_of env (other p)" "peer_of s (other p)"]
  by (cases x) (simp_all add: peer_report_def to_other_def Let_def peer.sim_def)

lemma turn_own:
  "peer_of (fst (peer_turn env p e s)) p = fst (peer_step (peer_env_of env p) (peer_of s p) e)"
  "outs_of p (snd (peer_turn env p e s)) = snd (peer_step (peer_env_of env p) (peer_of s p) e)"
proof -
  have "outs_of p (snd (do_all (peer_report env p) xs t)) = xs" for xs t
    by (induction xs arbitrary: t) (simp_all add: report_own)
  then show "outs_of p (snd (peer_turn env p e s)) = snd (peer_step (peer_env_of env p) (peer_of s p) e)"
    by (simp add: peer_turn_def Let_def)
qed (simp add: peer_turn_def Let_def peer_reports_frame)

lemma turn_other:
  "peer.sim (peer_of (fst (peer_turn env p e s)) (other p), outs_of (other p) (snd (peer_turn env p e s)))
     (peer_of s (other p), [])"
proof -
  have "peer.sim (peer_of (fst (do_all (peer_report env p) xs t)) (other p),
        outs_of (other p) (snd (do_all (peer_report env p) xs t))) (peer_of t (other p), [])" for xs t
  proof (induction xs arbitrary: t)
    case (Cons x xs)
    then show ?case using report_other [where env = env and p = p and x = x and s = t] by (simp add: peer.sim_def)
  qed simp
  from this [of "snd (peer_step (peer_env_of env p) (peer_of s p) e)"
      "set_peer p (fst (peer_step (peer_env_of env p) (peer_of s p) e)) s"]
  show ?thesis by (simp add: peer_turn_def Let_def)
qed

text \<open>The events of an adapter that concern peer \<open>p\<close>.\<close>

fun own_event :: "peer_label \<Rightarrow> adapter_event \<Rightarrow> peer_event list" where
  "own_event p AdapterStart = [PeerStart]"
| "own_event p AdapterStop = [PeerStop]"
| "own_event p (OfPeer q e) = (if q = p \<and> \<not> adapter_call e then [e] else [])"

definition own_events :: "peer_label \<Rightarrow> adapter_event list \<Rightarrow> peer_event list" where
  "own_events p es = concat (map (own_event p) es)"

lemma adapter_step_own:
  "peer.sim (peer_of (fst (adapter_step env s e)) p, outs_of p (snd (adapter_step env s e)))
     (exec (peer_step (peer_env_of env p)) (peer_of s p) (own_event p e))"
proof -
  have both: "peer.sim (peer_of (fst (then_do (peer_turn env PeerA a s) (peer_turn env PeerB a))) p,
        outs_of p (snd (then_do (peer_turn env PeerA a s) (peer_turn env PeerB a))))
      (peer_step (peer_env_of env p) (peer_of s p) a)" for a
  proof (cases p)
    case PeerA
    then show ?thesis
      using turn_other [where env = env and p = PeerB and e = a and s = "fst (peer_turn env PeerA a s)"] turn_own [where env = env and p = PeerA and e = a and s = s]
      by (simp add: peer.sim_def)
  next
    case PeerB
    then show ?thesis
      using turn_other [where env = env and p = PeerA and e = a and s = s] turn_own [where env = env and p = PeerB and e = a and s = "fst (peer_turn env PeerA a s)"]
        step_alike [of "peer_of (fst (peer_turn env PeerA a s)) PeerB" "peer_of s PeerB" "peer_env_of env PeerB" a]
      by (simp add: peer.sim_def)
  qed
  show ?thesis
  proof (cases e)
    case (OfPeer q a)
    have "q = p \<or> p = other q" by (cases p; cases q) simp_all
    then show ?thesis
      using turn_own [where env = env and p = p and e = a and s = s] turn_other [where env = env and p = q and e = a and s = s] OfPeer
      by (auto simp: adapter_step_def peer.sim_def Let_def)
  qed (use both in \<open>simp_all add: adapter_step_def adapter_start_def adapter_stop_def peer.sim_def Let_def\<close>)
qed

lemma adapter_run_own:
  "peer.sim (peer_of (fst (exec (adapter_step env) s es)) p, outs_of p (snd (exec (adapter_step env) s es)))
     (exec (peer_step (peer_env_of env p)) (peer_of s p) (own_events p es))"
proof (induction es arbitrary: s)
  case (Cons e es)
  let ?t = "fst (adapter_step env s e)"
  have step: "peer.sim (peer_of ?t p, outs_of p (snd (adapter_step env s e)))
      (exec (peer_step (peer_env_of env p)) (peer_of s p) (own_event p e))"
    by (rule adapter_step_own)
  then have "peer.sim (exec (peer_step (peer_env_of env p)) (peer_of ?t p) (own_events p es))
      (exec (peer_step (peer_env_of env p)) (fst (exec (peer_step (peer_env_of env p)) (peer_of s p) (own_event p e)))
        (own_events p es))"
    by (intro peer_runs.exec_sim) (simp add: peer.sim_def)
  with step Cons.IH [of ?t] show ?case
    by (simp add: own_events_def exec_append peer.sim_def Let_def)
qed (simp add: own_events_def)

lemma created_peer: "peer_of (createProxyAdapter (ad_app env)) p = createPeerServer (env_cfg (peer_env_of env p))"
  by (cases p) (simp_all add: createProxyAdapter_def peer_of_def peer_env_of_def)

section \<open>The start of the adapter\<close>

definition started :: "peer_label \<Rightarrow> Adapter \<Rightarrow> bool option" where
  "started p s = (case p of PeerA \<Rightarrow> startedA s | PeerB \<Rightarrow> startedB s)"

text \<open>How the state of \<^verbatim>\<open>Promise.all\<close> and the results put out so far agree.\<close>

definition booked :: "Adapter \<Rightarrow> adapter_out list \<Rightarrow> bool" where
  "booked s outs \<longleftrightarrow>
     (\<forall>p ok. PeerOut p (StartResolved ok) \<in> set outs \<longrightarrow> started p s \<noteq> None)
     \<and> (\<forall>p ok. started p s = Some ok \<longrightarrow> PeerOut p (StartResolved ok) \<in> set outs)
     \<and> (\<forall>p. started p s \<noteq> None \<longrightarrow> started (other p) s \<noteq> None \<longrightarrow> start_settled s)
     \<and> (start_settled s \<longrightarrow>
          (\<exists>a b. AdapterStarted a b \<in> set outs \<and> PeerOut PeerA (StartResolved a) \<in> set outs
             \<and> PeerOut PeerB (StartResolved b) \<in> set outs)
          \<or> (\<exists>p e. PeerOut p (StartRejected e) \<in> set outs))"

fun start_out :: "adapter_out \<Rightarrow> bool" where
  "start_out (PeerOut p (StartResolved ok)) = True"
| "start_out (PeerOut p (StartRejected e)) = True"
| "start_out _ = False"

lemma booked_other:
  assumes "booked s outs" and "\<forall>x \<in> set xs. \<not> start_out x"
    and "\<And>p. started p t = started p s" and "start_settled t = start_settled s"
  shows "booked t (outs @ xs)"
proof -
  have "PeerOut p (StartResolved ok) \<notin> set xs" for p ok
    using assms(2) by auto
  then show ?thesis using assms(1,3,4) by (auto simp: booked_def)
qed

lemma listener_quiet: "listener_call e \<Longrightarrow> x \<in> set (snd (peer_step env s e)) \<Longrightarrow> \<not> start_out (PeerOut p x)"
  by (cases e) (auto simp: peer_step_def propagatePeerJWSEvent_def Let_def split: if_splits)

lemma start_frame [simp]:
  "started q (set_peer p t s) = started q s" "start_settled (set_peer p t s) = start_settled s"
  "started q (fst (to_other env p e s)) = started q s"
  "start_settled (fst (to_other env p e s)) = start_settled s"
  "started q (fst (stop_result p r s)) = started q s" "start_settled (fst (stop_result p r s)) = start_settled s"
  by (simp_all add: started_def set_peer_def to_other_def stop_result_def Let_def split: peer_label.split)

lemma to_other_quiet: "listener_call e \<Longrightarrow> \<forall>x \<in> set (snd (to_other env p e s)). \<not> start_out x"
  using listener_quiet by (auto simp: to_other_def Let_def)

lemma stop_result_quiet: "\<forall>x \<in> set (snd (stop_result p r s)). \<not> start_out x"
  by (simp add: stop_result_def Let_def split: option.split)

lemma start_result_fields:
  "started q (fst (start_result p ok s)) = (if q = p then Some ok else started q s)"
  "start_settled (fst (start_result p ok s)) \<longleftrightarrow> start_settled s \<or> started (other p) s \<noteq> None"
  by (cases p; cases q; simp add: start_result_def started_def Let_def split: option.split)+

lemma start_result_out:
  "snd (start_result p ok s) =
     (if start_settled s \<or> started (other p) s = None then []
      else [AdapterStarted (the (started PeerA (fst (start_result p ok s)))) (the (started PeerB (fst (start_result p ok s))))])"
  by (cases p) (auto simp: start_result_def started_def Let_def split: option.split)

lemma start_result_booked:
  assumes "booked s outs"
  shows "booked (fst (start_result p ok s)) (outs @ PeerOut p (StartResolved ok) # snd (start_result p ok s))"
proof -
  let ?t = "fst (start_result p ok s)" and ?outs = "outs @ PeerOut p (StartResolved ok) # snd (start_result p ok s)"
  have resolved: "PeerOut q (StartResolved b) \<in> set ?outs \<longleftrightarrow>
      PeerOut q (StartResolved b) \<in> set outs \<or> (q = p \<and> b = ok)" for q b
    by (auto simp: start_result_out)
  have told: "PeerOut q (StartResolved (the (started q ?t))) \<in> set ?outs" if "started (other p) s \<noteq> None" for q
    using assms that resolved
    by (cases "q = p"; cases p; cases q) (auto simp: booked_def start_result_fields)
  show ?thesis
    unfolding booked_def
  proof (intro conjI)
    show "\<forall>p' b. PeerOut p' (StartResolved b) \<in> set ?outs \<longrightarrow> started p' ?t \<noteq> None"
      using assms resolved by (auto simp: booked_def start_result_fields)
    show "\<forall>p' b. started p' ?t = Some b \<longrightarrow> PeerOut p' (StartResolved b) \<in> set ?outs"
      using assms resolved by (auto simp: booked_def start_result_fields split: if_splits)
    show "\<forall>p'. started p' ?t \<noteq> None \<longrightarrow> started (other p') ?t \<noteq> None \<longrightarrow> start_settled ?t"
    proof (intro allI impI)
      fix q assume "started q ?t \<noteq> None" and "started (other q) ?t \<noteq> None"
      moreover have "started q s \<noteq> None \<Longrightarrow> started (other q) s \<noteq> None \<Longrightarrow> start_settled s"
        using assms by (auto simp: booked_def)
      ultimately show "start_settled ?t"
        by (cases p; cases q) (auto simp: start_result_fields split: if_splits)
    qed
    show "start_settled ?t \<longrightarrow>
        (\<exists>a b. AdapterStarted a b \<in> set ?outs \<and> PeerOut PeerA (StartResolved a) \<in> set ?outs
             \<and> PeerOut PeerB (StartResolved b) \<in> set ?outs)
          \<or> (\<exists>p e. PeerOut p (StartRejected e) \<in> set ?outs)"
    proof (cases "start_settled s")
      case True
      then show ?thesis using assms by (auto simp: booked_def)
    next
      case False
      show ?thesis
      proof (cases "started (other p) s = None")
        case True
        with False show ?thesis by (simp add: start_result_fields)
      next
        case started: False
        have "AdapterStarted (the (started PeerA ?t)) (the (started PeerB ?t)) \<in> set ?outs"
          using False started by (subst start_result_out) auto
        with told [OF started] show ?thesis by blast
      qed
    qed
  qed
qed

lemma start_rejected_booked:
  assumes "booked s outs"
  shows "booked (fst (start_rejected e s)) (outs @ PeerOut p (StartRejected e) # snd (start_rejected e s))"
proof -
  have "started q (fst (start_rejected e s)) = started q s" "start_settled (fst (start_rejected e s))"
    "\<forall>x \<in> set (snd (start_rejected e s)). \<not> start_out x" for q
    by (simp_all add: start_rejected_def started_def split: peer_label.split)
  moreover from this(3) have "PeerOut q (StartResolved ok) \<notin> set (snd (start_rejected e s))" for q ok
    by auto
  ultimately show ?thesis using assms by (auto simp: booked_def)
qed

lemma report_booked:
  assumes "booked s outs"
  shows "booked (fst (peer_report env p x s)) (outs @ snd (peer_report env p x s))"
proof (cases "start_out (PeerOut p x)")
  case True
  then show ?thesis
    using start_result_booked [OF assms] start_rejected_booked [OF assms]
    by (cases x) (simp_all add: peer_report_def)
next
  case False
  have "\<forall>y \<in> set (snd (to_other env p (PeerPropagate d) s)). \<not> start_out y"
    "\<forall>y \<in> set (snd (to_other env p (PeerPingDetails pd) s)). \<not> start_out y" for d pd
    by (rule to_other_quiet, simp)+
  then have "\<forall>y \<in> set (snd (peer_report env p x s)). \<not> start_out y"
    using False stop_result_quiet [of p _ s] by (cases x) (simp_all add: peer_report_def)
  moreover have "started q (fst (peer_report env p x s)) = started q s"
    and "start_settled (fst (peer_report env p x s)) = start_settled s" for q
    using False by (cases x; simp add: peer_report_def)+
  ultimately show ?thesis by (intro booked_other [OF assms]) blast+
qed

lemma reports_booked:
  "booked s outs \<Longrightarrow> booked (fst (do_all (peer_report env p) xs s)) (outs @ snd (do_all (peer_report env p) xs s))"
proof (induction xs arbitrary: s outs)
  case (Cons x xs)
  from Cons.IH [OF report_booked [OF Cons.prems, of env p x]] show ?case by simp
qed simp

lemma turn_booked:
  assumes "booked s outs"
  shows "booked (fst (peer_turn env p e s)) (outs @ snd (peer_turn env p e s))"
proof -
  have "booked (set_peer p t s) outs" for t using booked_other [OF assms, of "[]"] by simp
  then show ?thesis using reports_booked by (simp add: peer_turn_def Let_def)
qed

lemma step_booked:
  assumes "booked s outs"
  shows "booked (fst (adapter_step env s e)) (outs @ snd (adapter_step env s e))"
proof -
  have "booked (fst (then_do (peer_turn env p a s) (peer_turn env q a)))
      (outs @ snd (then_do (peer_turn env p a s) (peer_turn env q a)))" for p q a
    using turn_booked [OF turn_booked [OF assms], where p = q and e = a] by simp
  then show ?thesis
    using assms turn_booked [OF assms]
    by (cases e) (simp_all add: adapter_step_def adapter_start_def adapter_stop_def)
qed

lemma run_booked:
  "booked s outs \<Longrightarrow> booked (fst (exec (adapter_step env) s es)) (outs @ snd (exec (adapter_step env) s es))"
proof (induction es arbitrary: s outs)
  case (Cons e es)
  from Cons.IH [OF step_booked [OF Cons.prems, of env e]] show ?case by (simp add: Let_def)
qed simp

lemma created_booked: "booked (createProxyAdapter cfg) []"
  by (simp add: booked_def started_def createProxyAdapter_def split: peer_label.split)

text \<open>The events of a peer whose start meets no failure.\<close>

definition good_start :: "oidc_http \<Rightarrow> string \<Rightarrow> peer_event list" where
  "good_start r t =
     [PeerStart, PeerTokenResponse 0 r, PeerAgent (SockOpen 0), PeerAgent (SockMessage 0 t), PeerHttpStarted None]"

lemma peer_starts_well:
  assumes pm4ml: "pm4mlEnabled (ad_app env)" and good: "own_events p es = good_start r t"
    and token: "getOidcToken r = OidcToken tok n"
    and certs: "deserialise t = Some msg" "isCertsPayload msg"
    and run: "exec (adapter_step env) (createProxyAdapter (ad_app env)) es = (s, outs)"
  shows "isReady (peer_of s p) \<and> accessToken (hs_state (ps_http (peer_of s p))) = tok
     \<and> server_certs (ps_http (peer_of s p)) = payload_creds msg"
    and "PeerOut p (StartResolved ok) \<in> set outs \<longleftrightarrow> ok" and "PeerOut p (StartRejected e) \<notin> set outs"
proof -
  let ?env = "peer_env_of env p"
  have env: "pm4mlEnabled (env_app ?env)" using pm4ml by (simp add: peer_env_of_def)
  obtain c where c: "payload_creds msg = Some c"
    using certs(2) by (cases "payload_creds msg") (simp_all add: isCertsPayload_def)
  from start_turns [OF env token certs c] obtain u addr where
    u: "exec (peer_step ?env) (createPeerServer (env_cfg ?env)) (good_start r t) =
      (u, [AuthOut (TokenRequest (createHttpOptions (authConfig (env_cfg ?env)))),
           EmitPingAuthDetails (token_event tok), AgentOut (NewWebSocket 0 addr), AgentOut (WsSend 0 (certs_request ?env)),
           EmitPingAuthDetails (certs_event c), HttpOut (ArmShutdown 0 GRACEFUL_AGENT_SHUTDOWN_MS),
           EmitPingAuthDetails (certs_event c),
           ArmJwsLoop (node_delay (checkPeerJwsInterval (env_app ?env))), HttpStart, StartResolved True])"
    and ready: "isReady u" "accessToken (hs_state (ps_http u)) = tok" "server_certs (ps_http u) = Some c"
    unfolding good_start_def by blast
  have sim: "own (peer_of s p) = own u" "filter seen (outs_of p outs) = filter seen (snd (exec (peer_step ?env)
      (createPeerServer (env_cfg ?env)) (good_start r t)))"
    using adapter_run_own [of env "createProxyAdapter (ad_app env)" es p] run u
    by (simp_all add: created_peer good peer.sim_def)
  show "isReady (peer_of s p) \<and> accessToken (hs_state (ps_http (peer_of s p))) = tok
     \<and> server_certs (ps_http (peer_of s p)) = payload_creds msg"
    using own_fields(1,13) [OF sim(1)] ready c by simp
  have out: "PeerOut p x \<in> set outs \<longleftrightarrow> x \<in> set (filter seen (outs_of p outs))" if "seen x" for x
    using that by (simp add: outs_of_iff)
  show "PeerOut p (StartResolved ok) \<in> set outs \<longleftrightarrow> ok" "PeerOut p (StartRejected e) \<notin> set outs"
    unfolding sim(2) u by (subst out, simp, simp add: sim(2) u)+
qed

text \<open>
  C3. The adapter starts, in whatever order the events of the two peers come. With PM4ML enabled,
  in every run of the adapter that contains, for each peer, its start, a token, the opening of its
  socket, certificates and the start of its server in this order, interleaved with those of the
  other peer in any way, both peers become ready, each server with the token and the certificates
  of its own hub, and the call of \<^verbatim>\<open>start\<close> returns with both results true.
\<close>

theorem adapter_starts_interleaved:
  assumes pm4ml: "pm4mlEnabled (ad_app env)" and good: "\<And>p. own_events p es = good_start (r p) (t p)"
    and token: "\<And>p. getOidcToken (r p) = OidcToken (tok p) (n p)"
    and certs: "\<And>p. deserialise (t p) = Some (msg p)" "\<And>p. isCertsPayload (msg p)"
    and run: "exec (adapter_step env) (createProxyAdapter (ad_app env)) es = (s, outs)"
  shows "AdapterStarted True True \<in> set outs
     \<and> (\<forall>p. isReady (peer_of s p) \<and> accessToken (hs_state (ps_http (peer_of s p))) = tok p
          \<and> server_certs (ps_http (peer_of s p)) = payload_creds (msg p))"
proof -
  note peer = peer_starts_well [OF pm4ml good token certs run]
  have "booked s outs"
    using run_booked [OF created_booked, of env "ad_app env" es] run by simp
  then obtain a b where "AdapterStarted a b \<in> set outs"
    "PeerOut PeerA (StartResolved a) \<in> set outs" "PeerOut PeerB (StartResolved b) \<in> set outs"
    using peer(2,3) unfolding booked_def by (metis other.simps(1))
  then show ?thesis using peer by auto
qed

definition interleaved_start :: "adapter_event list" where
  "interleaved_start =
     [AdapterStart, OfPeer PeerB (PeerTokenResponse 0 sample_token), OfPeer PeerA (PeerTokenResponse 0 sample_token),
      OfPeer PeerA (PeerAgent (SockOpen 0)), OfPeer PeerA (PeerAgent (SockMessage 0 certs_text)),
      OfPeer PeerB (PeerAgent (SockOpen 0)), OfPeer PeerA (PeerHttpStarted None),
      OfPeer PeerB (PeerAgent (SockMessage 0 certs_text)), OfPeer PeerB (PeerHttpStarted None)]"

theorem adapter_starts_interleaved_witness:
  "AdapterStarted True True \<in> set (snd (exec (adapter_step sample_adapter_env)
     (createProxyAdapter sample_app) interleaved_start))"
proof -
  have app: "ad_app sample_adapter_env = sample_app" by (simp add: sample_adapter_env_def)
  have own: "own_events p interleaved_start = good_start sample_token certs_text" for p
    by (cases p) (simp_all add: interleaved_start_def own_events_def good_start_def)
  have pm4ml: "pm4mlEnabled (ad_app sample_adapter_env)" by (simp add: app sample_app_def)
  show ?thesis
    using adapter_starts_interleaved [where env = sample_adapter_env and es = interleaved_start
        and tok = "\<lambda>p. ''tok''" and n = "\<lambda>p. 300" and msg = "\<lambda>p. sample_certs",
        OF pm4ml own sample_token_ok sample_texts(1) sample_certs_simps(1)]
    by (metis app prod.collapse)
qed

end
