(* ===== verification/Hanging_Start.thy ===== *)
theory Hanging_Start
  imports Peer_Lifecycle
begin

text \<open>
  The start of a peer whose management API cannot be reached: the invariant that it still waits
  for its first socket, kept by every event but the opening of that socket.
\<close>

section \<open>A management API that cannot be reached\<close>

text \<open>The start waits for \<^verbatim>\<open>init\<close>, whose promise only the opening of socket \<open>k\<close> settles.\<close>

definition hanging :: "nat \<Rightarrow> PeerServer \<Rightarrow> bool" where
  "hanging k s \<longleftrightarrow>
     ps_run s = Some AwaitInit \<and> ps_start s = InPm4ml \<and> retry_armed s = [] \<and> init_awaits k (ps_agent s)"

fun not_starting :: "peer_out \<Rightarrow> bool" where
  "not_starting HttpStart = False"
| "not_starting (StartResolved b) = False"
| "not_starting (StartRejected e) = False"
| "not_starting (ArmRetry d) = False"
| "not_starting _ = True"

definition stays :: "nat \<Rightarrow> peer_result \<Rightarrow> bool" where
  "stays k r \<longleftrightarrow> hanging k (fst r) \<and> list_all not_starting (snd r)"

lemma do_all_stays:
  assumes "hanging k s" and "\<And>x t. x \<in> set xs \<Longrightarrow> hanging k t \<Longrightarrow> stays k (f x t)"
  shows "stays k (do_all f xs s)"
  using assms
proof (induction xs arbitrary: s)
  case (Cons x xs)
  have "stays k (f x s)" using Cons.prems by simp
  moreover have "stays k (do_all f xs (fst (f x s)))"
    using calculation Cons.prems by (intro Cons.IH) (simp_all add: stays_def)
  ultimately show ?case by (simp add: stays_def)
qed (simp add: stays_def)

lemma hanging_components [simp]:
  "hanging k (s\<lparr> ps_http := h \<rparr>) = hanging k s"
  "hanging k (s\<lparr> ps_auth := a \<rparr>) = hanging k s"
  "hanging k (s\<lparr> ps_ping := p \<rparr>) = hanging k s"
  "hanging k (s\<lparr> isReady := b \<rparr>) = hanging k s"
  "hanging k (s\<lparr> stops_closing := m \<rparr>) = hanging k s"
  "hanging k (s\<lparr> stops_http := n \<rparr>) = hanging k s"
  by (simp_all add: hanging_def)

lemma http_outs_not_starting [simp]: "list_all not_starting (map HttpOut xs)" "list_all not_starting (map AgentOut ys)"
  by (simp_all add: list_all_iff)

lemma agent_effect_stays:
  "hanging k s \<Longrightarrow> \<not> settles_init x \<Longrightarrow> stays k (agent_effect env x s)"
  by (cases x)
     (auto simp: agent_effect_def stays_def hanging_def stop_closed_def emitServerStateEvent_def
       emitPingAuthDetails_def emitPeerJWSEvent_def Let_def split: closer.split)

lemma auth_report_stays: "hanging k s \<Longrightarrow> stays k (auth_report env x s)"
  by (cases x)
     (auto simp: auth_report_def stays_def hanging_def emitServerStateEvent_def emitPingAuthDetails_def Let_def)

lemma agent_keeps_hanging:
  "hanging k s \<Longrightarrow> leaves_init k (ps_agent s) e \<Longrightarrow> hanging k (s\<lparr> ps_agent := fst (ca_step cd (ps_agent s) e) \<rparr>)"
  by (simp add: hanging_def init_awaits_step)

lemma agent_event_stays:
  assumes "hanging k s" and "e \<noteq> SockOpen k"
  shows "stays k (agent_event env e s)"
proof (cases "agent_call e")
  case False
  then have leaves: "leaves_init k (ps_agent s) e" using assms(2) by (auto simp: leaves_init_def)
  have quiet: "\<not> settles_init x" if "x \<in> set (snd (ca_step (env_codec env) (ps_agent s) e))" for x
    using assms(1) init_awaits_out [OF _ leaves that] by (simp add: hanging_def)
  then have "stays k (agent_report env x t)"
    if "x \<in> set (snd (ca_step (env_codec env) (ps_agent s) e))" "hanging k t" for x t
    using that agent_effect_stays by (fastforce simp: agent_report_def)
  then show ?thesis
    using False agent_keeps_hanging [OF assms(1) leaves]
    by (auto simp: agent_event_def agent_turn_def Let_def intro!: do_all_stays)
qed (use assms in \<open>simp add: agent_event_def stays_def\<close>)

lemma auth_turn_stays: "hanging k s \<Longrightarrow> stays k (auth_turn env e s)"
  by (auto simp: auth_turn_def Let_def intro!: do_all_stays auth_report_stays)

lemma close_stays: "hanging k s \<Longrightarrow> stays k (stopPm4mlPart env c s)"
proof -
  assume h: "hanging k s"
  let ?t = "stopPeerJwsRefreshLoop (s\<lparr> ps_auth := stopUpdates (ps_auth s) \<rparr>)"
  have "hanging k ?t" using h by (simp add: hanging_def stopPeerJwsRefreshLoop_def)
  then have "hanging k (?t\<lparr> ps_agent := fst (ca_step (env_codec env) (ps_agent ?t) (CallClose c)) \<rparr>)"
    by (rule agent_keeps_hanging) (simp add: leaves_init_def)
  then show ?thesis by (simp add: stopPm4mlPart_def agent_turn_def stays_def Let_def)
qed

lemma hanging_step:
  assumes "hanging k s" and "e \<noteq> PeerAgent (SockOpen k)"
  shows "stays k (peer_step env s e)"
proof (cases e)
  case PeerStop
  have "hanging k (s\<lparr> retry_armed := (case retryStartTimer s of None \<Rightarrow> retry_armed s
      | Some n \<Rightarrow> filter (\<lambda>p. fst p \<noteq> n) (retry_armed s)), jws_listener := False, stops_closing := m \<rparr>)" for m
    using assms(1) by (simp add: hanging_def split: option.split)
  then have "stays k (stopPm4mlPart env ForStop (s\<lparr> retry_armed := (case retryStartTimer s of None \<Rightarrow> retry_armed s
      | Some n \<Rightarrow> filter (\<lambda>p. fst p \<noteq> n) (retry_armed s)), jws_listener := False, stops_closing := m \<rparr>))" for m
    by (rule close_stays)
  then show ?thesis
    using assms(1) PeerStop
    by (simp add: peer_step_def peer_stop_def Let_def) (simp add: stays_def hanging_def split: option.split)
next
  case (PeerAgent a)
  then show ?thesis using assms by (simp add: peer_step_def agent_event_stays)
next
  case (PeerPropagate d)
  have "leaves_init k (ps_agent s) (CallSendPeerJWS d)" by (simp add: leaves_init_def)
  from agent_keeps_hanging [OF assms(1) this, of "env_codec env"] show ?thesis
    using PeerPropagate assms(1)
    by (simp add: peer_step_def propagatePeerJWSEvent_def stays_def ca_step_def Let_def)
next
  case (PeerJwsInterval n)
  have "leaves_init k (ps_agent s) CallTriggerFetch" by (simp add: leaves_init_def)
  from agent_keeps_hanging [OF assms(1) this, of "env_codec env"] show ?thesis
    using PeerJwsInterval assms(1)
    by (simp add: peer_step_def agent_turn_def stays_def ca_step_def Let_def)
next
  case PeerStart
  then show ?thesis using assms(1) by (simp add: peer_step_def stays_def hanging_def)
next
  case (PeerRetryTimer n)
  then show ?thesis using assms(1) by (simp add: peer_step_def stays_def hanging_def)
next
  case (PeerHttpStarted err)
  then show ?thesis using assms(1) by (simp add: peer_step_def http_started_def stays_def hanging_def)
qed (use assms(1) in \<open>simp_all add: peer_step_def auth_turn_stays, simp_all add: stays_def updatePingAuthDetails_def http_stopped_def Let_def split: option.split\<close>)

interpretation hang: invariant_machine "peer_step env" "\<lambda>s e. e \<noteq> PeerAgent (SockOpen k)" "hanging k" for env k
  by unfold_locales (use hanging_step in \<open>auto simp: stays_def\<close>)

lemma hanging_out:
  "hanging k s \<Longrightarrow> PeerAgent (SockOpen k) \<notin> set es \<Longrightarrow> list_all not_starting (snd (exec (peer_step env) s es))"
proof (induction es arbitrary: s)
  case (Cons e es)
  then have "stays k (peer_step env s e)" by (intro hanging_step) auto
  with Cons show ?case by (simp add: stays_def Let_def)
qed simp

lemma token_then_hanging:
  assumes "pm4mlEnabled (env_app env)" and "getOidcToken r = OidcToken t n"
  shows "hanging 0 (fst (exec (peer_step env) (createPeerServer (env_cfg env)) [PeerStart, PeerTokenResponse 0 r]))
       \<and> list_all not_starting (snd (exec (peer_step env) (createPeerServer (env_cfg env)) [PeerStart, PeerTokenResponse 0 r]))"
  using assms
  by (simp add: token_turn_defs connect_turn_defs hanging_def init_awaits_def)

text \<open>
  C33. A start whose websocket never opens hangs for good. After the token, let the connection
  fail, be closed, time out, be replaced by a working one of the ping timer, let tokens be
  refreshed, messages come and \<^verbatim>\<open>stop\<close> be called: as long as the very first socket does not open,
  the start still waits for it, has not resolved or rejected, has scheduled no retry and has not
  started the HTTP server.
\<close>

theorem unreachable_api_hangs:
  assumes "pm4mlEnabled (env_app env)" and "getOidcToken r = OidcToken t n"
    and "PeerAgent (SockOpen 0) \<notin> set es"
  shows "let run = exec (peer_step env) (createPeerServer (env_cfg env)) ([PeerStart, PeerTokenResponse 0 r] @ es) in
    phase_of_peer (fst run) = Trying AwaitInit \<and> ps_start (fst run) = InPm4ml
    \<and> (\<forall>x \<in> set (snd run). x \<noteq> HttpStart \<and> (\<forall>b. x \<noteq> StartResolved b) \<and> (\<forall>e. x \<noteq> StartRejected e) \<and> (\<forall>d. x \<noteq> ArmRetry d))"
proof -
  let ?first = "exec (peer_step env) (createPeerServer (env_cfg env)) [PeerStart, PeerTokenResponse 0 r]"
  let ?rest = "exec (peer_step env) (fst ?first) es"
  have first: "hanging 0 (fst ?first)" "list_all not_starting (snd ?first)"
    using token_then_hanging [OF assms(1,2)] by blast+
  have "hanging 0 (fst ?rest)"
    using assms(3) by (intro hang.exec_inv [OF first(1)] allowed_all) auto
  moreover have "list_all not_starting (snd ?rest)"
    by (rule hanging_out [OF first(1) assms(3)])
  moreover have "not_starting x \<Longrightarrow> x \<noteq> HttpStart \<and> (\<forall>b. x \<noteq> StartResolved b) \<and> (\<forall>e. x \<noteq> StartRejected e) \<and> (\<forall>d. x \<noteq> ArmRetry d)" for x
    by (cases x) simp_all
  ultimately show ?thesis
    using first(2) unfolding exec_append Let_def fst_conv snd_conv
    by (auto simp: hanging_def trying_phase list_all_iff simp del: exec.simps)
qed

theorem unreachable_api_hangs_witness:
  "ps_start (fst (exec (peer_step sample_env) (createPeerServer sample_cfg)
     ([PeerStart, PeerTokenResponse 0 sample_token] @
      [PeerAgent (SockError 0), PeerAgent (SockClose 0), PeerAgent PingTimeout, PeerAgent (SockOpen 1), PeerStop]))) = InPm4ml"
  using unreachable_api_hangs [of sample_env sample_token "''tok''" 300
      "[PeerAgent (SockError 0), PeerAgent (SockClose 0), PeerAgent PingTimeout, PeerAgent (SockOpen 1), PeerStop]"]
  by (simp add: Let_def del: exec.simps)

end
