(* ===== verification/Starting_Process.thy ===== *)
theory Starting_Process
  imports Adapter_Runs
begin

text \<open>
  \<^verbatim>\<open>src/utils/startingProcess.ts\<close> and \<^verbatim>\<open>src/index.ts\<close>: the process around the adapter, which
  starts it, stops it on a signal and ends with an exit code.
\<close>

section \<open>Exit codes\<close>

datatype process_event =
    UncaughtExceptionMonitor
  | UnhandledRejectionEvent
  | StartFulfilled
  | StartFailed
  | StopFulfilled
  | StopFailed

text \<open>What the handlers that \<^verbatim>\<open>startingProcess\<close> installs pass to \<^verbatim>\<open>process.exit\<close>.\<close>

definition exit_code :: "process_event \<Rightarrow> int option" where
  "exit_code e =
     (case e of
        UncaughtExceptionMonitor \<Rightarrow> Some 2
      | UnhandledRejectionEvent \<Rightarrow> Some 3
      | StartFulfilled \<Rightarrow> None
      | StartFailed \<Rightarrow> Some 1
      | StopFulfilled \<Rightarrow> Some 0
      | StopFailed \<Rightarrow> Some 4)"

definition process_event_of :: "adapter_out \<Rightarrow> process_event option" where
  "process_event_of x =
     (case x of
        PeerOut p y \<Rightarrow>
          (case y of
             AgentOut (UncaughtException e) \<Rightarrow> Some UncaughtExceptionMonitor
           | AgentOut (UnhandledRejection e) \<Rightarrow> Some UnhandledRejectionEvent
           | _ \<Rightarrow> None)
      | AdapterStarted a b \<Rightarrow> Some StartFulfilled
      | AdapterStartFailed e \<Rightarrow> Some StartFailed
      | AdapterStopped \<Rightarrow> Some StopFulfilled
      | AdapterStopFailed e \<Rightarrow> Some StopFailed)"

definition exit_of :: "adapter_out \<Rightarrow> int option" where
  "exit_of x = Option.bind (process_event_of x) exit_code"

text \<open>The first exit of a turn counts.\<close>

fun first_exit :: "adapter_out list \<Rightarrow> int option" where
  "first_exit [] = None"
| "first_exit (x # xs) = (case exit_of x of None \<Rightarrow> first_exit xs | Some c \<Rightarrow> Some c)"

lemma first_exit_None: "first_exit xs = None \<longleftrightarrow> (\<forall>x \<in> set xs. exit_of x = None)"
  by (induction xs) (auto split: option.split)

lemma first_exit_Some: "first_exit xs = Some c \<Longrightarrow> \<exists>x \<in> set xs. exit_of x = Some c"
  by (induction xs) (auto split: option.splits)

lemma exit_of_simps [simp]:
  "exit_of (PeerOut p (AgentOut (UncaughtException e))) = Some 2"
  "exit_of (PeerOut p (AgentOut (UnhandledRejection e))) = Some 3"
  "exit_of (AdapterStarted a b) = None" "exit_of (AdapterStartFailed e) = Some 1"
  "exit_of AdapterStopped = Some 0" "exit_of (AdapterStopFailed e) = Some 4"
  by (simp_all add: exit_of_def process_event_of_def exit_code_def)

lemma exit_zero: "exit_of x = Some 0 \<longleftrightarrow> x = AdapterStopped"
  by (auto simp: exit_of_def process_event_of_def exit_code_def
      split: adapter_out.splits peer_out.splits ca_out.splits)

section \<open>The process\<close>

text \<open>\<open>sys_adapter\<close> is the variable \<^verbatim>\<open>proxyAdapter\<close> of \<^verbatim>\<open>index.ts\<close>, \<open>undefined\<close> before the start.\<close>

record Process =
  sys_adapter :: "Adapter option"
  sys_exit :: "int option"

definition process_init :: Process where
  "process_init = \<lparr> sys_adapter = None, sys_exit = None \<rparr>"

datatype sys_event = Launch | Signal | Outside peer_label peer_event

text \<open>A turn of the adapter inside the process; an exit ends everything.\<close>

definition adapter_turn :: "adapter_env \<Rightarrow> adapter_event \<Rightarrow> Adapter \<Rightarrow> Process \<Rightarrow> Process \<times> adapter_out list" where
  "adapter_turn env e a s =
     (let q = adapter_step env a e
      in (s\<lparr> sys_adapter := Some (fst q), sys_exit := first_exit (snd q) \<rparr>, snd q))"

definition index_start :: "adapter_env \<Rightarrow> Process \<Rightarrow> Process \<times> adapter_out list" where
  "index_start env s = adapter_turn env AdapterStart (createProxyAdapter (ad_app env)) s"

text \<open>\<^verbatim>\<open>await proxyAdapter?.stop()\<close>: without an adapter the stop is over at once.\<close>

definition index_stop :: "adapter_env \<Rightarrow> Process \<Rightarrow> Process \<times> adapter_out list" where
  "index_stop env s =
     (case sys_adapter s of
        None \<Rightarrow> (s\<lparr> sys_exit := exit_code StopFulfilled \<rparr>, [])
      | Some a \<Rightarrow> adapter_turn env AdapterStop a s)"

definition process_step :: "adapter_env \<Rightarrow> Process \<Rightarrow> sys_event \<Rightarrow> Process \<times> adapter_out list" where
  "process_step env s e =
     (if sys_exit s \<noteq> None then (s, [])
      else (case e of
              Launch \<Rightarrow> if sys_adapter s = None then index_start env s else (s, [])
            | Signal \<Rightarrow> index_stop env s
            | Outside p a \<Rightarrow>
                (case sys_adapter s of
                   None \<Rightarrow> (s, [])
                 | Some ad \<Rightarrow> adapter_turn env (OfPeer p a) ad s)))"

section \<open>What ends the process\<close>

text \<open>
  C36. A broken connection that still counts as open ends the whole process. When the ping
  timer of either peer's control agent fires while its websocket is open, the rejection of
  \<^verbatim>\<open>open\<close> is handled by nobody and the process exits with code 3, both peers with it; it does
  not reconnect, as the log message of the timer says.
\<close>

theorem ping_timeout_exits:
  assumes "sys_exit s = None" and "sys_adapter s = Some a"
    and "ca_pingTimeout (ps_agent (peer_of a p)) \<noteq> None" and "ws_open (ps_agent (peer_of a p))"
  shows "sys_exit (fst (process_step env s (Outside p (PeerAgent PingTimeout)))) = Some 3"
proof -
  let ?e = "peer_env_of env p"
  have "snd (ca_step (env_codec ?e) (ps_agent (peer_of a p)) PingTimeout) = [UnhandledRejection already_open]"
    using ping_timeout_outcome [OF assms(3)] assms(4) by simp
  then have "snd (peer_step ?e (peer_of a p) (PeerAgent PingTimeout)) = [AgentOut (UnhandledRejection already_open)]"
    by (simp add: peer_step_def agent_event_def agent_turn_def agent_report_def agent_effect_def Let_def)
  then have "snd (adapter_step env a (OfPeer p (PeerAgent PingTimeout))) = [PeerOut p (AgentOut (UnhandledRejection already_open))]"
    by (simp add: adapter_step_def peer_turn_def peer_report_def Let_def)
  then show ?thesis
    using assms(1,2) by (simp add: process_step_def adapter_turn_def Let_def)
qed

definition connected_agent :: ControlAgent where
  "connected_agent = fst (exec (ca_step sample_codec) sample_agent [CallInit, SockOpen 0])"

definition connected_process :: Process where
  "connected_process =
     \<lparr> sys_adapter = Some (set_peer PeerA ((createPeerServer sample_cfg)\<lparr> ps_agent := connected_agent \<rparr>)
         (createProxyAdapter sample_app)), sys_exit = None \<rparr>"

theorem ping_timeout_exits_witness:
  "sys_exit (fst (process_step \<lparr> ad_app = sample_app, ad_codec = sample_codec \<rparr> connected_process
     (Outside PeerA (PeerAgent PingTimeout)))) = Some 3"
  by (rule ping_timeout_exits
      [where a = "set_peer PeerA ((createPeerServer sample_cfg)\<lparr> ps_agent := connected_agent \<rparr>)
         (createProxyAdapter sample_app)"])
     (simp_all add: connected_process_def connected_agent_def ca_ops ws_open_def sock_state_def)

end
