(* ===== verification/Peer_Settling.thy ===== *)
theory Peer_Settling
  imports Adapter_Runs
begin

text \<open>
  What the turns of a peer tell the adapter and the process: which events settle its \<^verbatim>\<open>start\<close> and its
  \<^verbatim>\<open>stop\<close>, which ones let an error of the control agent go unhandled, and that without a call of
  \<^verbatim>\<open>stop\<close> no stop is pending.
\<close>

section \<open>The notable outputs\<close>

fun settles :: "peer_out \<Rightarrow> bool" where
  "settles (StartResolved ok) = True"
| "settles (StartRejected e) = True"
| "settles (StopResolved ok) = True"
| "settles (StopRejected e) = True"
| "settles _ = False"

text \<open>The errors of the control agent that nobody handles.\<close>

fun crash :: "ca_out \<Rightarrow> bool" where
  "crash (UncaughtException e) = True"
| "crash (UnhandledRejection e) = True"
| "crash _ = False"

fun notable :: "peer_out \<Rightarrow> bool" where
  "notable (AgentOut c) = crash c"
| "notable y = settles y"

lemma do_all_out: "y \<in> set (snd (do_all f xs s)) \<Longrightarrow> \<exists>x \<in> set xs. \<exists>t. y \<in> set (snd (f x t))"
  by (induction xs arbitrary: s) auto

lemma call_no_crash: "agent_call e \<Longrightarrow> c \<in> set (snd (ca_step cd s e)) \<Longrightarrow> \<not> crash c"
  by (cases e)
     (auto simp: ca_step_def ca_init_def open_ws_def reject_open_def loadCerts_def receive_def reject_load_def
       send_built_out ca_close_def ws_close_def triggerFetchPeerJws_def sendPeerJWS_def then_do_def Let_def
       split: if_splits option.splits)

lemma stop_part_quiet: "y \<in> set (snd (stopPm4mlPart env c s)) \<Longrightarrow> \<not> notable y"
  using call_no_crash [of "CallClose c"] by (auto simp: stopPm4mlPart_def agent_turn_def Let_def)

lemma start_failed_quiet: "y \<in> set (snd (start_failed env e s)) \<Longrightarrow> \<not> notable y"
  by (simp add: start_failed_def retryStartPm4ml_def stop_part_quiet)

lemma plain_pieces_quiet:
  "y \<in> set (snd (emitServerStateEvent ev s)) \<Longrightarrow> \<not> notable y"
  "y \<in> set (snd (certs_loaded env s)) \<Longrightarrow> \<not> notable y"
  "y \<in> set (snd (retry_closed env dns s)) \<Longrightarrow> \<not> notable y"
  "y \<in> set (snd (stop_closed s)) \<Longrightarrow> \<not> notable y"
  "y \<in> set (snd (run_pm4ml env s)) \<Longrightarrow> \<not> notable y"
  by (auto simp: emitServerStateEvent_def emitPingAuthDetails_def certs_loaded_def startPeerJwsRefreshLoop_def
      retry_closed_def stop_closed_def run_pm4ml_def pm4ml_returns_def then_do_def Let_def split: if_splits)

lemma agent_effect_notable: "y \<in> set (snd (agent_effect env c s)) \<Longrightarrow> notable y \<Longrightarrow> y = AgentOut c"
  by (auto simp: agent_effect_def emitPeerJWSEvent_def
      dest: plain_pieces_quiet start_failed_quiet
      split: ca_out.splits closer.splits option.splits pm4ml_wait.splits if_splits)

lemma call_agent_quiet: "agent_call e \<Longrightarrow> y \<in> set (snd (call_agent env e s)) \<Longrightarrow> \<not> notable y"
  using call_no_crash by (fastforce simp: call_agent_def agent_turn_def Let_def dest!: do_all_out dest: agent_effect_notable)

lemma agent_report_notable: "y \<in> set (snd (agent_report env c s)) \<Longrightarrow> notable y \<Longrightarrow> y = AgentOut c"
  using call_agent_quiet [of CallLoadCerts] agent_effect_notable
  by (auto simp: agent_report_def init_resolved_def split: if_splits)

lemma auth_report_quiet: "y \<in> set (snd (auth_report env x s)) \<Longrightarrow> \<not> notable y"
  using call_agent_quiet [of CallInit]
  by (auto simp: auth_report_def initControlAgent_def dest: plain_pieces_quiet start_failed_quiet
      split: auth_out.splits option.splits if_splits)

lemma auth_turn_quiet: "y \<in> set (snd (auth_turn env e s)) \<Longrightarrow> \<not> notable y"
  by (auto simp: auth_turn_def Let_def dest!: do_all_out auth_report_quiet)

lemma agent_event_notable:
  "y \<in> set (snd (agent_event env e s)) \<Longrightarrow> notable y \<Longrightarrow>
     \<exists>c. y = AgentOut c \<and> crash c \<and> c \<in> set (snd (ca_step (env_codec env) (ps_agent s) e))"
  by (fastforce simp: agent_event_def agent_turn_def Let_def dest!: do_all_out dest: agent_report_notable
      split: if_splits)

text \<open>Which events settle a start or a stop, and with what result, and which events crash.\<close>

lemma notable_turn:
  assumes "y \<in> set (snd (peer_step env s e))" and "notable y"
  shows "(\<exists>err ok. e = PeerHttpStarted err \<and> ps_start s = InHttpStart ok
            \<and> y = (case err of None \<Rightarrow> StartResolved ok | Some x \<Rightarrow> StartRejected x))
    \<or> (\<exists>err. e = PeerHttpStopped err \<and> 0 < stops_http s
            \<and> y = (case err of None \<Rightarrow> StopResolved True | Some x \<Rightarrow> StopRejected x))
    \<or> (\<exists>a c. e = PeerAgent a \<and> y = AgentOut c \<and> crash c
            \<and> c \<in> set (snd (ca_step (env_codec env) (ps_agent s) a)))"
proof (cases e)
  case PeerStart
  then show ?thesis
    using assms by (auto simp: peer_step_def peer_start_def dest: plain_pieces_quiet split: if_splits)
next
  case PeerStop
  then show ?thesis
    using assms by (auto simp: peer_step_def peer_stop_def Let_def dest: stop_part_quiet split: if_splits)
next
  case (PeerPropagate d)
  then show ?thesis
    using assms call_no_crash [of "CallSendPeerJWS d"]
    by (auto simp: peer_step_def propagatePeerJWSEvent_def ca_step_def Let_def split: if_splits)
next
  case (PeerAgent a)
  then show ?thesis using assms agent_event_notable [of y env a s] by (simp add: peer_step_def)
next
  case (PeerJwsInterval n)
  then show ?thesis
    using assms call_no_crash [of CallTriggerFetch]
    by (auto simp: peer_step_def agent_turn_def Let_def split: if_splits)
next
  case (PeerHttpStarted err)
  then show ?thesis
    using assms by (auto simp: peer_step_def http_started_def split: start_phase.splits)
next
  case (PeerHttpStopped err)
  then show ?thesis
    using assms by (auto simp: peer_step_def http_stopped_def split: if_splits option.splits)
qed (use assms in \<open>auto simp: peer_step_def updatePingAuthDetails_def Let_def
       dest: auth_turn_quiet plain_pieces_quiet split: if_splits\<close>)

section \<open>Pending stops and the end of the start\<close>

text \<open>
  The interface of a property of the start's phase and of the two counts of pending stops that the
  pieces of a turn keep; every event but a call of \<^verbatim>\<open>stop\<close> then keeps it.
\<close>

locale call_property =
  fixes P :: "start_phase \<Rightarrow> nat \<Rightarrow> nat \<Rightarrow> bool"
  assumes begins: "P NotStarted m n \<Longrightarrow> P InPm4ml m n"
    and goes_on: "P InPm4ml m n \<Longrightarrow> P (InHttpStart ok) m n"
    and ends: "P (InHttpStart ok) m n \<Longrightarrow> P StartOver m n"
    and closes: "P q (Suc m) n \<Longrightarrow> P q m (Suc n)"
    and stops: "P q m (Suc n) \<Longrightarrow> P q m n"
begin

definition holds :: "PeerServer \<Rightarrow> bool" where
  "holds s = P (ps_start s) (stops_closing s) (stops_http s)"

lemma other_fields [simp]:
  "holds (s\<lparr> isReady := b \<rparr>) = holds s" "holds (s\<lparr> retryStartTimer := t \<rparr>) = holds s"
  "holds (s\<lparr> retry_armed := xs \<rparr>) = holds s" "holds (s\<lparr> peerJwsRefreshLoopTimer := t \<rparr>) = holds s"
  "holds (s\<lparr> jws_armed := xs \<rparr>) = holds s" "holds (s\<lparr> peer_next := n \<rparr>) = holds s"
  "holds (s\<lparr> ps_run := w \<rparr>) = holds s" "holds (s\<lparr> ps_auth := a \<rparr>) = holds s"
  "holds (s\<lparr> ps_agent := c \<rparr>) = holds s" "holds (s\<lparr> ps_http := h \<rparr>) = holds s"
  "holds (s\<lparr> ps_ping := p \<rparr>) = holds s"
  by (simp_all add: holds_def)

lemma returns: "holds s \<Longrightarrow> holds (fst (pm4ml_returns ok s))"
  using goes_on by (auto simp: pm4ml_returns_def holds_def Let_def)

lemma same_calls:
  "holds s \<Longrightarrow> holds (fst (emitServerStateEvent ev s))"
  "holds s \<Longrightarrow> holds (fst (start_failed env e s))"
  "holds s \<Longrightarrow> holds (fst (agent_turn env a s))"
  by (simp_all add: emitServerStateEvent_def start_failed_def retryStartPm4ml_def
      stopPm4mlPart_def stopPeerJwsRefreshLoop_def agent_turn_def Let_def)

lemma closed: "holds s \<Longrightarrow> 0 < stops_closing s \<Longrightarrow> holds (fst (stop_closed s))"
  using closes [of "ps_start s" "stops_closing s - 1"] by (simp add: stop_closed_def holds_def)

lemma loaded: "holds s \<Longrightarrow> holds (fst (certs_loaded env s))"
  by (simp add: certs_loaded_def startPeerJwsRefreshLoop_def then_do_def returns Let_def)

lemma retries: "holds s \<Longrightarrow> holds (fst (retry_closed env dns s))"
  by (simp add: retry_closed_def then_do_def returns Let_def)

lemma effect: "holds s \<Longrightarrow> holds (fst (agent_effect env x s))"
  by (auto simp: agent_effect_def same_calls closed loaded retries
      split: ca_out.split closer.split option.split pm4ml_wait.split)

lemma calls: "holds s \<Longrightarrow> holds (fst (call_agent env e s))"
  by (auto simp: call_agent_def Let_def intro!: do_all_inv [where P = holds] effect same_calls)

lemma agent_reports: "holds s \<Longrightarrow> holds (fst (agent_report env x s))"
  by (simp add: agent_report_def init_resolved_def calls effect)

lemma auth_reports: "holds s \<Longrightarrow> holds (fst (auth_report env x s))"
  by (simp add: auth_report_def initControlAgent_def calls same_calls split: auth_out.split option.split)

lemma runs: "holds s \<Longrightarrow> holds (fst (run_pm4ml env s))"
  by (simp add: run_pm4ml_def returns Let_def)

lemma peer_turn:
  assumes "holds s" and "e \<noteq> PeerStop"
  shows "holds (fst (peer_step env s e))"
proof (cases e)
  case PeerStart
  have "holds (s\<lparr> ps_start := InPm4ml \<rparr>)" if "ps_start s = NotStarted"
    using assms(1) that begins by (simp add: holds_def)
  then show ?thesis
    using assms(1) runs by (simp add: PeerStart peer_step_def peer_start_def)
next
  case (PeerTokenResponse i r)
  then show ?thesis
    using assms by (auto simp: peer_step_def auth_turn_def Let_def intro!: do_all_inv [where P = holds] auth_reports)
next
  case (PeerTokenTimer t)
  then show ?thesis
    using assms by (auto simp: peer_step_def auth_turn_def Let_def intro!: do_all_inv [where P = holds] auth_reports)
next
  case (PeerAgent a)
  then show ?thesis
    using assms by (auto simp: peer_step_def agent_event_def Let_def intro!: do_all_inv [where P = holds] agent_reports same_calls)
next
  case (PeerRetryTimer n)
  then show ?thesis
    using assms by (simp add: peer_step_def runs)
next
  case (PeerHttpStarted err)
  then show ?thesis
    using assms ends by (auto simp: peer_step_def http_started_def holds_def split: start_phase.split)
next
  case (PeerHttpStopped err)
  then show ?thesis
    using assms stops [of "ps_start s" "stops_closing s" "stops_http s - 1"]
    by (auto simp: peer_step_def http_stopped_def holds_def split: option.split)
qed (use assms in \<open>simp_all add: peer_step_def propagatePeerJWSEvent_def updatePingAuthDetails_def Let_def same_calls\<close>)

end

interpretation unstopped: call_property "\<lambda>q m n. m = 0 \<and> n = 0"
  by unfold_locales simp_all

interpretation start_over: call_property "\<lambda>q m n. q = StartOver"
  by unfold_locales simp_all

end
