(* ===== verification/Process_Runs.thy ===== *)
theory Process_Runs
  imports Starting_Process Peer_Projection Peer_Settling
begin

text \<open>
  Runs of the process: the run of the adapter inside it, and in that the runs of the two peers, which
  stay apart for as long as the process lives.
\<close>

section \<open>The adapter inside the process\<close>

text \<open>What the adapter gets of the events of a process that runs from \<open>s\<close> on.\<close>

definition heeded_event :: "Process \<Rightarrow> sys_event \<Rightarrow> adapter_event list" where
  "heeded_event s e =
     (if sys_exit s \<noteq> None then []
      else (case e of
              Launch \<Rightarrow> if sys_adapter s = None then [AdapterStart] else []
            | Signal \<Rightarrow> if sys_adapter s = None then [] else [AdapterStop]
            | Outside p a \<Rightarrow> if sys_adapter s = None then [] else [OfPeer p a]))"

fun heeded :: "adapter_env \<Rightarrow> Process \<Rightarrow> sys_event list \<Rightarrow> adapter_event list" where
  "heeded env s [] = []"
| "heeded env s (e # es) = heeded_event s e @ heeded env (fst (process_step env s e)) es"

text \<open>The adapter of a process, or the one it would create.\<close>

definition adapter_in :: "adapter_env \<Rightarrow> Process \<Rightarrow> Adapter" where
  "adapter_in env s = (case sys_adapter s of None \<Rightarrow> createProxyAdapter (ad_app env) | Some a \<Rightarrow> a)"

lemma step_adapter:
  "(adapter_in env (fst (process_step env s e)), snd (process_step env s e)) =
     exec (adapter_step env) (adapter_in env s) (heeded_event s e)"
  by (auto simp: process_step_def index_start_def index_stop_def adapter_turn_def heeded_event_def adapter_in_def Let_def
      split: sys_event.split option.split)

lemma run_adapter:
  "(adapter_in env (fst (exec (process_step env) s es)), snd (exec (process_step env) s es)) =
     exec (adapter_step env) (adapter_in env s) (heeded env s es)"
proof (induction es arbitrary: s)
  case (Cons e es)
  then show ?case
    using step_adapter [of env s e] Cons.IH [of "fst (process_step env s e)"]
    by (simp add: exec_append Let_def prod_eq_iff)
qed simp

text \<open>A process that has an adapter has made a run of it, with the same outputs.\<close>

lemma process_run:
  assumes "exec (process_step env) process_init es = (s, outs)" and "sys_adapter s = Some a"
  shows "exec (adapter_step env) (createProxyAdapter (ad_app env)) (heeded env process_init es) = (a, outs)"
  using run_adapter [of env process_init es] assms by (simp add: adapter_in_def process_init_def)

lemma heeded_append:
  "heeded env s (es @ fs) = heeded env s es @ heeded env (fst (exec (process_step env) s es)) fs"
  by (induction es arbitrary: s) (simp_all add: Let_def)

lemma exited_step: "sys_exit s = Some c \<Longrightarrow> process_step env s e = (s, [])"
  by (simp add: process_step_def)

lemma exited_stays: "sys_exit s = Some c \<Longrightarrow> exec (process_step env) s es = (s, [])"
  by (induction es) (simp_all add: exited_step)

lemma exited_heeds: "sys_exit s = Some c \<Longrightarrow> heeded env s es = []"
  by (induction es) (simp_all add: exited_step heeded_event_def)

section \<open>The peers inside the process\<close>

text \<open>What a peer gets of the events of a process that lives: its own, and the signals.\<close>

fun own_sys_event :: "peer_label \<Rightarrow> sys_event \<Rightarrow> peer_event list" where
  "own_sys_event p Launch = []"
| "own_sys_event p Signal = [PeerStop]"
| "own_sys_event p (Outside q e) = (if q = p \<and> \<not> adapter_call e then [e] else [])"

lemma lives_before:
  "sys_exit (fst (exec (process_step env) s es)) = None \<Longrightarrow> sys_exit s = None"
  using exited_stays [of s _ env es] by (cases "sys_exit s") simp_all

lemma adapter_stays:
  "sys_adapter s = Some a \<Longrightarrow> \<exists>b. sys_adapter (fst (process_step env s e)) = Some b"
  by (auto simp: process_step_def index_start_def index_stop_def adapter_turn_def Let_def split: sys_event.split)

lemma living_heeds:
  "sys_adapter s = Some a \<Longrightarrow> sys_exit (fst (exec (process_step env) s es)) = None \<Longrightarrow>
     own_events p (heeded env s es) = concat (map (own_sys_event p) es)"
proof (induction es arbitrary: s a)
  case (Cons e es)
  have "sys_exit s = None" using lives_before [OF Cons.prems(2)] .
  then have "own_events p (heeded_event s e) = own_sys_event p e"
    using Cons.prems(1) by (cases e) (simp_all add: heeded_event_def own_events_def)
  moreover obtain b where "sys_adapter (fst (process_step env s e)) = Some b"
    using adapter_stays [OF Cons.prems(1)] by blast
  ultimately show ?case
    using Cons.IH [of "fst (process_step env s e)"] Cons.prems(2)
    by (simp add: own_events_def Let_def)
qed (simp add: own_events_def)

text \<open>A peer's part of a run of the process is a run of the peer.\<close>

lemma peer_in_process:
  assumes "exec (process_step env) process_init es = (s, outs)" and "sys_adapter s = Some a"
  shows "peer.sim (peer_of a p, outs_of p outs)
    (exec (peer_step (peer_env_of env p)) (createPeerServer (env_cfg (peer_env_of env p)))
       (own_events p (heeded env process_init es)))"
  using adapter_run_own [of env "createProxyAdapter (ad_app env)" "heeded env process_init es" p]
    process_run [OF assms]
  by (simp add: created_peer)

text \<open>
  C2. The two peers run side by side for as long as the process lives. Take any interleaving of
  responses, socket events, timers and signals after the launch, in which no event ends the process. The
  state in which it leaves a peer is the one in which the launch, the signals and the events of this peer alone, in their
  order, leave a peer that runs on its own, but for the credentials in its ping service and the
  number of message ids it has used; and the peer does the same to the outside, in the same order, but for the messages
  over its websocket and its answers to the adapter's listener. What ends the process (an error that nobody
  handles, a server that cannot start or stop) ends both peers.
\<close>

theorem peers_run_side_by_side:
  assumes "exec (process_step env) process_init (Launch # es) = (s, outs)" and "sys_exit s = None"
  shows "\<exists>a. sys_adapter s = Some a
    \<and> (let q = exec (peer_step (peer_env_of env p)) (createPeerServer (env_cfg (peer_env_of env p)))
                 (PeerStart # concat (map (own_sys_event p) es))
       in own (peer_of a p) = own (fst q) \<and> filter seen (outs_of p outs) = filter seen (snd q))"
proof -
  let ?u = "fst (process_step env process_init Launch)"
  have run: "fst (exec (process_step env) ?u es) = s"
    using assms(1) by (simp add: Let_def)
  have start: "sys_adapter ?u \<noteq> None"
    by (simp add: process_step_def process_init_def index_start_def adapter_turn_def Let_def)
  then obtain b where b: "sys_adapter ?u = Some b" by blast
  have "\<exists>a. sys_adapter (fst (exec (process_step env) v fs)) = Some a" if "sys_adapter v = Some c" for v c fs
    using that
  proof (induction fs arbitrary: v c)
    case (Cons f fs)
    then show ?case using adapter_stays [OF Cons.prems, of env f] by (auto simp: Let_def)
  qed simp
  then obtain a where a: "sys_adapter s = Some a" using b run by metis
  have "own_events p (heeded env process_init (Launch # es)) = PeerStart # concat (map (own_sys_event p) es)"
    using living_heeds [OF b, of env es p] assms(2) run
    by (simp add: own_events_def heeded_event_def process_init_def)
  then show ?thesis
    using peer_in_process [OF assms(1) a, of p] a by (simp add: peer.sim_def Let_def)
qed

text \<open>Peer A's token request fails, peer B's server starts.\<close>

definition side_run :: "sys_event list" where
  "side_run =
     [Outside PeerA (PeerTokenResponse 0 (Inl (ThrownError ''refused''))), Outside PeerB (PeerHttpStarted None)]"

lemmas process_turn_defs =
  process_init_def process_step_def index_start_def index_stop_def adapter_turn_def adapter_step_def
  adapter_start_def adapter_stop_def peer_turn_def peer_report_def to_other_def peer_step_def
  createProxyAdapter_def createPeerServer_def createControlAgent_def control_agent_def peer_of_def set_peer_def
  then_do_def peer_env_of_def sample_adapter_env_def sample_app_def exit_of_def process_event_of_def

lemma side_run_lives:
  "sys_exit (fst (exec (process_step sample_adapter_env) process_init (Launch # side_run))) = None"
  by (simp add: side_run_def process_turn_defs peer_ops auth_defs auth_init_def auth_turn_def auth_report_def
      getOidcToken_def emitted_token_def makeAccessTokenUpdatesResult_def emitServerStateEvent_def
      emitPingAuthDetails_def http_emit_def on_serverState_def http_init_def updatePingAuthDetails_def
      ca_close_def ws_close_def ca_step_def http_started_def)

theorem peers_run_side_by_side_witness:
  "\<exists>s outs a. exec (process_step sample_adapter_env) process_init (Launch # side_run) = (s, outs)
     \<and> sys_adapter s = Some a
     \<and> own (peer_of a PeerB) = own (fst (exec (peer_step (peer_env_of sample_adapter_env PeerB))
          (createPeerServer (env_cfg (peer_env_of sample_adapter_env PeerB))) [PeerStart, PeerHttpStarted None]))"
proof -
  obtain s outs where run: "exec (process_step sample_adapter_env) process_init (Launch # side_run) = (s, outs)"
    by (rule prod.exhaust)
  have live: "sys_exit s = None"
    using side_run_lives unfolding run by simp
  have "concat (map (own_sys_event PeerB) side_run) = [PeerHttpStarted None]"
    by (simp add: side_run_def)
  then show ?thesis
    using peers_run_side_by_side [OF run live, of PeerB] run by (auto simp: Let_def simp del: exec.simps)
qed

end
