(* ===== verification/Process_Stop.thy ===== *)
theory Process_Stop
  imports Process_Runs Peer_Recovery
begin

text \<open>
  The end of the process: which events end it and with which code, that a signal always ends it,
  whatever state its peers are in and whatever the management APIs do, and what code 0 means.
\<close>

section \<open>Contracts of the adapter's turns\<close>

text \<open>
  The interface of a relation between the states before and after a turn of the adapter and its
  outputs: it ignores what happens inside a peer and holds of every report of a peer.
\<close>

locale adapter_contract = turn_relation R
  for R :: "Adapter \<Rightarrow> Adapter \<Rightarrow> adapter_out list \<Rightarrow> bool" +
  fixes env :: adapter_env
  assumes frame: "R s (set_peer p t s) []"
    and report: "R s (fst (peer_report env p x s)) (snd (peer_report env p x s))"
begin

lemma peer_turn_rel: "R s (fst (peer_turn env p e s)) (snd (peer_turn env p e s))"
  using after_do_all [OF frame report] by (simp add: peer_turn_def Let_def)

lemma step_rel: "R s (fst (adapter_step env s e)) (snd (adapter_step env s e))"
  by (cases e)
     (simp_all add: adapter_step_def adapter_start_def adapter_stop_def peer_turn_rel idle seq [OF peer_turn_rel peer_turn_rel])

lemma run_rel: "R s (fst (exec (adapter_step env) s es)) (snd (exec (adapter_step env) s es))"
  by (induction es arbitrary: s) (simp_all add: Let_def idle seq [OF step_rel])

end

lemma stopped_of_set_peer [simp]: "stopped_of (set_peer p t s) q = stopped_of s q"
  by (cases p; cases q) (simp_all add: stopped_of_def set_peer_def)

lemma stopped_of_stop_result:
  "stopped_of (fst (stop_result p r s)) q = (if q = p then stopped_of s p @ [r] else stopped_of s q)"
  by (cases p; cases q) (simp_all add: stop_result_def stopped_of_def Let_def)

lemma stopped_of_starts [simp]:
  "stopped_of (fst (start_result p ok s)) q = stopped_of s q"
  "stopped_of (fst (start_rejected e s)) q = stopped_of s q"
  by (auto simp: start_result_def start_rejected_def stopped_of_def Let_def split: peer_label.split option.split)

lemma stopped_of_other [simp]: "stopped_of (fst (to_other env p e s)) q = stopped_of s q"
  by (simp add: to_other_def Let_def)

text \<open>The adapter books the results of the stops of a peer in the order they come.\<close>

fun stop_outcome :: "peer_out \<Rightarrow> thrown option list" where
  "stop_outcome (StopResolved ok) = [None]"
| "stop_outcome (StopRejected e) = [Some e]"
| "stop_outcome _ = []"

definition stop_outcomes :: "peer_out list \<Rightarrow> thrown option list" where
  "stop_outcomes outs = concat (map stop_outcome outs)"

lemma stop_outcomes_simps [simp]:
  "stop_outcomes [] = []" "stop_outcomes (xs @ ys) = stop_outcomes xs @ stop_outcomes ys"
  "stop_outcomes (x # xs) = stop_outcome x @ stop_outcomes xs" "stop_outcomes (map AgentOut as) = []"
  by (simp_all add: stop_outcomes_def comp_def)

lemma in_stop_outcome:
  "None \<in> set (stop_outcome x) \<longleftrightarrow> x \<in> {StopResolved True, StopResolved False}"
  "Some e \<in> set (stop_outcome x) \<longleftrightarrow> x = StopRejected e"
  by (cases x rule: stop_outcome.cases; auto)+

lemma stop_outcome_iff:
  "None \<in> set (stop_outcomes outs) \<longleftrightarrow> StopResolved True \<in> set outs \<or> StopResolved False \<in> set outs"
  "Some e \<in> set (stop_outcomes outs) \<longleftrightarrow> StopRejected e \<in> set outs"
  using in_stop_outcome by (auto simp: stop_outcomes_def)

lemma listeners_no_outcome [simp]:
  "stop_outcomes (snd (peer_step env s (PeerPropagate d))) = []"
  "stop_outcomes (snd (peer_step env s (PeerPingDetails g))) = []"
  by (simp_all add: peer_step_def propagatePeerJWSEvent_def Let_def)

definition booked_stops :: "Adapter \<Rightarrow> Adapter \<Rightarrow> adapter_out list \<Rightarrow> bool" where
  "booked_stops s t outs \<longleftrightarrow> (\<forall>p. stopped_of t p = stopped_of s p @ stop_outcomes (outs_of p outs))"

interpretation booked_stops: adapter_contract booked_stops env for env
proof
  show "booked_stops s (fst (peer_report env p x s)) (snd (peer_report env p x s))" for s p x
    by (cases x) (auto simp: booked_stops_def peer_report_def to_other_def stopped_of_stop_result Let_def)
qed (auto simp: booked_stops_def)

text \<open>What the adapter reports of its own start and stop, some peer has reported in the same turn.\<close>

definition reported :: "Adapter \<Rightarrow> Adapter \<Rightarrow> adapter_out list \<Rightarrow> bool" where
  "reported s t outs \<longleftrightarrow>
     (AdapterStopped \<in> set outs \<longrightarrow> (\<exists>p ok. PeerOut p (StopResolved ok) \<in> set outs))
     \<and> (\<forall>e. AdapterStopFailed e \<in> set outs \<longrightarrow> (\<exists>p. PeerOut p (StopRejected e) \<in> set outs))
     \<and> (\<forall>e. AdapterStartFailed e \<in> set outs \<longrightarrow> (\<exists>p. PeerOut p (StartRejected e) \<in> set outs))"

interpretation reported: adapter_contract reported env for env
proof
  show "reported s u (xs @ ys)" if "reported s t xs" "reported t u ys" for s t u xs ys
    using that by (simp add: reported_def) blast
  show "reported s (fst (peer_report env p x s)) (snd (peer_report env p x s))" for s p x
    by (cases x)
       (auto simp: reported_def peer_report_def to_other_def start_result_def start_rejected_def stop_result_def Let_def
         split: option.splits if_splits)
qed (simp_all add: reported_def)

text \<open>As long as no stop of the adapter has failed, no stop of a peer has.\<close>

definition no_failure :: "Adapter \<Rightarrow> bool" where
  "no_failure s \<longleftrightarrow> (\<forall>p. set (stopped_of s p) \<subseteq> {None})"

lemma no_failure_nth: "no_failure s \<Longrightarrow> n < length (stopped_of s p) \<Longrightarrow> stopped_of s p ! n = None"
  using nth_mem by (fastforce simp: no_failure_def)

lemma stop_result_out:
  "no_failure s \<Longrightarrow> snd (stop_result p r s) =
     (case r of
        Some e \<Rightarrow> [AdapterStopFailed e]
      | None \<Rightarrow> if length (stopped_of s p) < length (stopped_of s (other p)) then [AdapterStopped] else [])"
  by (simp add: stop_result_def no_failure_nth Let_def split: option.split)

definition fails_visibly :: "Adapter \<Rightarrow> Adapter \<Rightarrow> adapter_out list \<Rightarrow> bool" where
  "fails_visibly s t outs \<longleftrightarrow> (no_failure s \<longrightarrow> (\<forall>e. AdapterStopFailed e \<notin> set outs) \<longrightarrow> no_failure t)"

interpretation fails_visibly: adapter_contract fails_visibly env for env
proof
  show "fails_visibly s (set_peer p t s) []" for s p t
    by (simp add: fails_visibly_def no_failure_def)
  show "fails_visibly s (fst (peer_report env p x s)) (snd (peer_report env p x s))" for s p x
  proof (cases x)
    case (StopResolved ok)
    then show ?thesis
      by (auto simp: fails_visibly_def peer_report_def no_failure_def stopped_of_stop_result split: if_splits)
  next
    case (StopRejected e)
    then show ?thesis
      using stop_result_out [of s p "Some e"] by (simp add: fails_visibly_def peer_report_def)
  qed (auto simp: fails_visibly_def peer_report_def no_failure_def)
qed (auto simp: fails_visibly_def)

text \<open>A stop of the adapter that returns has a result of both peers.\<close>

definition stops_both :: "Adapter \<Rightarrow> Adapter \<Rightarrow> adapter_out list \<Rightarrow> bool" where
  "stops_both s t outs \<longleftrightarrow>
     (\<forall>p. set (stopped_of s p) \<subseteq> set (stopped_of t p)
        \<and> (AdapterStopped \<in> set outs \<longrightarrow> None \<in> set (stopped_of t p)))"

lemma starts_stop_nothing [simp]:
  "AdapterStopped \<notin> set (snd (start_result p ok s))" "AdapterStopped \<notin> set (snd (start_rejected e s))"
  "AdapterStopped \<notin> set (snd (to_other env p ev s))"
  by (auto simp: start_result_def start_rejected_def to_other_def Let_def split: option.split)

lemma both_labels: "q = p \<or> q = other p"
  by (cases p; cases q) simp_all

interpretation stops_both: adapter_contract stops_both env for env
proof
  show "stops_both s u (xs @ ys)" if "stops_both s t xs" "stops_both t u ys" for s t u xs ys
    using that by (auto simp: stops_both_def)
  show "stops_both s (fst (peer_report env p x s)) (snd (peer_report env p x s))" for s p x
  proof (cases x)
    case (StopResolved ok)
    have "None \<in> set (stopped_of s (other p))" if "AdapterStopped \<in> set (snd (stop_result p None s))"
      using that by (auto simp: stop_result_def Let_def in_set_conv_nth split: if_splits option.splits)
    then show ?thesis
      using both_labels [of _ p] StopResolved
      by (auto simp: stops_both_def peer_report_def stopped_of_stop_result)
  next
    case (StopRejected e)
    then show ?thesis
      by (auto simp: stops_both_def peer_report_def stopped_of_stop_result)
         (simp_all add: stop_result_def Let_def split: if_splits option.splits)
  qed (simp_all add: stops_both_def peer_report_def)
qed (auto simp: stops_both_def)

section \<open>Which event ends the process\<close>

lemma notable_seen: "notable y \<Longrightarrow> seen y"
proof (cases y rule: notable.cases)
  case (1 c)
  assume "notable y"
  with 1 show ?thesis by (cases c) simp_all
qed simp_all

text \<open>A notable output of a peer in a turn of the adapter comes of the event of this turn.\<close>

lemma notable_step:
  assumes "PeerOut p y \<in> set (snd (adapter_step env a e))" and "notable y"
  shows "\<exists>ev. e = OfPeer p ev \<and> y \<in> set (snd (peer_step (peer_env_of env p) (peer_of a p) ev))"
proof -
  let ?q = "exec (peer_step (peer_env_of env p)) (peer_of a p) (own_event p e)"
  have "y \<in> set (filter seen (outs_of p (snd (adapter_step env a e))))"
    using assms notable_seen by (simp add: outs_of_iff)
  also have "filter seen (outs_of p (snd (adapter_step env a e))) = filter seen (snd ?q)"
    using adapter_step_own [of env a e p] by (simp add: peer.sim_def)
  finally have y: "y \<in> set (snd ?q)" by simp
  show ?thesis
  proof (cases e)
    case AdapterStart
    then show ?thesis using y notable_turn [OF _ assms(2), of "peer_env_of env p" "peer_of a p" PeerStart] by auto
  next
    case AdapterStop
    then show ?thesis using y notable_turn [OF _ assms(2), of "peer_env_of env p" "peer_of a p" PeerStop] by auto
  next
    case (OfPeer q ev)
    then show ?thesis using y by (auto split: if_splits)
  qed
qed

lemma settled_step:
  "PeerOut p (StartRejected err) \<in> set (snd (adapter_step env a e)) \<Longrightarrow> e = OfPeer p (PeerHttpStarted (Some err))"
  "PeerOut p (StopResolved ok) \<in> set (snd (adapter_step env a e)) \<Longrightarrow>
     e = OfPeer p (PeerHttpStopped None) \<and> 0 < stops_http (peer_of a p)"
  "PeerOut p (StopRejected err) \<in> set (snd (adapter_step env a e)) \<Longrightarrow>
     e = OfPeer p (PeerHttpStopped (Some err)) \<and> 0 < stops_http (peer_of a p)"
  by (auto dest!: notable_step notable_turn split: option.splits)

lemma crash_step:
  "PeerOut p (AgentOut c) \<in> set (snd (adapter_step env a e)) \<Longrightarrow> crash c \<Longrightarrow>
     \<exists>x. e = OfPeer p (PeerAgent x) \<and> c \<in> set (snd (ca_step (ad_codec env) (ps_agent (peer_of a p)) x))"
  by (auto dest!: notable_step notable_turn simp: peer_env_of_def split: option.splits)

text \<open>
  \<open>ended_by env s e c\<close>: the event \<open>e\<close> ends a process in state \<open>s\<close> with the code \<open>c\<close>: a signal before there is an
  adapter, the end of the start or of the stop of an HTTP server, or an event on which a control agent has an
  error that nobody handles.
\<close>

definition ended_by :: "adapter_env \<Rightarrow> Process \<Rightarrow> sys_event \<Rightarrow> int \<Rightarrow> bool" where
  "ended_by env s e c \<longleftrightarrow>
     c = 0 \<and> e = Signal \<and> sys_adapter s = None
   \<or> (\<exists>a p. sys_adapter s = Some a \<and>
        (c = 0 \<and> e = Outside p (PeerHttpStopped None) \<and> 0 < stops_http (peer_of a p)
         \<or> (\<exists>err. c = 1 \<and> e = Outside p (PeerHttpStarted (Some err)))
         \<or> (\<exists>err. c = 4 \<and> e = Outside p (PeerHttpStopped (Some err)) \<and> 0 < stops_http (peer_of a p))
         \<or> (\<exists>x err. c = 2 \<and> e = Outside p (PeerAgent x)
              \<and> UncaughtException err \<in> set (snd (ca_step (ad_codec env) (ps_agent (peer_of a p)) x)))
         \<or> (\<exists>x err. c = 3 \<and> e = Outside p (PeerAgent x)
              \<and> UnhandledRejection err \<in> set (snd (ca_step (ad_codec env) (ps_agent (peer_of a p)) x)))))"

fun sys_event_of :: "adapter_event \<Rightarrow> sys_event" where
  "sys_event_of AdapterStart = Launch"
| "sys_event_of AdapterStop = Signal"
| "sys_event_of (OfPeer p e) = Outside p e"

lemma exit_kinds:
  assumes "exit_of x = Some c"
  obtains "c = 0" "x = AdapterStopped" | err where "c = 1" "x = AdapterStartFailed err"
  | err where "c = 4" "x = AdapterStopFailed err"
  | p err where "c = 2" "x = PeerOut p (AgentOut (UncaughtException err))"
  | p err where "c = 3" "x = PeerOut p (AgentOut (UnhandledRejection err))"
  using assms that
  by (auto simp: exit_of_def process_event_of_def exit_code_def split: adapter_out.splits peer_out.splits ca_out.splits)

lemma turn_ended_by:
  assumes "first_exit (snd (adapter_step env a e)) = Some c" and "sys_adapter s = Some a"
  shows "ended_by env s (sys_event_of e) c"
proof -
  obtain x where x: "x \<in> set (snd (adapter_step env a e))" "exit_of x = Some c"
    using first_exit_Some [OF assms(1)] by blast
  have r: "reported a (fst (adapter_step env a e)) (snd (adapter_step env a e))"
    by (rule reported.step_rel)
  from x(2) show ?thesis
  proof (cases rule: exit_kinds)
    case 1
    then obtain p ok where "PeerOut p (StopResolved ok) \<in> set (snd (adapter_step env a e))"
      using r x(1) by (auto simp: reported_def)
    then show ?thesis using settled_step(2) 1(1) assms(2) by (force simp: ended_by_def)
  next
    case (2 err)
    then obtain p where "PeerOut p (StartRejected err) \<in> set (snd (adapter_step env a e))"
      using r x(1) by (auto simp: reported_def)
    then show ?thesis using settled_step(1) 2(1) assms(2) by (force simp: ended_by_def)
  next
    case (3 err)
    then obtain p where "PeerOut p (StopRejected err) \<in> set (snd (adapter_step env a e))"
      using r x(1) by (auto simp: reported_def)
    then show ?thesis using settled_step(3) 3(1) assms(2) by (force simp: ended_by_def)
  next
    case (4 p err)
    then show ?thesis using crash_step x(1) assms(2) by (fastforce simp: ended_by_def)
  next
    case (5 p err)
    then show ?thesis using crash_step x(1) assms(2) by (fastforce simp: ended_by_def)
  qed
qed

lemma launch_never_ends: "first_exit (snd (adapter_step env a AdapterStart)) = None"
proof (rule ccontr)
  assume "first_exit (snd (adapter_step env a AdapterStart)) \<noteq> None"
  then obtain c where "first_exit (snd (adapter_step env a AdapterStart)) = Some c" by blast
  from turn_ended_by [OF this, of "\<lparr> sys_adapter = Some a, sys_exit = None \<rparr>"] show False
    by (simp add: ended_by_def)
qed

lemma step_ended_by:
  assumes "sys_exit s = None" and "sys_exit (fst (process_step env s e)) = Some c"
  shows "ended_by env s e c"
proof (cases e)
  case Launch
  then show ?thesis
    using assms launch_never_ends [of env "createProxyAdapter (ad_app env)"]
    by (auto simp: process_step_def index_start_def adapter_turn_def Let_def split: if_splits)
next
  case Signal
  show ?thesis
  proof (cases "sys_adapter s")
    case None
    then show ?thesis
      using assms Signal by (simp add: process_step_def index_stop_def exit_code_def ended_by_def)
  next
    case (Some a)
    then show ?thesis
      using assms Signal turn_ended_by [of env a AdapterStop c s]
      by (simp add: process_step_def index_stop_def adapter_turn_def Let_def)
  qed
next
  case (Outside p ev)
  then show ?thesis
    using assms turn_ended_by [of env _ "OfPeer p ev" c s]
    by (auto simp: process_step_def adapter_turn_def Let_def split: option.splits)
qed

text \<open>The event with which a run of the process ended.\<close>

lemma ending_event:
  assumes "sys_exit s = None" and "sys_exit (fst (exec (process_step env) s es)) = Some c"
  shows "\<exists>before e after. es = before @ e # after
    \<and> sys_exit (fst (exec (process_step env) s before)) = None
    \<and> sys_exit (fst (exec (process_step env) s (before @ [e]))) = Some c"
  using assms
proof (induction es arbitrary: s)
  case (Cons e es)
  let ?t = "fst (process_step env s e)"
  show ?case
  proof (cases "sys_exit ?t")
    case None
    then obtain before f after where split: "es = before @ f # after"
      and live: "sys_exit (fst (exec (process_step env) ?t before)) = None"
      and ends: "sys_exit (fst (exec (process_step env) ?t (before @ [f]))) = Some c"
      using Cons.IH [of ?t] Cons.prems(2) by (auto simp: Let_def)
    show ?thesis
      using split live ends by (intro exI [of _ "e # before"] exI [of _ f] exI [of _ after]) (simp add: Let_def)
  next
    case (Some d)
    then have "c = d"
      using Cons.prems(2) exited_stays [OF Some] by (simp add: Let_def)
    then show ?thesis
      using Some Cons.prems(1) by (intro exI [of _ "[]"] exI [of _ e] exI [of _ es]) simp
  qed
qed simp

text \<open>Without a signal no stop is pending in either peer.\<close>

lemma no_signal_no_stop: "Signal \<notin> set es \<Longrightarrow> PeerStop \<notin> set (own_events p (heeded env s es))"
proof (induction es arbitrary: s)
  case (Cons e es)
  then show ?case by (cases e) (auto simp: own_events_def heeded_event_def split: if_splits)
qed (simp add: own_events_def)

interpretation unstopped_runs: invariant_machine "peer_step env" "\<lambda>s e. e \<noteq> PeerStop" unstopped.holds for env
  by unfold_locales (rule unstopped.peer_turn)

lemma unstopped_run: "unstopped.holds s \<Longrightarrow> PeerStop \<notin> set es \<Longrightarrow> unstopped.holds (fst (exec (peer_step env) s es))"
  by (intro unstopped_runs.exec_inv allowed_all) auto

lemma stop_needs_signal:
  assumes "exec (process_step env) process_init es = (s, outs)" and "sys_adapter s = Some a" and "Signal \<notin> set es"
  shows "stops_http (peer_of a p) = 0"
proof -
  let ?q = "exec (peer_step (peer_env_of env p)) (createPeerServer (env_cfg (peer_env_of env p)))
      (own_events p (heeded env process_init es))"
  have "own (peer_of a p) = own (fst ?q)"
    using peer_in_process [OF assms(1,2), of p] by (simp add: peer.sim_def)
  then have "stops_http (peer_of a p) = stops_http (fst ?q)" by (rule own_fields(11))
  moreover have "unstopped.holds (fst ?q)"
    by (rule unstopped_run) (simp_all add: unstopped.holds_def createPeerServer_def no_signal_no_stop assms(3))
  ultimately show ?thesis by (simp add: unstopped.holds_def)
qed

lemma exit_event:
  assumes "exec (process_step env) process_init es = (s, outs)" and "sys_exit s = Some c"
  shows "\<exists>before e after. es = before @ e # after
    \<and> sys_exit (fst (exec (process_step env) process_init before)) = None
    \<and> ended_by env (fst (exec (process_step env) process_init before)) e c
    \<and> (c \<in> {0, 4} \<longrightarrow> Signal \<in> set (before @ [e]))"
proof -
  obtain before e after where split: "es = before @ e # after"
    and live: "sys_exit (fst (exec (process_step env) process_init before)) = None"
    and ends: "sys_exit (fst (exec (process_step env) process_init (before @ [e]))) = Some c"
    using ending_event [of process_init env es c] assms by (auto simp: process_init_def)
  let ?u = "fst (exec (process_step env) process_init before)"
  have cause: "ended_by env ?u e c"
    using step_ended_by [OF live, of env e c] ends by (simp add: exec_append Let_def)
  have "Signal \<in> set (before @ [e])" if c04: "c \<in> {0, 4}"
  proof (rule ccontr)
    assume no: "Signal \<notin> set (before @ [e])"
    then obtain a p where "sys_adapter ?u = Some a" "0 < stops_http (peer_of a p)"
      using cause c04 by (auto simp: ended_by_def)
    then show False
      using stop_needs_signal [of env before ?u _ a p] no by (metis Un_iff prod.collapse set_append less_irrefl)
  qed
  with split live cause show ?thesis by blast
qed

text \<open>
  C23. What ends the process. Whenever a run of the process has ended, some event of the run ended it: with
  code 0 a signal before the adapter was created, or the stop of an HTTP server that a peer's \<^verbatim>\<open>stop\<close> waited
  for; with 1 an HTTP server that could not start; with 4 an HTTP server whose stop was
  rejected while a peer's \<^verbatim>\<open>stop\<close> waited for it; with 2 and 3 an event of a control agent on which, in its state,
  an exception or a rejection goes unhandled. Codes 0 and 4 come only of a signal.
\<close>

theorem exit_has_cause:
  assumes "exec (process_step env) process_init es = (s, outs)" and "sys_exit s = Some c"
  shows "\<exists>before e after. es = before @ e # after
    \<and> sys_exit (fst (exec (process_step env) process_init before)) = None
    \<and> ended_by env (fst (exec (process_step env) process_init before)) e c
    \<and> (c \<in> {0, 4} \<longrightarrow> Signal \<in> set (before @ [e]))"
  using assms by (rule exit_event)

definition quiet_env :: adapter_env where
  "quiet_env =
     \<lparr> ad_app = sample_app\<lparr> pm4mlEnabled := False \<rparr>, ad_codec = sample_codec \<rparr>"

lemma quiet_env_simps [simp]:
  "pm4mlEnabled (env_app (peer_env_of quiet_env p)) = False"
  "ad_app quiet_env = sample_app\<lparr> pm4mlEnabled := False \<rparr>"
  by (simp_all add: quiet_env_def peer_env_of_def)

text \<open>Without PM4ML: a second signal arrives while peer A's server is already stopping.\<close>

definition two_signals :: "sys_event list" where
  "two_signals =
     [Launch, Outside PeerA (PeerHttpStarted None), Outside PeerB (PeerHttpStarted None), Signal, Signal,
      Outside PeerA (PeerHttpStopped (Some (ThrownError ''Cannot stop server while in stopping phase'')))]"

lemma two_signals_exit:
  "sys_exit (fst (exec (process_step quiet_env) process_init two_signals)) = Some 4"
  by (simp add: two_signals_def process_init_def process_step_def index_start_def index_stop_def
      adapter_turn_def adapter_step_def adapter_start_def adapter_stop_def peer_turn_def
      peer_step_def peer_ops createProxyAdapter_def createPeerServer_def peer_of_def set_peer_def
      peer_report_def start_result_def stop_result_def stopped_of_def then_do_def exit_of_def process_event_of_def
      exit_code_def)

theorem exit_has_cause_witness:
  "\<exists>before e after. two_signals = before @ e # after
     \<and> sys_exit (fst (exec (process_step quiet_env) process_init before)) = None
     \<and> ended_by quiet_env (fst (exec (process_step quiet_env) process_init before)) e 4
     \<and> Signal \<in> set (before @ [e])"
proof -
  have "exec (process_step quiet_env) process_init two_signals =
      (fst (exec (process_step quiet_env) process_init two_signals), snd (exec (process_step quiet_env) process_init two_signals))"
    by simp
  from exit_has_cause [OF this two_signals_exit] show ?thesis
    by (elim exE conjE) (intro exI conjI, assumption+, simp del: exec.simps)
qed

section \<open>The stop of a peer\<close>

text \<open>The pending calls of \<^verbatim>\<open>close\<close> of every peer have numbers of their own, the next one is free.\<close>

interpretation numbers: agent_property closings_numbered cd for cd
  by unfold_locales (rule closings_numbered_step)

lemma numbered_noslug: "closings_numbered (noslug a) = closings_numbered a"
  by (simp add: closings_numbered_def noslug_def)

lemma peers_numbered:
  assumes "exec (process_step env) process_init es = (s, outs)" and "sys_adapter s = Some a"
  shows "closings_numbered (ps_agent (peer_of a p))"
proof -
  let ?q = "exec (peer_step (peer_env_of env p)) (createPeerServer (env_cfg (peer_env_of env p)))
      (own_events p (heeded env process_init es))"
  have "numbers.holds_in (createPeerServer (env_cfg (peer_env_of env p)))"
    by (simp add: numbers.holds_in_def closings_numbered_def createPeerServer_def createControlAgent_def control_agent_def)
  then have "closings_numbered (ps_agent (fst ?q))"
    by (rule numbers.peer_run [OF refl])
  moreover have "own (peer_of a p) = own (fst ?q)"
    using peer_in_process [OF assms, of p] by (simp add: peer.sim_def)
  ultimately show ?thesis
    using own_fields(14) numbered_noslug by metis
qed

text \<open>Outputs that no listener and no exit handler takes up.\<close>

fun quiet :: "peer_out \<Rightarrow> bool" where
  "quiet (AgentOut (WsClose k)) = True"
| "quiet HttpStopCall = True"
| "quiet _ = False"

lemma find_append: "find P (xs @ ys) = (case find P xs of None \<Rightarrow> find P ys | Some x \<Rightarrow> Some x)"
  by (induction xs) simp_all

lemma numbered_find:
  "closings_numbered a \<Longrightarrow> find (\<lambda>c. cl_no c = ca_next a) (ca_closings a) = None"
  by (auto simp: closings_numbered_def find_None_iff)

definition stop_out :: "thrown option \<Rightarrow> peer_out" where
  "stop_out r = (case r of None \<Rightarrow> StopResolved True | Some e \<Rightarrow> StopRejected e)"

text \<open>
  From whatever state: the call of \<^verbatim>\<open>stop\<close>, the timer of its \<^verbatim>\<open>close\<close>, which needs nothing from the
  management API, and the end of the HTTP server's stop.
\<close>

lemma peer_stops:
  assumes "closings_numbered (ps_agent s)"
  shows "\<exists>t1 o1 t2 o2 t3. peer_step env s PeerStop = (t1, o1)
     \<and> peer_step env t1 (PeerAgent (CloseTimeout (ca_next (ps_agent s)))) = (t2, o2)
     \<and> peer_step env t2 (PeerHttpStopped r) = (t3, [stop_out r])
     \<and> list_all quiet o1 \<and> list_all quiet o2"
proof (cases "pm4mlEnabled (env_app env)")
  case True
  then show ?thesis
    using numbered_find [OF assms]
    by (cases "ca_ws (ps_agent s)"; cases r)
       (simp_all add: peer_step_def peer_stop_def stopPm4mlPart_def stopPeerJwsRefreshLoop_def agent_turn_def
         ca_step_def ca_close_def ws_close_def agent_event_def agent_report_def agent_effect_def
         close_timeout_def finish_close_def find_append stop_closed_def http_stopped_def stop_out_def then_do_def Let_def)
next
  case False
  then show ?thesis
    using numbered_find [OF assms]
    by (cases r) (simp_all add: peer_step_def peer_stop_def agent_turn_def ca_step_def agent_event_def
        close_timeout_def http_stopped_def stop_out_def Let_def)
qed

lemma quiet_report: "quiet x \<Longrightarrow> peer_report env p x a = (a, [PeerOut p x])"
  by (cases x rule: quiet.cases) (simp_all add: peer_report_def then_do_def)

lemma quiet_reports: "list_all quiet xs \<Longrightarrow> do_all (peer_report env p) xs a = (a, map (PeerOut p) xs)"
  by (induction xs) (simp_all add: quiet_report then_do_def)

lemma quiet_turn:
  "peer_step (peer_env_of env p) (peer_of a p) e = (t, outs) \<Longrightarrow> list_all quiet outs \<Longrightarrow>
     peer_turn env p e a = (set_peer p t a, map (PeerOut p) outs)"
  by (simp add: peer_turn_def quiet_reports)

lemma quiet_no_exit: "list_all quiet outs \<Longrightarrow> first_exit (map (PeerOut p) outs) = None"
  by (induction outs) (auto simp: exit_of_def process_event_of_def elim: quiet.elims split: option.split)

section \<open>The stop of the process\<close>

lemma first_exit_append: "first_exit (xs @ ys) = (case first_exit xs of None \<Rightarrow> first_exit ys | Some c \<Rightarrow> Some c)"
  by (induction xs) (auto split: option.split)

text \<open>The turn in which the stop of a peer's HTTP server ends.\<close>

lemma stopped_turn:
  assumes "peer_step (peer_env_of env p) (peer_of a p) (PeerHttpStopped r) = (t, [stop_out r])"
  shows "peer_turn env p (PeerHttpStopped r) a =
     (fst (stop_result p r (set_peer p t a)), PeerOut p (stop_out r) # snd (stop_result p r (set_peer p t a)))"
  using assms by (cases r) (simp_all add: peer_turn_def peer_report_def stop_out_def then_do_def Let_def)

lemma stop_result_frame:
  "peer_of (fst (stop_result p r a)) q = peer_of a q"
  "no_failure a \<Longrightarrow> first_exit (snd (stop_result p r a)) =
     (if r \<noteq> None then Some 4 else if length (stopped_of a p) < length (stopped_of a (other p)) then Some 0 else None)"
  by (cases p; cases q; simp add: stop_result_def peer_of_def Let_def) (cases r; simp add: stop_result_out)

lemma outside_turn:
  assumes "sys_exit s = None" and "sys_adapter s = Some a" and "\<not> adapter_call e"
    and "peer_turn env p e a = (b, outs)"
  shows "process_step env s (Outside p e) = (s\<lparr> sys_adapter := Some b, sys_exit := first_exit outs \<rparr>, outs)"
  using assms by (simp add: process_step_def adapter_turn_def adapter_step_def)

text \<open>The two turns that end the stop of one peer.\<close>

lemma peer_stop_ends:
  assumes s: "sys_exit s = None" "sys_adapter s = Some a" "no_failure a"
    and t: "peer_step (peer_env_of env p) (peer_of a p) (PeerAgent (CloseTimeout n)) = (t2, o2)"
      "peer_step (peer_env_of env p) t2 (PeerHttpStopped r) = (t3, [stop_out r])" "list_all quiet o2"
  shows "\<exists>u b outs. exec (process_step env) s [Outside p (PeerAgent (CloseTimeout n)), Outside p (PeerHttpStopped r)] = (u, outs)
     \<and> sys_adapter u = Some b \<and> peer_of b (other p) = peer_of a (other p)
     \<and> sys_exit u = (if r \<noteq> None then Some 4
          else if length (stopped_of a p) < length (stopped_of a (other p)) then Some 0 else None)
     \<and> stopped_of b p = stopped_of a p @ [r] \<and> stopped_of b (other p) = stopped_of a (other p)"
proof -
  let ?a = "set_peer p t2 a"
  have one: "process_step env s (Outside p (PeerAgent (CloseTimeout n)))
      = (s\<lparr> sys_adapter := Some ?a, sys_exit := None \<rparr>, map (PeerOut p) o2)"
    using outside_turn [OF s(1,2) _ quiet_turn [OF t(1,3)]] quiet_no_exit [OF t(3)] by simp
  have last: "peer_step (peer_env_of env p) (peer_of ?a p) (PeerHttpStopped r) = (t3, [stop_out r])"
    using t(2) by simp
  have ok: "no_failure (set_peer p t3 ?a)"
    using s(3) by (simp add: no_failure_def)
  have none: "exit_of (PeerOut p (stop_out r)) = None"
    by (cases r) (simp_all add: stop_out_def exit_of_def process_event_of_def)
  from outside_turn [OF _ _ _ stopped_turn [OF last], of "s\<lparr> sys_adapter := Some ?a, sys_exit := None \<rparr>"]
  have two: "process_step env (s\<lparr> sys_adapter := Some ?a, sys_exit := None \<rparr>) (Outside p (PeerHttpStopped r))
      = (s\<lparr> sys_adapter := Some (fst (stop_result p r (set_peer p t3 ?a))),
             sys_exit := if r \<noteq> None then Some 4
               else if length (stopped_of a p) < length (stopped_of a (other p)) then Some 0 else None \<rparr>,
         PeerOut p (stop_out r) # snd (stop_result p r (set_peer p t3 ?a)))"
    by (simp add: none stop_result_frame(2) [OF ok])
  show ?thesis
    using one two by (simp add: stop_result_frame(1) stopped_of_stop_result)
qed

text \<open>While the process lives, nothing has asked it to exit.\<close>

lemma living_outs:
  "sys_exit (fst (exec (process_step env) s es)) = None \<Longrightarrow> x \<in> set (snd (exec (process_step env) s es)) \<Longrightarrow>
     exit_of x = None"
proof (induction es arbitrary: s)
  case (Cons e es)
  let ?t = "fst (process_step env s e)"
  have "sys_exit ?t = None" using lives_before Cons.prems(1) by (fastforce simp: Let_def)
  then have "x \<in> set (snd (process_step env s e)) \<Longrightarrow> exit_of x = None"
    by (auto simp: process_step_def index_start_def index_stop_def adapter_turn_def first_exit_None Let_def
        split: sys_event.splits option.splits if_splits)
  then show ?case using Cons by (auto simp: Let_def)
qed simp

lemma living_no_failure:
  assumes "exec (process_step env) process_init es = (s, outs)" and "sys_adapter s = Some a" and "sys_exit s = None"
  shows "no_failure a"
proof -
  have "AdapterStopFailed e \<notin> set outs" for e
    using living_outs [of env process_init es "AdapterStopFailed e"] assms(1,3) by auto
  moreover have "no_failure (createProxyAdapter (ad_app env))"
    by (simp add: no_failure_def createProxyAdapter_def stopped_of_def split: peer_label.split)
  ultimately show ?thesis
    using fails_visibly.run_rel [of "createProxyAdapter (ad_app env)" env "heeded env process_init es"]
      process_run [OF assms(1,2)] by (simp add: fails_visibly_def)
qed

text \<open>The events of a stop to which the management APIs contribute nothing.\<close>

definition stop_events :: "Adapter \<Rightarrow> peer_label \<Rightarrow> thrown option \<Rightarrow> sys_event list" where
  "stop_events a p r =
     [Outside p (PeerAgent (CloseTimeout (ca_next (ps_agent (peer_of a p))))), Outside p (PeerHttpStopped r)]"

text \<open>
  C22. A signal always ends the process. From every state of a run in which the process still
  runs, whether its peers are starting, retry, hang on a management API that cannot be reached,
  run, or were asked to stop before, a signal and then, for each peer, the timer of its
  \<^verbatim>\<open>close\<close> and the end of its HTTP server's stop, with whatever results, end the process: neither the
  identity providers nor the management APIs can keep it alive. The code is 0 if Hapi stops both servers, and 4 if
  it rejects (as it does on a second signal while it still stops a server). Only the result of peer B does not count if B has
  already finished an earlier stop that A had not.
\<close>

theorem signal_always_ends_process:
  assumes "s = fst (exec (process_step env) process_init es)"
    and running: "sys_exit s = None" and adapter: "sys_adapter s = Some a"
  shows "sys_exit (fst (exec (process_step env) s (Signal # stop_events a PeerA rA @ stop_events a PeerB rB))) =
    Some (if rA = None \<and> (rB = None \<or> length (stoppedA a) < length (stoppedB a)) then 0 else 4)"
proof -
  obtain outs where run: "exec (process_step env) process_init es = (s, outs)"
    using assms(1) by (metis prod.collapse)
  have ok: "no_failure a" using living_no_failure [OF run adapter running] .
  have numbered: "closings_numbered (ps_agent (peer_of a p))" for p
    using peers_numbered [OF run adapter] .
  obtain t1 o1 t2 o2 t3 where A: "peer_step (peer_env_of env PeerA) (peer_of a PeerA) PeerStop = (t1, o1)"
    "peer_step (peer_env_of env PeerA) t1 (PeerAgent (CloseTimeout (ca_next (ps_agent (peer_of a PeerA))))) = (t2, o2)"
    "peer_step (peer_env_of env PeerA) t2 (PeerHttpStopped rA) = (t3, [stop_out rA])"
    "list_all quiet o1" "list_all quiet o2"
    using peer_stops [OF numbered] by blast
  obtain u1 p1 u2 p2 u3 where B: "peer_step (peer_env_of env PeerB) (peer_of a PeerB) PeerStop = (u1, p1)"
    "peer_step (peer_env_of env PeerB) u1 (PeerAgent (CloseTimeout (ca_next (ps_agent (peer_of a PeerB))))) = (u2, p2)"
    "peer_step (peer_env_of env PeerB) u2 (PeerHttpStopped rB) = (u3, [stop_out rB])"
    "list_all quiet p1" "list_all quiet p2"
    using peer_stops [OF numbered] by blast
  let ?b = "set_peer PeerB u1 (set_peer PeerA t1 a)"
  let ?s = "s\<lparr> sys_adapter := Some ?b, sys_exit := None \<rparr>"
  have "peer_turn env PeerA PeerStop a = (set_peer PeerA t1 a, map (PeerOut PeerA) o1)"
    by (rule quiet_turn) (rule A(1), rule A(4))
  moreover have "peer_turn env PeerB PeerStop (set_peer PeerA t1 a) = (?b, map (PeerOut PeerB) p1)"
    by (rule quiet_turn) (simp add: B(1), rule B(4))
  ultimately have signal: "fst (process_step env s Signal) = ?s"
    using running adapter quiet_no_exit [OF A(4)] quiet_no_exit [OF B(4)]
    by (simp add: process_step_def index_stop_def adapter_turn_def adapter_step_def adapter_stop_def
        then_do_def first_exit_append Let_def)
  have okb: "no_failure ?b" using ok by (simp add: no_failure_def)
  have A2: "peer_step (peer_env_of env PeerA) (peer_of ?b PeerA)
      (PeerAgent (CloseTimeout (ca_next (ps_agent (peer_of a PeerA))))) = (t2, o2)"
    using A(2) by simp
  let ?ahead = "length (stopped_of a PeerA) < length (stopped_of a PeerB)"
  obtain v c outs where v: "exec (process_step env) ?s (stop_events a PeerA rA) = (v, outs)"
    "sys_adapter v = Some c" "peer_of c PeerB = u1"
    "sys_exit v = (if rA \<noteq> None then Some 4 else if ?ahead then Some 0 else None)"
    "stopped_of c PeerA = stopped_of a PeerA @ [rA]" "stopped_of c PeerB = stopped_of a PeerB"
    using peer_stop_ends [of ?s ?b, OF _ _ okb A2 A(3,5)] by (auto simp: stop_events_def simp del: exec.simps)
  have "sys_exit (fst (exec (process_step env) v (stop_events a PeerB rB))) =
      Some (if rA = None \<and> (rB = None \<or> ?ahead) then 0 else 4)"
  proof (cases "sys_exit v")
    case None
    then have none: "rA = None" "\<not> ?ahead" using v(4) by (simp_all split: if_splits)
    have sub: "set (stopped_of a q) \<subseteq> {None}" for q using ok by (simp add: no_failure_def)
    have "set (stopped_of c q) \<subseteq> {None}" for q
      using sub [of PeerA] sub [of PeerB] v(5,6) none(1) by (cases q) simp_all
    then have "no_failure c" by (simp add: no_failure_def)
    moreover have B2: "peer_step (peer_env_of env PeerB) (peer_of c PeerB)
        (PeerAgent (CloseTimeout (ca_next (ps_agent (peer_of a PeerB))))) = (u2, p2)"
      using B(2) v(3) by simp
    ultimately show ?thesis
      using peer_stop_ends [OF None v(2) _ B2 B(3,5)] v(5,6) none
      by (auto simp: stop_events_def simp del: exec.simps)
  next
    case (Some d)
    then show ?thesis using v(4) exited_stays [OF Some] by (simp split: if_splits)
  qed
  moreover have "stoppedA a = stopped_of a PeerA" "stoppedB a = stopped_of a PeerB"
    by (simp_all add: stopped_of_def)
  ultimately show ?thesis using signal v(1) by (simp add: exec_append Let_def)
qed

text \<open>A process that has just been launched, both peers of which still wait for their tokens.\<close>

lemma launched:
  "sys_exit (fst (exec (process_step sample_adapter_env) process_init [Launch])) = None
   \<and> sys_adapter (fst (exec (process_step sample_adapter_env) process_init [Launch])) \<noteq> None"
  by (simp add: process_init_def process_step_def index_start_def adapter_turn_def adapter_step_def
      adapter_start_def peer_turn_def peer_step_def peer_ops createProxyAdapter_def createPeerServer_def
      peer_of_def set_peer_def peer_report_def then_do_def peer_env_of_def sample_adapter_env_def
      sample_app_def auth_defs exit_of_def process_event_of_def)

theorem signal_always_ends_process_witness:
  "\<exists>a. sys_adapter (fst (exec (process_step sample_adapter_env) process_init [Launch])) = Some a
     \<and> sys_exit (fst (exec (process_step sample_adapter_env)
          (fst (exec (process_step sample_adapter_env) process_init [Launch]))
          (Signal # stop_events a PeerA None @ stop_events a PeerB None))) = Some 0"
proof -
  obtain a where a: "sys_adapter (fst (exec (process_step sample_adapter_env) process_init [Launch])) = Some a"
    using launched by blast
  note signal_always_ends_process [OF refl launched [THEN conjunct1] a, of None None]
  then have "sys_exit (fst (exec (process_step sample_adapter_env)
          (fst (exec (process_step sample_adapter_env) process_init [Launch]))
          (Signal # stop_events a PeerA None @ stop_events a PeerB None))) = Some 0"
    by (simp only: simp_thms if_True)
  with a show ?thesis by blast
qed

end
