(* ===== verification/Clean_Exit.thy ===== *)
theory Clean_Exit
  imports Process_Stop
begin

text \<open>
  What exit code 0 of the process means for the two peers and their HTTP servers.
\<close>

section \<open>The server of a peer\<close>

text \<open>
  Whether the HTTP server of a peer accepts connections, from what the peer has put out: it does once its start
  has resolved, and does not after a stop has.
\<close>

definition serving :: "peer_out list \<Rightarrow> bool" where
  "serving outs =
     fold (\<lambda>x up. case x of StartResolved ok \<Rightarrow> True | StopResolved ok \<Rightarrow> False | _ \<Rightarrow> up) outs False"

lemma fold_serving:
  "(\<forall>ok. StartResolved ok \<notin> set xs) \<Longrightarrow> StopResolved b \<in> set xs \<Longrightarrow>
     \<not> fold (\<lambda>x up. case x of StartResolved ok \<Rightarrow> True | StopResolved ok \<Rightarrow> False | _ \<Rightarrow> up) xs up"
proof (induction xs rule: rev_induct)
  case (snoc x xs)
  then show ?case by (cases x) auto
qed simp

lemma serving_stopped:
  "\<forall>ok. StartResolved ok \<notin> set ys \<Longrightarrow> StopResolved b \<in> set ys \<Longrightarrow> \<not> serving (xs @ ys)"
  using fold_serving [of ys b] by (simp add: serving_def)

lemma serving_seen: "serving (filter seen outs) = serving outs"
proof -
  have "fold (\<lambda>x up. case x of StartResolved ok \<Rightarrow> True | StopResolved ok \<Rightarrow> False | _ \<Rightarrow> up) (filter seen outs) b =
      fold (\<lambda>x up. case x of StartResolved ok \<Rightarrow> True | StopResolved ok \<Rightarrow> False | _ \<Rightarrow> up) outs b" for b
  proof (induction outs arbitrary: b)
    case (Cons x xs)
    then show ?case by (cases x) simp_all
  qed simp
  then show ?thesis by (simp add: serving_def)
qed

lemma seen_in:
  assumes "filter seen xs = filter seen ys" and "seen y"
  shows "y \<in> set xs \<longleftrightarrow> y \<in> set ys"
proof -
  have "y \<in> set (filter seen xs) \<longleftrightarrow> y \<in> set (filter seen ys)" by (simp only: assms(1))
  then show ?thesis using assms(2) by simp
qed

text \<open>A peer that has returned from \<^verbatim>\<open>stop\<close> takes no server-state events, and never does again.\<close>

definition stops :: "PeerServer \<Rightarrow> PeerServer \<Rightarrow> peer_out list \<Rightarrow> bool" where
  "stops s t outs \<longleftrightarrow>
     (hs_listening (ps_http t) \<longrightarrow>
        hs_listening (ps_http s) \<and> StopResolved True \<notin> set outs \<and> StopResolved False \<notin> set outs)"

lemma emit_listening [simp]:
  "hs_listening (ps_http (fst (emitServerStateEvent e s))) = hs_listening (ps_http s)"
  by (simp add: emitServerStateEvent_def http_emit_def on_serverState_def reCreateHttpsAgent_def Let_def
      split: option.split)

interpretation stops: peer_contract stops
proof
  show "stops s t outs" if "ps_http t = ps_http s" "ps_ping t = ps_ping s" "mute outs" for s t outs
    using that by (auto simp: stops_def mute_def list_all_iff)
  show "stops s (fst (http_stopped err s)) (snd (http_stopped err s))" for err s
    by (simp add: stops_def http_stopped_def http_stop_def split: option.split)
  show "stops s (s\<lparr> ps_http := fst (shutdown_timer n (ps_http s)) \<rparr>) (map HttpOut houts)" for s n houts
    by (auto simp: stops_def shutdown_timer_def split: option.split)
  show "stops s (fst (emitServerStateEvent e s)) (snd (emitServerStateEvent e s))" for s e
    by (auto simp: stops_def) (auto simp: emitServerStateEvent_def emitPingAuthDetails_def Let_def)
qed (auto simp: stops_def)

lemma stops_peer_step: "stops s (fst (peer_step env s e)) (snd (peer_step env s e))"
proof (cases "(\<exists>d. e = PeerPropagate d) \<or> (\<exists>d. e = PeerPingDetails d)")
  case True
  then show ?thesis
    by (cases "isReady s")
       (auto simp: peer_step_def propagatePeerJWSEvent_def updatePingAuthDetails_def stops_def Let_def)
next
  case False
  then show ?thesis by (intro stops.peer_step_rel) auto
qed

lemma stops_run: "stops s (fst (exec (peer_step env) s es)) (snd (exec (peer_step env) s es))"
  by (induction es arbitrary: s) (simp_all add: Let_def stops.idle stops.seq [OF stops_peer_step])

text \<open>The results of a start and of a stop in the runs of a peer.\<close>

lemma stop_resolves_true: "StopResolved ok \<in> set (snd (exec (peer_step env) s es)) \<Longrightarrow> ok"
proof (induction es arbitrary: s)
  case (Cons e es)
  have "StopResolved ok \<in> set (snd (peer_step env s e)) \<Longrightarrow> ok"
    by (drule notable_turn) (auto split: option.splits)
  then show ?case using Cons by (auto simp: Let_def)
qed simp

lemma unstopped_resolves_nothing:
  "unstopped.holds s \<Longrightarrow> PeerStop \<notin> set es \<Longrightarrow> StopResolved ok \<notin> set (snd (exec (peer_step env) s es))"
proof (induction es arbitrary: s)
  case (Cons e es)
  have "StopResolved ok \<notin> set (snd (peer_step env s e))"
    using notable_turn [of "StopResolved ok" env s e] Cons.prems(1) by (auto simp: unstopped.holds_def split: option.splits)
  moreover have "unstopped.holds (fst (peer_step env s e))"
    using Cons.prems by (intro unstopped.peer_turn) auto
  ultimately show ?case using Cons by (simp add: Let_def)
qed simp

lemma stop_keeps_start [simp]: "ps_start (fst (peer_stop env s)) = ps_start s"
  by (simp add: peer_stop_def stopPm4mlPart_def stopPeerJwsRefreshLoop_def agent_turn_def Let_def)

lemma start_over_turn: "start_over.holds s \<Longrightarrow> start_over.holds (fst (peer_step env s e))"
  by (cases "e = PeerStop") (simp_all add: start_over.peer_turn, simp add: start_over.holds_def peer_step_def)

lemma start_over_resolves_nothing:
  "start_over.holds s \<Longrightarrow> StartResolved ok \<notin> set (snd (exec (peer_step env) s es))"
proof (induction es arbitrary: s)
  case (Cons e es)
  have "StartResolved ok \<notin> set (snd (peer_step env s e))"
    using notable_turn [of "StartResolved ok" env s e] Cons.prems by (auto simp: start_over.holds_def split: option.splits)
  then show ?case using Cons start_over_turn by (simp add: Let_def)
qed simp

section \<open>Exit code 0\<close>

text \<open>The last state of a process that has ended with 0.\<close>

lemma exit_zero_results:
  assumes run: "exec (process_step env) process_init es = (s, outs)" and zero: "sys_exit s = Some 0"
    and adapter: "sys_adapter s = Some a"
  shows "no_failure a \<and> None \<in> set (stopped_of a p)"
proof -
  obtain before e after where split: "es = before @ e # after"
    and live: "sys_exit (fst (exec (process_step env) process_init before)) = None"
    and ends: "sys_exit (fst (exec (process_step env) process_init (before @ [e]))) = Some 0"
    using ending_event [of process_init env es 0] run zero by (auto simp: process_init_def)
  obtain u outs1 where u: "exec (process_step env) process_init before = (u, outs1)" by (rule prod.exhaust)
  have s: "s = fst (process_step env u e)"
    using run exited_stays [OF ends, of env after] u
    by (simp add: split exec_append [of _ _ before] Let_def)
  have "ended_by env u e 0"
    using step_ended_by [of u env e 0] live u s zero by simp
  then obtain b p0 where b: "sys_adapter u = Some b" and e: "e = Outside p0 (PeerHttpStopped None)"
    using adapter s live u by (auto simp: ended_by_def process_step_def index_stop_def)
  let ?e = "OfPeer p0 (PeerHttpStopped None)"
  have a: "a = fst (adapter_step env b ?e)" and exit: "first_exit (snd (adapter_step env b ?e)) = Some 0"
    using s adapter zero live u b e by (auto simp: process_step_def adapter_turn_def Let_def)
  have "AdapterStopped \<in> set (snd (adapter_step env b ?e))"
    using first_exit_Some [OF exit] by (auto elim: exit_kinds)
  then have "None \<in> set (stopped_of a p)"
    using stops_both.step_rel [of b env ?e] by (simp add: stops_both_def a)
  moreover have "AdapterStopFailed err \<notin> set (snd (adapter_step env b ?e))" for err
    using reported.step_rel [of b env ?e] settled_step(3) [of _ err env b ?e] by (auto simp: reported_def)
  then have "no_failure a"
    using fails_visibly.step_rel [of b env ?e] living_no_failure [OF u b] live u
    by (simp add: fails_visibly_def a)
  ultimately show ?thesis by simp
qed

lemma created_results [simp]: "stopped_of (createProxyAdapter cfg) p = []"
  by (cases p) (simp_all add: createProxyAdapter_def stopped_of_def)

lemma results_put_out:
  assumes "exec (process_step env) process_init es = (s, outs)" and "sys_adapter s = Some a"
  shows "stopped_of a p = stop_outcomes (outs_of p outs)"
  using booked_stops.run_rel [of "createProxyAdapter (ad_app env)" env "heeded env process_init es"]
  by (simp add: booked_stops_def process_run [OF assms])

text \<open>The first signal splits the run of a peer in the process.\<close>

lemma server_down:
  assumes run: "exec (process_step env) process_init (es1 @ Signal # es2) = (s, outs)" and adapter: "sys_adapter s = Some a"
    and first: "Signal \<notin> set es1" "sys_adapter (fst (exec (process_step env) process_init es1)) = Some b"
    and over: "ps_start (peer_of b p) = StartOver"
    and stopped: "StopResolved ok \<in> set (outs_of p outs)"
  shows "\<not> serving (outs_of p outs)"
proof -
  let ?f = "peer_step (peer_env_of env p)" and ?c = "createPeerServer (env_cfg (peer_env_of env p))"
  let ?u = "fst (exec (process_step env) process_init es1)"
  let ?e1 = "own_events p (heeded env process_init es1)" and ?e2 = "own_events p (heeded env ?u (Signal # es2))"
  let ?t = "fst (exec ?f ?c ?e1)"
  have ev: "own_events p (heeded env process_init (es1 @ Signal # es2)) = ?e1 @ ?e2"
    by (simp only: heeded_append) (simp add: own_events_def)
  have whole: "filter seen (outs_of p outs) = filter seen (snd (exec ?f ?c (?e1 @ ?e2)))"
    using peer_in_process [OF run adapter, of p] unfolding ev by (simp add: peer.sim_def)
  have sets: "y \<in> set (outs_of p outs) \<longleftrightarrow> y \<in> set (snd (exec ?f ?c (?e1 @ ?e2)))" if "seen y" for y
    using seen_in [OF whole that] .
  have "own (peer_of b p) = own ?t"
    using peer_in_process [of env es1 ?u "snd (exec (process_step env) process_init es1)" b p] first(2)
    by (simp add: peer.sim_def)
  then have t: "start_over.holds ?t"
    using over own_fields(8) by (metis start_over.holds_def)
  have "StopResolved ok \<notin> set (snd (exec ?f ?c ?e1))"
    by (rule unstopped_resolves_nothing) (simp_all add: unstopped.holds_def createPeerServer_def no_signal_no_stop first(1))
  then have "StopResolved ok \<in> set (snd (exec ?f ?t ?e2))"
    using sets [of "StopResolved ok"] stopped by (simp add: exec_append Let_def)
  moreover have "\<forall>b. StartResolved b \<notin> set (snd (exec ?f ?t ?e2))"
    using start_over_resolves_nothing [OF t] by blast
  ultimately have "\<not> serving (snd (exec ?f ?c ?e1) @ snd (exec ?f ?t ?e2))"
    by (intro serving_stopped)
  then show ?thesis
    using whole serving_seen [of "outs_of p outs"] serving_seen [of "snd (exec ?f ?c (?e1 @ ?e2))"]
    by (simp add: exec_append Let_def)
qed

text \<open>
  C24. What exit code 0 means. If a launched process has ended with code 0, it got a signal, and each peer
  has returned from \<^verbatim>\<open>stop\<close>, no \<^verbatim>\<open>stop\<close> of it was rejected, and its HTTP server takes
  no server-state events any more, so that its credentials are fixed. If moreover the start of the peer was
  over when the first signal came, its server does not accept connections. (A start that was still going on may go
  on after its \<^verbatim>\<open>stop\<close> has returned and bring the server up again.)
\<close>

theorem exit_zero_after_both_stops:
  assumes "exec (process_step env) process_init es = (s, outs)" and "sys_exit s = Some 0" and "sys_adapter s = Some a"
  shows "Signal \<in> set es
    \<and> (\<forall>p. StopResolved True \<in> set (outs_of p outs) \<and> (\<forall>e. StopRejected e \<notin> set (outs_of p outs))
         \<and> \<not> hs_listening (ps_http (peer_of a p)))
    \<and> (\<forall>p es1 es2 b. es = es1 @ Signal # es2 \<and> Signal \<notin> set es1
         \<and> sys_adapter (fst (exec (process_step env) process_init es1)) = Some b
         \<and> ps_start (peer_of b p) = StartOver \<longrightarrow> \<not> serving (outs_of p outs))"
proof -
  have "Signal \<in> set es"
    using exit_event [OF assms(1,2)] by auto
  moreover have resolved: "StopResolved True \<in> set (outs_of p outs)" for p
  proof -
    have "StopResolved True \<in> set (outs_of p outs) \<or> StopResolved False \<in> set (outs_of p outs)"
      using exit_zero_results [OF assms] results_put_out [OF assms(1,3), of p] stop_outcome_iff(1) by metis
    moreover have "StopResolved False \<notin> set (outs_of p outs)"
    proof -
      let ?q = "exec (peer_step (peer_env_of env p)) (createPeerServer (env_cfg (peer_env_of env p)))
          (own_events p (heeded env process_init es))"
      have "filter seen (outs_of p outs) = filter seen (snd ?q)"
        using peer_in_process [OF assms(1,3), of p] by (simp add: peer.sim_def)
      moreover have "StopResolved False \<notin> set (snd ?q)" using stop_resolves_true by blast
      ultimately show ?thesis using seen_in [of "outs_of p outs" "snd ?q" "StopResolved False"] by simp
    qed
    ultimately show ?thesis by blast
  qed
  moreover have "StopRejected e \<notin> set (outs_of p outs)" for p e
  proof -
    have "Some e \<notin> set (stopped_of a p)"
      using exit_zero_results [OF assms, of p] by (auto simp: no_failure_def)
    then show ?thesis by (simp add: results_put_out [OF assms(1,3)] stop_outcome_iff(2))
  qed
  moreover have "\<not> hs_listening (ps_http (peer_of a p))" for p
  proof -
    let ?q = "exec (peer_step (peer_env_of env p)) (createPeerServer (env_cfg (peer_env_of env p)))
        (own_events p (heeded env process_init es))"
    have sim: "own (peer_of a p) = own (fst ?q)" "filter seen (outs_of p outs) = filter seen (snd ?q)"
      using peer_in_process [OF assms(1,3), of p] by (simp_all add: peer.sim_def)
    have "StopResolved True \<in> set (snd ?q)"
      using resolved [of p] seen_in [OF sim(2), of "StopResolved True"] by simp
    then have "\<not> hs_listening (ps_http (fst ?q))"
      using stops_run by (fastforce simp: stops_def)
    then show ?thesis using own_fields(13) [OF sim(1)] by simp
  qed
  moreover have "\<not> serving (outs_of p outs)"
    if "es = es1 @ Signal # es2" "Signal \<notin> set es1"
      "sys_adapter (fst (exec (process_step env) process_init es1)) = Some b" "ps_start (peer_of b p) = StartOver"
    for p es1 es2 b
    using server_down [OF assms(1) [unfolded that(1)] assms(3) that(2-4) resolved] .
  ultimately show ?thesis by blast
qed

text \<open>Two peers without PM4ML, whose servers were up when the signal came.\<close>

definition quiet_start :: "sys_event list" where
  "quiet_start = [Launch, Outside PeerA (PeerHttpStarted None), Outside PeerB (PeerHttpStarted None)]"

definition quiet_stop :: "sys_event list" where
  "quiet_stop = [Outside PeerA (PeerHttpStopped None), Outside PeerB (PeerHttpStopped None)]"

lemmas quiet_turn_defs =
  process_init_def process_step_def index_start_def index_stop_def
  adapter_turn_def adapter_step_def adapter_start_def adapter_stop_def peer_turn_def
  peer_step_def peer_ops createProxyAdapter_def createPeerServer_def peer_of_def set_peer_def
  peer_report_def start_result_def stop_result_def stopped_of_def then_do_def exit_of_def process_event_of_def
  exit_code_def

lemma quiet_run_result:
  "sys_exit (fst (exec (process_step quiet_env) process_init (quiet_start @ Signal # quiet_stop))) = Some 0
   \<and> sys_adapter (fst (exec (process_step quiet_env) process_init (quiet_start @ Signal # quiet_stop))) \<noteq> None"
  by (simp add: quiet_start_def quiet_stop_def quiet_turn_defs)

lemma quiet_start_result:
  "\<exists>b. sys_adapter (fst (exec (process_step quiet_env) process_init quiet_start)) = Some b
     \<and> ps_start (peer_of b PeerA) = StartOver"
  by (simp add: quiet_start_def quiet_turn_defs)

theorem exit_zero_after_both_stops_witness:
  "\<not> serving (outs_of PeerA (snd (exec (process_step quiet_env) process_init (quiet_start @ Signal # quiet_stop))))"
proof -
  obtain s outs where run: "exec (process_step quiet_env) process_init (quiet_start @ Signal # quiet_stop) = (s, outs)"
    by (rule prod.exhaust)
  obtain a where a: "sys_exit s = Some 0" "sys_adapter s = Some a"
    using quiet_run_result unfolding run by auto
  obtain b where b: "sys_adapter (fst (exec (process_step quiet_env) process_init quiet_start)) = Some b"
    "ps_start (peer_of b PeerA) = StartOver"
    using quiet_start_result by blast
  have "Signal \<notin> set quiet_start" by (simp add: quiet_start_def)
  with exit_zero_after_both_stops [OF run a] b have "\<not> serving (outs_of PeerA outs)" by blast
  then show ?thesis unfolding run snd_conv .
qed

text \<open>
  A start that is still going on when the signal comes can outlive its \<^verbatim>\<open>stop\<close>: peer A has returned from
  \<^verbatim>\<open>stop\<close>, then its token request fails and the call of \<^verbatim>\<open>start\<close> goes on to the HTTP server, which accepts
  connections while peer B still stops; the process ends with code 0.
\<close>

definition late_start :: "sys_event list" where
  "late_start =
     [Launch, Signal, Outside PeerA (PeerAgent (CloseTimeout 0)), Outside PeerA (PeerHttpStopped None),
      Outside PeerA (PeerTokenResponse 0 (Inl (ThrownError ''refused''))),
      Outside PeerA (PeerAgent (CloseTimeout 1)), Outside PeerA (PeerHttpStarted None),
      Outside PeerB (PeerAgent (CloseTimeout 0)), Outside PeerB (PeerHttpStopped None)]"

theorem exit_zero_while_serving:
  "sys_exit (fst (exec (process_step sample_adapter_env) process_init late_start)) = Some 0
   \<and> serving (outs_of PeerA (snd (exec (process_step sample_adapter_env) process_init late_start)))"
  by code_simp

end
