(* ===== verification/Mock_Servers.thy ===== *)
theory Mock_Servers
  imports Protocol
begin

text \<open>
  The servers of \<^verbatim>\<open>docker/mock-servers/src\<close> that stand for the outside of the adapter: the
  management API (\<^verbatim>\<open>wsServer.ts\<close>), the hub (\<^verbatim>\<open>hubServer.ts\<close>), the identity provider
  (\<^verbatim>\<open>oidcServer.ts\<close>), the echo server (\<^verbatim>\<open>server.ts\<close>) and their configuration. Sockets are
  numbers; the path matching of Express and \<^verbatim>\<open>randomUUID\<close> are parameters.
\<close>

section \<open>Configuration: config.ts\<close>

type_synonym environ = "string \<Rightarrow> string option"

text \<open>\<^verbatim>\<open>parseInt(s)\<close>, on ASCII text; \<open>None\<close> is \<^verbatim>\<open>NaN\<close>. Without a radix, \<^verbatim>\<open>0x\<close> means 16.\<close>

definition parseInt :: "string \<Rightarrow> int option" where
  "parseInt text =
     (let s = dropWhile (\<lambda>c. of_char c \<in> ({9, 10, 11, 12, 13, 32} :: nat set)) text;
          neg = (s \<noteq> [] \<and> hd s = CHR ''-'');
          u = (if s \<noteq> [] \<and> hd s \<in> set ''+-'' then tl s else s);
          hex = (starts_with u ''0x'' \<or> starts_with u ''0X'');
          ds = (if hex then takeWhile (\<lambda>c. hex_val c \<noteq> None) (drop 2 u) else takeWhile digit u);
          n = foldl (\<lambda>n c. (if hex then 16 else 10) * n + the (hex_val c)) 0 ds
      in if ds = [] then None else Some (if neg then - int n else int n))"

definition env_number :: "environ \<Rightarrow> string \<Rightarrow> int \<Rightarrow> int" where
  "env_number env k dflt =
     (case parseInt (case env k of Some s \<Rightarrow> s | None \<Rightarrow> []) of
        Some n \<Rightarrow> if n = 0 then dflt else n
      | None \<Rightarrow> dflt)"

definition WS_PORT :: "environ \<Rightarrow> int" where "WS_PORT env = env_number env ''WS_PORT'' 4005"
definition OIDC_PORT :: "environ \<Rightarrow> int" where "OIDC_PORT env = env_number env ''OIDC_PORT'' 8080"
definition DELAY_MS :: "environ \<Rightarrow> int" where "DELAY_MS env = env_number env ''ECHO_DELAY_MS'' 500"
definition WS_PING_INTERVAL_MS :: "environ \<Rightarrow> int" where
  "WS_PING_INTERVAL_MS env = env_number env ''WS_PING_INTERVAL_MS'' 30000"

text \<open>The two ports that are not parsed keep the text of the environment.\<close>

definition ECHO_PORT :: "environ \<Rightarrow> js" where
  "ECHO_PORT env = (case env ''ECHO_PORT'' of Some s \<Rightarrow> JStr s | None \<Rightarrow> JNum 6000)"

definition MTLS_PORT :: "environ \<Rightarrow> js" where
  "MTLS_PORT env = (case env ''ECHO_MTLS_PORT'' of Some s \<Rightarrow> JStr s | None \<Rightarrow> JNum 6443)"

fun parse_hub_headers :: "string list \<Rightarrow> headers \<Rightarrow> thrown + headers" where
  "parse_hub_headers [] acc = Inr acc"
| "parse_hub_headers (hv # hvs) acc =
     (case split_on CHR '','' hv of
        header # v # _ \<Rightarrow>
          if header = [] \<or> v = [] then Inl (ThrownError (''Invalid header value: '' @ hv))
          else parse_hub_headers hvs (oput header v acc)
      | _ \<Rightarrow> Inl (ThrownError (''Invalid header value: '' @ hv)))"

definition HUB_HEADERS :: "environ \<Rightarrow> thrown + headers" where
  "HUB_HEADERS env =
     parse_hub_headers (split_on CHR '';'' (case env ''HUB_HEADERS'' of Some s \<Rightarrow> s | None \<Rightarrow> [])) []"

lemma HUB_HEADERS_unset: "env ''HUB_HEADERS'' = None \<Longrightarrow> HUB_HEADERS env = Inl (ThrownError ''Invalid header value: '')"
  by (simp add: HUB_HEADERS_def)

text \<open>What the documented form \<^verbatim>\<open>h1,v1;h2,v2\<close> is read as.\<close>

fun header_text :: "(string \<times> string) list \<Rightarrow> string" where
  "header_text [] = []"
| "header_text [(h, v)] = h @ '','' @ v"
| "header_text ((h, v) # hvs) = h @ '','' @ v @ '';'' @ header_text hvs"

definition header_ok :: "string \<times> string \<Rightarrow> bool" where
  "header_ok p \<longleftrightarrow> fst p \<noteq> [] \<and> snd p \<noteq> [] \<and> set (fst p @ snd p) \<inter> set '',;'' = {}"

lemma parse_header_text:
  "hvs \<noteq> [] \<Longrightarrow> list_all header_ok hvs \<Longrightarrow>
     parse_hub_headers (split_on CHR '';'' (header_text hvs)) acc = Inr (ospread acc hvs)"
proof (induction hvs arbitrary: acc rule: header_text.induct)
  case (2 h v)
  then have "split_on CHR '';'' (h @ '','' @ v) = [h @ '','' @ v]" by (intro split_on_plain) (auto simp: header_ok_def)
  with 2 show ?case by (auto simp: header_ok_def split_on_append split_on_plain ospread_def)
next
  case (3 h v p hvs)
  then have "split_on CHR '';'' ((h @ '','' @ v) @ CHR '';'' # header_text (p # hvs)) =
      (h @ '','' @ v) # split_on CHR '';'' (header_text (p # hvs))"
    by (intro split_on_append) (auto simp: header_ok_def)
  with 3 show ?case by (auto simp: header_ok_def split_on_append split_on_plain ospread_def)
qed simp

text \<open>The certificates are looked up in \<^verbatim>\<open>certs.json\<close>, an argument.\<close>

definition certs_field :: "environ \<Rightarrow> string \<Rightarrow> string \<Rightarrow> string" where
  "certs_field env k dflt = (case env k of Some s \<Rightarrow> s | None \<Rightarrow> dflt)"

definition serverCerts :: "js obj \<Rightarrow> environ \<Rightarrow> js option" where
  "serverCerts certsJson env = oget certsJson (certs_field env ''SERVER_CERTS_FIELD'' ''server-localhost'')"

definition clientCerts :: "js obj \<Rightarrow> environ \<Rightarrow> js option" where
  "clientCerts certsJson env = oget certsJson (certs_field env ''CLIENT_CERTS_FIELD'' ''client-localhost'')"

text \<open>The options of the TLS servers: only clients with a certificate of the CA may connect.\<close>

record tls_server_options =
  to_ca :: "js option"
  to_cert :: "js option"
  to_key :: "js option"
  to_requestCert :: bool
  to_rejectUnauthorized :: bool

definition createTlsServerOptions :: "js option \<Rightarrow> thrown + tls_server_options" where
  "createTlsServerOptions certs =
     (case (getp certs ''ca'', getp certs ''cert'', getp certs ''key'') of
        (Inr a, Inr c, Inr k) \<Rightarrow>
          Inr \<lparr> to_ca = a, to_cert = c, to_key = k, to_requestCert = True, to_rejectUnauthorized = True \<rparr>
      | (Inl e, _, _) \<Rightarrow> Inl e
      | (_, Inl e, _) \<Rightarrow> Inl e
      | (_, _, Inl e) \<Rightarrow> Inl e)"

section \<open>The management API: wsServer.ts\<close>

text \<open>\<^verbatim>\<open>JSON.stringify\<close>; \<open>undefined\<close> has no text.\<close>

definition JSON_stringify :: "js option \<Rightarrow> string option" where
  "JSON_stringify = map_option (\<lambda>v. json_stringify (to_json v))"

text \<open>
  The clients of the server with their \<^verbatim>\<open>isAlive\<close>, in the order in which they connected, and the
  received messages, the newest first; \<^verbatim>\<open>ws\<close> delivers a message as a buffer.
\<close>

record MockWs =
  mw_clients :: "(nat \<times> bool) list"
  mw_received :: "js list"
  mw_uuids :: nat

definition mock_ws_init :: MockWs where
  "mock_ws_init = \<lparr> mw_clients = [], mw_received = [], mw_uuids = 0 \<rparr>"

datatype mock_ws_event =
    WsConnected nat
  | WsMessage nat string
  | WsPong nat
  | WsClosed nat
  | PingTick

datatype mock_ws_out = MockSend nat "string option" | MockPing nat | MockTerminate nat

definition set_alive :: "nat \<Rightarrow> bool \<Rightarrow> (nat \<times> bool) list \<Rightarrow> (nat \<times> bool) list" where
  "set_alive k b = map (\<lambda>(j, a). (j, if j = k then b else a))"

text \<open>Spreading \<^verbatim>\<open>clientCerts\<close> copies its properties; spreading \<open>undefined\<close> copies none.\<close>

definition credsMessageDto :: "js option \<Rightarrow> string \<Rightarrow> js" where
  "credsMessageDto certs mid =
     JObj [(''id'', JStr mid), (''verb'', JStr ''NOTIFY''), (''msg'', JStr ''CONFIGURATION''),
       (''data'', JObj [(''outbound'', JObj [(''tls'', JObj [(''creds'',
          JObj (case certs of Some (JObj ps) \<Rightarrow> ps | _ \<Rightarrow> []))])])])]"

definition handleTestMessage :: "js \<Rightarrow> nat \<Rightarrow> MockWs \<Rightarrow> mock_ws_out list" where
  "handleTestMessage msgObj k s =
     (let verb = opt_getp (Some msgObj) ''verb''; data = opt_getp (Some msgObj) ''data'' in
      if verb = Some (JStr ''PUBLISH'')
      then map (\<lambda>c. MockSend (fst c) (JSON_stringify data)) (mw_clients s)
      else if verb = Some (JStr ''GET_MESSAGES'')
      then [MockSend k (JSON_stringify (Some (JArr (mw_received s))))]
      else [])"

definition text_buffer :: "string \<Rightarrow> js" where
  "text_buffer t = JBuf (map of_char t)"

definition mock_message ::
  "(nat \<Rightarrow> string) \<Rightarrow> js option \<Rightarrow> nat \<Rightarrow> string \<Rightarrow> MockWs \<Rightarrow> MockWs \<times> mock_ws_out list" where
  "mock_message uuid certs k message s =
     (let s1 = s\<lparr> mw_received := text_buffer message # mw_received s, mw_uuids := Suc (mw_uuids s) \<rparr>;
          reply = [MockSend k (JSON_stringify (Some (credsMessageDto certs (''mock-'' @ uuid (mw_uuids s)))))]
      in case json_parse message of
           None \<Rightarrow> (s1, reply)
         | Some msgObj \<Rightarrow>
             (case getp (Some msgObj) ''msg'' of
                Inr m \<Rightarrow>
                  if m = Some (JStr ''TEST'') then (s1, handleTestMessage msgObj k s1) else (s1, reply)
              | Inl e \<Rightarrow> (s1, reply)))"

text \<open>One round of the ping interval, over the clients in turn.\<close>

fun ping_round :: "(nat \<times> bool) list \<Rightarrow> (nat \<times> bool) list \<times> mock_ws_out list" where
  "ping_round [] = ([], [])"
| "ping_round ((k, alive) # cs) =
     (let q = ping_round cs in
      if alive then ((k, False) # fst q, MockPing k # snd q)
      else ((k, False) # fst q, MockTerminate k # snd q))"

definition mock_ws_step ::
  "(nat \<Rightarrow> string) \<Rightarrow> js option \<Rightarrow> MockWs \<Rightarrow> mock_ws_event \<Rightarrow> MockWs \<times> mock_ws_out list" where
  "mock_ws_step uuid certs s e =
     (case e of
        WsConnected k \<Rightarrow> (s\<lparr> mw_clients := mw_clients s @ [(k, True)] \<rparr>, [])
      | WsMessage k message \<Rightarrow> mock_message uuid certs k message s
      | WsPong k \<Rightarrow> (s\<lparr> mw_clients := set_alive k True (mw_clients s) \<rparr>, [])
      | WsClosed k \<Rightarrow> (s\<lparr> mw_clients := filter (\<lambda>c. fst c \<noteq> k) (mw_clients s) \<rparr>, [])
      | PingTick \<Rightarrow> (let q = ping_round (mw_clients s) in (s\<lparr> mw_clients := fst q \<rparr>, snd q)))"

section \<open>The identity provider: oidcServer.ts\<close>

record mock_request =
  mr_method :: string
  mr_path :: string
  mr_headers :: headers
  mr_query :: js
  mr_body :: js

record mock_response =
  ms_status :: int
  ms_headers :: headers
  ms_json :: "js option"

definition generateOidcTokenDto :: "string \<Rightarrow> int option \<Rightarrow> js" where
  "generateOidcTokenDto uuid expires_in =
     JObj [(''access_token'', JStr (''mock-token-'' @ uuid)),
           (''expires_in'', JNum (case expires_in of None \<Rightarrow> 300 | Some n \<Rightarrow> n)),
           (''token_type'', JStr ''mock type''), (''scope'', JStr ''test'')]"

text \<open>
  \<open>matches pattern path\<close> is Express's path matching. A \<^verbatim>\<open>GET\<close> route also answers \<^verbatim>\<open>HEAD\<close>; what no
  route takes is answered by Express with 404.
\<close>

definition takes :: "(string \<Rightarrow> string \<Rightarrow> bool) \<Rightarrow> string \<Rightarrow> string \<Rightarrow> mock_request \<Rightarrow> bool" where
  "takes matches verb pat req \<longleftrightarrow>
     (mr_method req = verb \<or> verb = ''GET'' \<and> mr_method req = ''HEAD'') \<and> matches pat (mr_path req)"

definition json_response :: "int \<Rightarrow> headers \<Rightarrow> js \<Rightarrow> mock_response" where
  "json_response status hs v = \<lparr> ms_status = status, ms_headers = hs, ms_json = Some v \<rparr>"

definition health_ok :: mock_response where
  "health_ok = json_response 200 [] (JObj [(''success'', JBool True)])"

definition oidc_server :: "(string \<Rightarrow> string \<Rightarrow> bool) \<Rightarrow> string \<Rightarrow> mock_request \<Rightarrow> mock_response option" where
  "oidc_server matches uuid req =
     (if takes matches ''GET'' ''/health'' req then Some health_ok
      else if takes matches ''POST'' ''/openid-connect/token'' req
      then Some (json_response 200 [] (generateOidcTokenDto uuid None))
      else None)"

section \<open>The hub: hubServer.ts\<close>

text \<open>The names of the headers of a request are in lower case, as Node delivers them.\<close>

definition bearer_ok :: "headers \<Rightarrow> bool" where
  "bearer_ok hs = (case oget hs ''authorization'' of None \<Rightarrow> False | Some a \<Rightarrow> starts_with a ''Bearer '')"

definition hub_echo :: "mock_request \<Rightarrow> js" where
  "hub_echo req =
     JObj [(''method'', JStr (mr_method req)), (''path'', JStr (mr_path req)),
           (''headers'', JObj (map (\<lambda>(k, v). (k, JStr v)) (mr_headers req))),
           (''query'', mr_query req), (''body'', mr_body req)]"

text \<open>The response and after how many milliseconds it is sent.\<close>

definition hub_server ::
  "(string \<Rightarrow> string \<Rightarrow> bool) \<Rightarrow> headers \<Rightarrow> int \<Rightarrow> mock_request \<Rightarrow> mock_response \<times> int" where
  "hub_server matches hub_headers delay req =
     (if takes matches ''GET'' ''/health'' req then (health_ok, 0)
      else if takes matches ''PUT'' ''/ping/:id'' req
      then (\<lparr> ms_status = 200, ms_headers = [], ms_json = None \<rparr>, 0)
      else if \<not> bearer_ok (mr_headers req)
      then (json_response 401 [] (JObj [(''error'', JStr ''Authorization Error'')]), 0)
      else (json_response 200 hub_headers (hub_echo req), node_delay delay))"

section \<open>The TLS server and the websocket client: mtlsServer.ts, wsClient.ts\<close>

definition mtls_server :: mock_response where
  "mtls_server = json_response 200 [(''Content-Type'', ''application/json'')] (JObj [(''success'', JBool True)])"

definition ws_client_address :: "environ \<Rightarrow> string" where
  "ws_client_address env = ''ws://localhost:'' @ show_int (WS_PORT env)"

definition ws_client_greeting :: string where
  "ws_client_greeting = ''Hello, Server!''"

section \<open>The echo server: server.ts\<close>

fun percent_decode :: "string \<Rightarrow> string" where
  "percent_decode [] = []"
| "percent_decode (c # cs) =
     (case cs of
        a # b # rest \<Rightarrow>
          (case (hex_val a, hex_val b) of
             (Some x, Some y) \<Rightarrow>
               if c = CHR ''%'' then char_of (16 * x + y) # percent_decode rest else c # percent_decode cs
           | _ \<Rightarrow> c # percent_decode cs)
      | _ \<Rightarrow> c # percent_decode cs)"

definition form_decode :: "string \<Rightarrow> string" where
  "form_decode s = percent_decode (map (\<lambda>c. if c = CHR ''+'' then CHR '' '' else c) s)"

text \<open>
  \<^verbatim>\<open>Object.fromEntries(new URL(url, ...).searchParams.entries())\<close> of a request target \<^verbatim>\<open>/path?query\<close>
  in UTF-8.
\<close>

definition after_char :: "char \<Rightarrow> string \<Rightarrow> string" where
  "after_char d s = drop 1 (dropWhile (\<lambda>c. c \<noteq> d) s)"

definition before_char :: "char \<Rightarrow> string \<Rightarrow> string" where
  "before_char d s = takeWhile (\<lambda>c. c \<noteq> d) s"

definition search_params :: "string \<Rightarrow> js" where
  "search_params url =
     JObj (fold (\<lambda>p. oput (form_decode (before_char CHR ''='' p)) (JStr (form_decode (after_char CHR ''='' p))))
       (filter (\<lambda>p. p \<noteq> []) (split_on CHR ''&'' (after_char CHR ''?'' (before_char CHR ''#'' url)))) [])"

record echo_request =
  er_method :: string
  er_url :: string
  er_headers :: headers
  er_data :: "string list"

record Echo =
  ec_reqCount :: nat
  ec_requests :: "(nat \<times> echo_request) list"

definition echo_init :: Echo where
  "echo_init = \<lparr> ec_reqCount = 0, ec_requests = [] \<rparr>"

datatype echo_event =
    EchoRequest string string headers
  | EchoData nat string
  | EchoEnd nat
  | EchoDelayed nat
  | EchoSignal
  | EchoClosed

datatype echo_out =
    EchoWait nat int
  | EchoUnhandled nat
  | EchoRespond nat mock_response
  | EchoCloseServer
  | EchoExit int

definition echo_json :: "echo_request \<Rightarrow> js" where
  "echo_json r =
     JObj [(''method'', JStr (er_method r)), (''url'', JStr (er_url r)),
           (''body'', JStr (concat (er_data r))),
           (''headers'', JObj (map (\<lambda>(k, v). (k, JStr v)) (er_headers r))),
           (''queryParams'', search_params (er_url r))]"

text \<open>
  \<open>url_ok\<close> tells whether \<^verbatim>\<open>new URL(url, ...)\<close> accepts the target and the \<^verbatim>\<open>Host\<close> header; when it throws,
  the promise of the listener of \<^verbatim>\<open>end\<close> is rejected and nobody handles that.
\<close>

definition echo_step ::
  "(string \<Rightarrow> headers \<Rightarrow> bool) \<Rightarrow> int \<Rightarrow> Echo \<Rightarrow> echo_event \<Rightarrow> Echo \<times> echo_out list" where
  "echo_step url_ok delay s e =
     (case e of
        EchoRequest m u hs \<Rightarrow>
          (let k = Suc (ec_reqCount s) in
           (s\<lparr> ec_reqCount := k,
               ec_requests := ec_requests s @
                 [(k, \<lparr> er_method = m, er_url = u, er_headers = hs, er_data = [] \<rparr>)] \<rparr>, []))
      | EchoData k chunk \<Rightarrow>
          (s\<lparr> ec_requests := map (\<lambda>(j, r). (j, if j = k then r\<lparr> er_data := er_data r @ [chunk] \<rparr> else r))
                (ec_requests s) \<rparr>, [])
      | EchoEnd k \<Rightarrow>
          (case map_of (ec_requests s) k of
             None \<Rightarrow> (s, [])
           | Some r \<Rightarrow>
               (s, [if url_ok (er_url r) (er_headers r) then EchoWait k (node_delay delay) else EchoUnhandled k]))
      | EchoDelayed k \<Rightarrow>
          (case map_of (ec_requests s) k of
             None \<Rightarrow> (s, [])
           | Some r \<Rightarrow>
               (s\<lparr> ec_requests := filter (\<lambda>p. fst p \<noteq> k) (ec_requests s) \<rparr>,
                [EchoRespond k (json_response 200 [(''Content-Type'', ''application/json'')] (echo_json r))]))
      | EchoSignal \<Rightarrow> (s, [EchoCloseServer])
      | EchoClosed \<Rightarrow> (s, [EchoExit 0]))"

end
