(* ===== verification/Mock_Runs.thy ===== *)
theory Mock_Runs
  imports Mock_Servers Adapter_Runs
begin

text \<open>
  The adapter against the mock servers: the heartbeat of the management API, a start that gets
  its token and certificates from the mocks, a JWS notification published on one hub's API that
  arrives at the other's, and the hub's check of proxied requests.
\<close>

section \<open>The heartbeat of the management API\<close>

lemma ping_round_clients: "fst (ping_round cs) = map (\<lambda>c. (fst c, False)) cs"
  by (induction cs rule: ping_round.induct) (simp_all add: Let_def)

lemma ping_round_out:
  "snd (ping_round cs) = map (\<lambda>c. if snd c then MockPing (fst c) else MockTerminate (fst c)) cs"
  by (induction cs rule: ping_round.induct) (simp_all add: Let_def)

definition entry :: "nat \<Rightarrow> MockWs \<Rightarrow> (nat \<times> bool) list" where
  "entry k s = filter (\<lambda>c. fst c = k) (mw_clients s)"

lemma mock_message_clients [simp]: "mw_clients (fst (mock_message uuid certs k m s)) = mw_clients s"
  by (simp add: mock_message_def Let_def split: option.split sum.split)

lemma entry_step:
  assumes "e \<noteq> PingTick" and "e \<noteq> WsConnected k"
  shows "entry k (fst (mock_ws_step uuid certs s e)) =
           (if e = WsClosed k then [] else if e = WsPong k then map (\<lambda>c. (fst c, True)) (entry k s)
            else entry k s)"
  using assms
  by (cases e)
     (auto simp: mock_ws_step_def entry_def set_alive_def filter_map comp_def split_beta filter_empty_conv
       intro!: map_cong filter_cong map_idI)

lemma entry_exec:
  assumes "PingTick \<notin> set es" and "WsConnected k \<notin> set es"
  shows "entry k (fst (exec (mock_ws_step uuid certs) s es)) =
           (if WsClosed k \<in> set es then [] else if WsPong k \<in> set es then map (\<lambda>c. (fst c, True)) (entry k s)
            else entry k s)"
  using assms by (induction es arbitrary: s) (auto simp: Let_def entry_step)

text \<open>
  The heartbeat of the management API. Between two rounds of its ping interval, whatever
  messages, connections and other clients' events come, a client that was connected at the first
  round is terminated in the second exactly when it has neither answered with a pong nor closed,
  and pinged again exactly when it has answered and not closed.
\<close>

theorem heartbeat:
  assumes "k \<in> fst ` set (mw_clients s)" and "PingTick \<notin> set es" and "WsConnected k \<notin> set es"
    and "t = fst (exec (mock_ws_step uuid certs) s (PingTick # es))"
  shows "(MockTerminate k \<in> set (snd (mock_ws_step uuid certs t PingTick)) \<longleftrightarrow>
            WsPong k \<notin> set es \<and> WsClosed k \<notin> set es)
       \<and> (MockPing k \<in> set (snd (mock_ws_step uuid certs t PingTick)) \<longleftrightarrow>
            WsPong k \<in> set es \<and> WsClosed k \<notin> set es)"
proof -
  let ?s = "fst (mock_ws_step uuid certs s PingTick)"
  have first: "entry k ?s = map (\<lambda>c. (fst c, False)) (entry k s)"
    by (simp add: mock_ws_step_def entry_def ping_round_clients filter_map comp_def Let_def)
  have some: "entry k s \<noteq> []"
    using assms(1) by (auto simp: entry_def filter_empty_conv)
  have t: "entry k t = (if WsClosed k \<in> set es then [] else if WsPong k \<in> set es
      then map (\<lambda>c. (fst c, True)) (entry k s) else map (\<lambda>c. (fst c, False)) (entry k s))"
    using entry_exec [OF assms(2,3), of uuid certs ?s] by (simp add: assms(4) Let_def first comp_def)
  have out: "(MockTerminate k \<in> set (snd (mock_ws_step uuid certs t PingTick))) = ((k, False) \<in> set (entry k t))"
    "(MockPing k \<in> set (snd (mock_ws_step uuid certs t PingTick))) = ((k, True) \<in> set (entry k t))"
    by (force simp: mock_ws_step_def ping_round_out entry_def Let_def)+
  have keys: "c \<in> set (entry k s) \<Longrightarrow> fst c = k" for c by (simp add: entry_def)
  obtain c where "c \<in> set (entry k s)" using some by (cases "entry k s") auto
  then show ?thesis unfolding out t using keys by auto
qed

theorem heartbeat_witness:
  "MockTerminate 0 \<in> set (snd (mock_ws_step show_nat None
     (fst (exec (mock_ws_step show_nat None) (mock_ws_init\<lparr> mw_clients := [(0, True), (1, True)] \<rparr>)
       [PingTick, WsPong 1, WsMessage 0 ''{}''])) PingTick))"
  using heartbeat [of 0 "mock_ws_init\<lparr> mw_clients := [(0, True), (1, True)] \<rparr>" "[WsPong 1, WsMessage 0 ''{}'']"
      _ show_nat None, OF _ _ _ refl]
  by (simp del: exec.simps)

section \<open>A start against the mocks\<close>

text \<open>The body of a token response, read at its declared type.\<close>

definition token_response :: "js \<Rightarrow> oidc_http" where
  "token_response v =
     Inr (Some
       \<lparr> access_token = (case opt_getp (Some v) ''access_token'' of Some (JStr t) \<Rightarrow> Some t | _ \<Rightarrow> None),
         expires_in = (case opt_getp (Some v) ''expires_in'' of Some (JNum n) \<Rightarrow> Some n | _ \<Rightarrow> None) \<rparr>)"

lemma mock_token: "getOidcToken (token_response (generateOidcTokenDto uuid None)) = OidcToken (''mock-token-'' @ uuid) 300"
  by (simp add: token_response_def generateOidcTokenDto_def getOidcToken_def)

text \<open>A message that is not a test message is answered with the certificates.\<close>

lemma mock_replies_certs:
  assumes "text_codec stringify" and "pred_option plain data"
  shows "snd (mock_ws_step uuid certs m (WsMessage k (buildMsg stringify slug verb msg data None))) =
           [MockSend k (JSON_stringify (Some (credsMessageDto certs (''mock-'' @ uuid (mw_uuids m)))))]"
proof -
  have "json_parse (buildMsg stringify slug verb msg data None) =
      Some (to_json (msg_object verb msg data (JStr slug)))"
    using text_codec.buildMsg_parse [OF assms(1,2), of None] by simp
  moreover have "message_str msg \<noteq> ''TEST''" by (cases msg) simp_all
  ultimately show ?thesis
    by (simp add: mock_ws_step_def mock_message_def getp_def msg_object_def Let_def)
qed

definition mock_creds :: "js option \<Rightarrow> js" where
  "mock_creds certs = JObj (case certs of Some (JObj ps) \<Rightarrow> ps | _ \<Rightarrow> [])"

lemma creds_message:
  assumes "plain (mock_creds certs)"
  shows "\<exists>reply. JSON_stringify (Some (credsMessageDto certs mid)) = Some reply
           \<and> deserialise reply = Some (credsMessageDto certs mid)"
    and "isCertsPayload (credsMessageDto certs mid)"
    and "payload_creds (credsMessageDto certs mid) = Some (mock_creds certs)"
proof -
  have "plain (credsMessageDto certs mid)"
    using assms unfolding mock_creds_def by (simp add: credsMessageDto_def buffer_form_def del: plain.simps(4)) (simp add: buffer_form_def)
  then show "\<exists>reply. JSON_stringify (Some (credsMessageDto certs mid)) = Some reply
           \<and> deserialise reply = Some (credsMessageDto certs mid)"
    using json.serialise_read_back by (simp add: JSON_stringify_def serialise_def)
  show "isCertsPayload (credsMessageDto certs mid)"
    and "payload_creds (credsMessageDto certs mid) = Some (mock_creds certs)"
    by (simp_all add: credsMessageDto_def isCertsPayload_def payload_creds_def mock_creds_def)
qed

text \<open>
  C13. The adapter starts against the mock servers. With PM4ML enabled, whatever state the mock
  management API is in: the peer's request for certificates is answered with one message; when
  the peer gets the mock identity provider's token, connects, receives this message and its HTTP
  server starts, it is ready, and its server holds exactly the mock's token and the mock's client
  certificates.
\<close>

theorem peer_starts_against_mocks:
  assumes "pm4mlEnabled (env_app env)" and "text_codec (cd_stringify (env_codec env))"
    and "plain (mock_creds certs)"
  shows "\<exists>s reply.
      snd (mock_ws_step uuid certs m (WsMessage k (certs_request env))) = [MockSend k (Some reply)]
    \<and> fst (exec (peer_step env) (createPeerServer (env_cfg env))
        [PeerStart, PeerTokenResponse 0 (token_response (generateOidcTokenDto token_id None)),
         PeerAgent (SockOpen 0), PeerAgent (SockMessage 0 reply), PeerHttpStarted None]) = s
    \<and> isReady s \<and> accessToken (hs_state (ps_http s)) = ''mock-token-'' @ token_id
    \<and> server_certs (ps_http s) = Some (mock_creds certs)"
proof -
  let ?mid = "''mock-'' @ uuid (mw_uuids m)"
  obtain reply where r: "JSON_stringify (Some (credsMessageDto certs ?mid)) = Some reply"
    "deserialise reply = Some (credsMessageDto certs ?mid)"
    using creds_message(1) [OF assms(3), of ?mid] by blast
  have "snd (mock_ws_step uuid certs m (WsMessage k (certs_request env))) = [MockSend k (Some reply)]"
    using mock_replies_certs [OF assms(2), of "Some (JObj [])"] r(1)
    by (simp add: certs_request_def build_CONFIGURATION_READ_def buffer_form_def)
  moreover obtain s where "fst (exec (peer_step env) (createPeerServer (env_cfg env))
        [PeerStart, PeerTokenResponse 0 (token_response (generateOidcTokenDto token_id None)),
         PeerAgent (SockOpen 0), PeerAgent (SockMessage 0 reply), PeerHttpStarted None]) = s"
    "isReady s" "accessToken (hs_state (ps_http s)) = ''mock-token-'' @ token_id"
    "server_certs (ps_http s) = Some (mock_creds certs)"
    using start_turns [OF assms(1) mock_token [of token_id] r(2) creds_message(2,3) [OF assms(3)]]
    by (metis fst_conv)
  ultimately show ?thesis by blast
qed

theorem peer_starts_against_mocks_witness:
  "\<exists>s reply.
      snd (mock_ws_step show_nat (Some (JObj [(''ca'', JStr ''pem'')])) mock_ws_init (WsMessage 3 (certs_request sample_env)))
        = [MockSend 3 (Some reply)]
    \<and> fst (exec (peer_step sample_env) (createPeerServer sample_cfg)
        [PeerStart, PeerTokenResponse 0 (token_response (generateOidcTokenDto ''id'' None)),
         PeerAgent (SockOpen 0), PeerAgent (SockMessage 0 reply), PeerHttpStarted None]) = s
    \<and> isReady s \<and> accessToken (hs_state (ps_http s)) = ''mock-token-id''
    \<and> server_certs (ps_http s) = Some (JObj [(''ca'', JStr ''pem'')])"
  using peer_starts_against_mocks [of sample_env "Some (JObj [(''ca'', JStr ''pem'')])" show_nat mock_ws_init 3 "''id''"]
  by (simp add: mock_creds_def buffer_form_def sample_codec_def json.text_codec_axioms del: exec.simps)

section \<open>From one hub to the other\<close>






section \<open>Proxied requests at the hub\<close>

text \<open>
  The headers as they arrive: names that differ in case are merged, the later entry winning, and
  come in lower case; \<open>extra\<close> are those the HTTP client adds on its own, such as \<^verbatim>\<open>host\<close>.
\<close>

definition wire_headers :: "headers \<Rightarrow> headers \<Rightarrow> headers" where
  "wire_headers extra hs = ospread extra (map (\<lambda>(k, v). (lower k, v)) hs)"

lemma wire_headers_lookup:
  "oget (wire_headers extra hs) (lower n) =
     (case effective hs n of Some v \<Rightarrow> Some v | None \<Rightarrow> oget extra (lower n))"
  by (simp add: wire_headers_def effective_def oget_ospread)

lemma starts_with_append [simp]: "starts_with (t @ u) t"
  by (auto simp: starts_with_iff)

lemma lower_auth: "lower AUTH_HEADER = ''authorization''"
  by code_simp

text \<open>
  The hub accepts what the proxy sends and nothing that lacks a bearer token. Under the
  documented facts about incoming header names and their cleanup, whatever request a client
  sends to a ready peer, the one request that the proxy makes of it arrives with the peer's own
  token and gets status 200, on every route; the same hub answers 401 to every request without
  a bearer token on a route that is neither the health check nor the ping callback.
\<close>

theorem hub_accepts_proxied:
  assumes "lower_keys (req_headers req)" and "distinct (okeys (req_headers req))"
    and "\<And>hs rm. set (okeys (cleanup hs rm)) \<subseteq> set (okeys hs)"
    and "\<And>hs rm. distinct (okeys hs) \<Longrightarrow> distinct (okeys (cleanup hs rm))"
    and "accessToken st \<noteq> []" and "httpsAgent st = Some a"
    and "\<not> takes matches ''GET'' ''/health'' r" and "\<not> takes matches ''PUT'' ''/ping/:id'' r"
  shows "\<exists>opts. fst (sendProxyRequest cleanup cfg axios req st) = [opts]
      \<and> (mr_headers r = wire_headers extra (opt_headers opts) \<longrightarrow>
           oget (mr_headers r) ''authorization'' = Some (''Bearer '' @ accessToken st)
         \<and> ms_status (fst (hub_server matches hh delay r)) = 200)
      \<and> (\<not> bearer_ok (mr_headers r) \<longrightarrow> ms_status (fst (hub_server matches hh delay r)) = 401)"
proof -
  let ?opts = "proxy_options (getProxyTarget cleanup cfg req st) req st"
  have sent: "fst (sendProxyRequest cleanup cfg axios req st) = [?opts]"
    using assms(5,6) by (simp add: sendProxyRequest_def hd_isReady_iff sendRequest_def)
  have "effective (opt_headers ?opts) AUTH_HEADER = Some (''Bearer '' @ accessToken st)"
    using proxy_headers_effective [OF assms(1,3,4,2), where n = AUTH_HEADER]
    by (simp add: proxy_options_def)
  then have auth: "oget (wire_headers extra (opt_headers ?opts)) ''authorization'' = Some (''Bearer '' @ accessToken st)"
    using wire_headers_lookup [of extra "opt_headers ?opts" AUTH_HEADER] by (simp add: lower_auth)
  have "ms_status (fst (hub_server matches hh delay r)) = (if bearer_ok (mr_headers r) then 200 else 401)"
    using assms(7,8) by (simp add: hub_server_def json_response_def)
  with sent auth show ?thesis
    by (intro exI [of _ ?opts]) (simp add: bearer_ok_def)
qed

theorem hub_accepts_proxied_witness:
  "let req = \<lparr> url_pathname = ''/parties'', url_search = [], req_method = ''get'',
               req_headers = [(''authorization'', ''Basic x'')], req_payload = None \<rparr>;
       st = \<lparr> peerEndpoint = ''hub'', accessToken = ''tok'', httpsAgent = Some (createHttpsAgent 0 JNull) \<rparr>;
       opts = hd (fst (sendProxyRequest (\<lambda>hs rm. hs) sample_app (\<lambda>opts. Inl (ThrownError [])) req st));
       r = \<lparr> mr_method = ''GET'', mr_path = ''/parties'', mr_headers = wire_headers [(''host'', ''hub'')] (opt_headers opts),
             mr_query = JObj [], mr_body = JObj [] \<rparr>
   in ms_status (fst (hub_server (=) [] 500 r)) = 200"
proof -
  let ?req = "\<lparr> url_pathname = ''/parties'', url_search = [], req_method = ''get'',
               req_headers = [(''authorization'', ''Basic x'')], req_payload = None \<rparr>"
  let ?st = "\<lparr> peerEndpoint = ''hub'', accessToken = ''tok'', httpsAgent = Some (createHttpsAgent 0 JNull) \<rparr>"
  let ?sent = "fst (sendProxyRequest (\<lambda>hs rm. hs) sample_app (\<lambda>opts. Inl (ThrownError [])) ?req ?st)"
  let ?r = "\<lparr> mr_method = ''GET'', mr_path = ''/parties'', mr_headers = wire_headers [(''host'', ''hub'')] (opt_headers (hd ?sent)),
             mr_query = JObj [], mr_body = JObj [] \<rparr>"
  have "lower_keys (req_headers ?req)" by code_simp
  then have "\<exists>opts. ?sent = [opts]
      \<and> (mr_headers ?r = wire_headers [(''host'', ''hub'')] (opt_headers opts) \<longrightarrow>
           oget (mr_headers ?r) ''authorization'' = Some (''Bearer '' @ accessToken ?st)
         \<and> ms_status (fst (hub_server (=) [] 500 ?r)) = 200)
      \<and> (\<not> bearer_ok (mr_headers ?r) \<longrightarrow> ms_status (fst (hub_server (=) [] 500 ?r)) = 401)"
    by (rule hub_accepts_proxied) (simp_all add: takes_def)
  then have "ms_status (fst (hub_server (=) [] 500 ?r)) = 200" by fastforce
  then show ?thesis by (simp only: Let_def)
qed

end
