(* ===== verification/Request_Handler.thy ===== *)
theory Request_Handler
  imports Mock_Servers
begin

text \<open>
  \<^verbatim>\<open>docker/mock-servers/src/requestHandler.ts\<close>: the handler of requests that \<^verbatim>\<open>server.ts\<close> does not
  use. It echoes a request as the one of \<^verbatim>\<open>server.ts\<close> does and also ends the response when the
  request closes, fails, is aborted or times out.
\<close>

section \<open>The handler\<close>

text \<open>
  A request with its response: \<open>rh_ended\<close> after \<^verbatim>\<open>res.end\<close> (which writes the headers too),
  \<open>rh_closed\<close> once the response has been closed, by its own end or with the connection.
\<close>

record rh_request =
  rh_echo :: echo_request
  rh_ended :: bool
  rh_closed :: bool

record RequestHandler =
  rh_reqCount :: nat
  rh_requests :: "(nat \<times> rh_request) list"

definition rh_init :: RequestHandler where
  "rh_init = \<lparr> rh_reqCount = 0, rh_requests = [] \<rparr>"

text \<open>
  The events of a request and its response, as Node delivers them; the listeners of \<^verbatim>\<open>pause\<close>,
  \<^verbatim>\<open>resume\<close> and \<^verbatim>\<open>readable\<close> only log.
\<close>

datatype rh_event =
    RhRequest string string headers
  | RhData nat string
  | RhEnd nat
  | RhDelayed nat
  | RhClose nat
  | RhError nat
  | RhAborted nat
  | RhTimeout nat
  | RhResponseClosed nat

datatype rh_out =
    RhWait nat int
  | RhRespond nat mock_response
  | RhUnhandledRejection nat
  | RhUncaughtError nat

definition update_request :: "nat \<Rightarrow> (rh_request \<Rightarrow> rh_request) \<Rightarrow> RequestHandler \<Rightarrow> RequestHandler" where
  "update_request k f s =
     s\<lparr> rh_requests := map (\<lambda>(j, r). (j, if j = k then f r else r)) (rh_requests s) \<rparr>"

text \<open>
  \<^verbatim>\<open>res.end(text)\<close>. Writing after the end is an error event of the response, which has no listener,
  unless the response is closed already; what is written to a closed response is lost.
\<close>

definition res_end :: "nat \<Rightarrow> mock_response \<Rightarrow> rh_request \<Rightarrow> RequestHandler \<Rightarrow> RequestHandler \<times> rh_out list" where
  "res_end k resp r s =
     (if rh_ended r then (s, if rh_closed r then [] else [RhUncaughtError k])
      else (update_request k (rh_ended_update (\<lambda>_. True)) s, if rh_closed r then [] else [RhRespond k resp]))"

definition status_response :: "string \<Rightarrow> mock_response" where
  "status_response status = json_response 200 [] (JObj [(''status'', JStr status)])"

text \<open>After the delay \<^verbatim>\<open>writeHead\<close> throws when the headers have been sent.\<close>

definition rh_respond :: "nat \<Rightarrow> rh_request \<Rightarrow> RequestHandler \<Rightarrow> RequestHandler \<times> rh_out list" where
  "rh_respond k r s =
     (if rh_ended r then (s, [RhUnhandledRejection k])
      else res_end k (json_response 200 [(''Content-Type'', ''application/json'')] (echo_json (rh_echo r))) r s)"

definition with_request ::
  "nat \<Rightarrow> (rh_request \<Rightarrow> RequestHandler \<Rightarrow> RequestHandler \<times> rh_out list) \<Rightarrow> RequestHandler
     \<Rightarrow> RequestHandler \<times> rh_out list" where
  "with_request k f s = (case map_of (rh_requests s) k of None \<Rightarrow> (s, []) | Some r \<Rightarrow> f r s)"

definition requestHandler ::
  "(string \<Rightarrow> headers \<Rightarrow> bool) \<Rightarrow> int \<Rightarrow> RequestHandler \<Rightarrow> rh_event \<Rightarrow> RequestHandler \<times> rh_out list" where
  "requestHandler url_ok delay s e =
     (case e of
        RhRequest m u hs \<Rightarrow>
          (let k = Suc (rh_reqCount s) in
           (s\<lparr> rh_reqCount := k,
               rh_requests := rh_requests s @
                 [(k, \<lparr> rh_echo = \<lparr> er_method = m, er_url = u, er_headers = hs, er_data = [] \<rparr>,
                        rh_ended = False, rh_closed = False \<rparr>)] \<rparr>, []))
      | RhData k chunk \<Rightarrow>
          (update_request k (rh_echo_update (er_data_update (\<lambda>d. d @ [chunk]))) s, [])
      | RhEnd k \<Rightarrow> with_request k (\<lambda>r t.
          (t, [if url_ok (er_url (rh_echo r)) (er_headers (rh_echo r)) then RhWait k (node_delay delay)
               else RhUnhandledRejection k])) s
      | RhDelayed k \<Rightarrow> with_request k (rh_respond k) s
      | RhClose k \<Rightarrow> with_request k (res_end k (status_response ''closed'')) s
      | RhError k \<Rightarrow> with_request k (res_end k (status_response ''error'')) s
      | RhAborted k \<Rightarrow> with_request k (res_end k (status_response ''aborted'')) s
      | RhTimeout k \<Rightarrow> with_request k (res_end k (status_response ''timeout'')) s
      | RhResponseClosed k \<Rightarrow> (update_request k (rh_closed_update (\<lambda>_. True)) s, []))"

lemmas handler_defs =
  requestHandler_def with_request_def rh_respond_def res_end_def update_request_def Let_def

section \<open>One response per request\<close>

fun responds_to :: "nat \<Rightarrow> rh_out \<Rightarrow> bool" where
  "responds_to k (RhRespond j r) = (j = k)"
| "responds_to k _ = False"

definition ended :: "nat \<Rightarrow> RequestHandler \<Rightarrow> bool" where
  "ended k s = (\<exists>r. map_of (rh_requests s) k = Some r \<and> rh_ended r)"

lemma map_of_values: "map_of (map (\<lambda>(j, r). (j, if j = k then f r else r)) xs) i =
    (if i = k then map_option f (map_of xs i) else map_of xs i)"
  by (induction xs) auto

lemma ended_update [simp]:
  "(\<And>r. rh_ended (f r) = rh_ended r) \<Longrightarrow> ended k (update_request j f s) = ended k s"
  by (auto simp: ended_def update_request_def map_of_values)

lemma ended_append [simp]:
  "ended k (s\<lparr> rh_reqCount := n, rh_requests := rh_requests s @ [(j, r)] \<rparr>) \<longleftrightarrow>
     ended k s \<or> (k = j \<and> map_of (rh_requests s) k = None \<and> rh_ended r)"
  by (auto simp: ended_def map_add_def split: option.splits)

lemma ended_marks:
  "map_of (rh_requests s) j = Some r \<Longrightarrow>
     ended k (update_request j (rh_ended_update (\<lambda>_. True)) s) \<longleftrightarrow> k = j \<or> ended k s"
  by (auto simp: ended_def update_request_def map_of_values)

text \<open>A turn that responds to \<open>k\<close> at most once, only if it was not ended, and ends it then.\<close>

definition once :: "nat \<Rightarrow> RequestHandler \<Rightarrow> RequestHandler \<times> rh_out list \<Rightarrow> bool" where
  "once k s q \<longleftrightarrow>
     length (filter (responds_to k) (snd q)) + of_bool (ended k s) \<le> (of_bool (ended k (fst q)) :: nat)"

lemma once_silent: "ended k t = ended k s \<Longrightarrow> filter (responds_to k) xs = [] \<Longrightarrow> once k s (t, xs)"
  by (simp add: once_def)

lemma once_request:
  "(\<And>r. map_of (rh_requests s) j = Some r \<Longrightarrow> once k s (f r s)) \<Longrightarrow> once k s (with_request j f s)"
  by (cases "map_of (rh_requests s) j") (simp_all add: with_request_def once_silent)

lemma once_end: "map_of (rh_requests s) j = Some r \<Longrightarrow> once k s (res_end j resp r s)"
  by (auto simp: res_end_def once_def ended_marks) (auto simp: ended_def)

lemma handler_turn: "once k s (requestHandler url_ok delay s e)"
  by (cases e)
     (auto simp: requestHandler_def Let_def rh_respond_def once_silent intro!: once_request once_end)

text \<open>
  Whatever events the requests see, in whatever order, the handler sends at most one response per
  request, whether it is the echo or one of the short ones.
\<close>

theorem handler_responds_once:
  "length (filter (responds_to k) (snd (exec (requestHandler url_ok delay) rh_init es))) \<le> 1"
proof -
  have "once k s (exec (requestHandler url_ok delay) s es)" for s
  proof (induction es arbitrary: s)
    case (Cons e es)
    show ?case
      using Cons.IH [of "fst (requestHandler url_ok delay s e)"] handler_turn [of k s url_ok delay e]
      by (simp add: once_def Let_def)
  qed (simp add: once_def)
  from this [of rh_init] show ?thesis by (simp add: once_def of_bool_def split: if_splits)
qed

text \<open>
  A request that Node closes as soon as it has been read, as it does since version 16, is never
  echoed: the response is \<^verbatim>\<open>closed\<close>, and the delayed echo ends in an unhandled rejection.
\<close>

theorem closed_request_not_echoed:
  assumes "url_ok u hs"
  shows "snd (exec (requestHandler url_ok delay) rh_init
     ([RhRequest m u hs] @ map (RhData 1) chunks @ [RhEnd 1, RhClose 1, RhResponseClosed 1, RhDelayed 1])) =
     [RhWait 1 (node_delay delay), RhRespond 1 (status_response ''closed''), RhUnhandledRejection 1]"
proof -
  have data: "exec (requestHandler url_ok delay) (\<lparr> rh_reqCount = 1, rh_requests = [(1, q)] \<rparr>) (map (RhData 1) chunks) =
     (\<lparr> rh_reqCount = 1, rh_requests = [(1, rh_echo_update (er_data_update (\<lambda>d. d @ chunks)) q)] \<rparr>, [])" for q
    by (induction chunks arbitrary: q) (simp_all add: handler_defs)
  have "exec (requestHandler url_ok delay) rh_init ([RhRequest m u hs] @ map (RhData 1) chunks) =
     (\<lparr> rh_reqCount = 1, rh_requests = [(1, \<lparr> rh_echo = \<lparr> er_method = m, er_url = u, er_headers = hs, er_data = chunks \<rparr>,
        rh_ended = False, rh_closed = False \<rparr>)] \<rparr>, [])"
    using data by (simp add: requestHandler_def rh_init_def Let_def)
  from exec_append_eq [OF this] show ?thesis
    using assms by (simp add: handler_defs status_response_def)
qed

end
