(* ===== verification/Payload_Types.thy ===== *)
theory Payload_Types
  imports Protocol Agent_Runs
begin

text \<open>
  The payload types that \<^verbatim>\<open>controlAgent/types.ts\<close> declares, and how far its type guards, which are
  all that is checked of a message at run time, establish them.
\<close>

section \<open>The declared types\<close>

record ICACerts =
  ica_cert :: string
  ica_key :: string
  ica_ca :: string

record WsPayload =
  wp_verb :: VERB
  wp_msg :: MESSAGE
  wp_data :: js
  wp_id :: string

text \<open>A value has a declared type when this view of it exists; further properties do not matter.\<close>

definition as_string :: "js option \<Rightarrow> string option" where
  "as_string v = (case v of Some (JStr t) \<Rightarrow> Some t | _ \<Rightarrow> None)"

definition as_ICACerts :: "js option \<Rightarrow> ICACerts option" where
  "as_ICACerts v =
     (case (as_string (opt_getp v ''cert''), as_string (opt_getp v ''key''), as_string (opt_getp v ''ca'')) of
        (Some c, Some k, Some a) \<Rightarrow> Some \<lparr> ica_cert = c, ica_key = k, ica_ca = a \<rparr>
      | _ \<Rightarrow> None)"

definition as_VERB :: "js option \<Rightarrow> VERB option" where
  "as_VERB v = Option.bind (as_string v) (\<lambda>t. find (\<lambda>e. verb_str e = t) Enum.enum)"

definition as_MESSAGE :: "js option \<Rightarrow> MESSAGE option" where
  "as_MESSAGE v = Option.bind (as_string v) (\<lambda>t. find (\<lambda>e. message_str e = t) Enum.enum)"

definition as_WsPayload :: "js \<Rightarrow> WsPayload option" where
  "as_WsPayload v =
     (case (as_VERB (opt_getp (Some v) ''verb''), as_MESSAGE (opt_getp (Some v) ''msg''),
            opt_getp (Some v) ''data'', as_string (opt_getp (Some v) ''id'')) of
        (Some e, Some m, Some d, Some i) \<Rightarrow> Some \<lparr> wp_verb = e, wp_msg = m, wp_data = d, wp_id = i \<rparr>
      | _ \<Rightarrow> None)"

text \<open>\<^verbatim>\<open>CertsWsPayload\<close>: a payload with certificates.\<close>

definition as_CertsWsPayload :: "js \<Rightarrow> (WsPayload \<times> ICACerts) option" where
  "as_CertsWsPayload v =
     (case (as_WsPayload v, as_ICACerts (payload_creds v)) of
        (Some w, Some c) \<Rightarrow> if wp_verb w = NOTIFY \<and> wp_msg w = CONFIGURATION then Some (w, c) else None
      | _ \<Rightarrow> None)"

section \<open>The guards against the types\<close>

lemma as_string_iff: "as_string v = Some t \<longleftrightarrow> v = Some (JStr t)"
  by (simp add: as_string_def split: option.split js.split)

lemma find_verb: "find (\<lambda>e. verb_str e = t) Enum.enum = Some e \<longleftrightarrow> t = verb_str e"
  by (cases e) (auto simp: enum_VERB_def)

lemma find_message: "find (\<lambda>e. message_str e = t) Enum.enum = Some e \<longleftrightarrow> t = message_str e"
  by (cases e) (auto simp: enum_MESSAGE_def)

lemma as_enum_iff:
  "as_VERB v = Some e \<longleftrightarrow> v = Some (JStr (verb_str e))"
  "as_MESSAGE v = Some m \<longleftrightarrow> v = Some (JStr (message_str m))"
  by (auto simp: as_VERB_def as_MESSAGE_def bind_eq_Some_conv as_string_iff find_verb find_message)

lemma enum_texts_inj: "verb_str e = verb_str e' \<longleftrightarrow> e = e'" "message_str m = message_str m' \<longleftrightarrow> m = m'"
  by (cases e; cases e'; simp) (cases m; cases m'; simp)

lemma as_enum_text:
  "as_VERB (Some (JStr (verb_str e))) = Some e" "as_MESSAGE (Some (JStr (message_str m))) = Some m"
  "as_string (Some (JStr t)) = Some t"
  by (simp_all add: as_enum_iff as_string_iff)

lemma as_WsPayload_iff:
  "as_WsPayload v = Some w \<longleftrightarrow>
     opt_getp (Some v) ''verb'' = Some (JStr (verb_str (wp_verb w)))
     \<and> opt_getp (Some v) ''msg'' = Some (JStr (message_str (wp_msg w)))
     \<and> opt_getp (Some v) ''data'' = Some (wp_data w) \<and> opt_getp (Some v) ''id'' = Some (JStr (wp_id w))"
  by (cases w) (auto simp: as_WsPayload_def as_enum_iff as_string_iff as_enum_text enum_texts_inj split: option.splits)

lemma isWsPayload_iff:
  "isWsPayload v \<longleftrightarrow>
     (\<exists>e m. opt_getp (Some v) ''verb'' = Some (JStr (verb_str e))
       \<and> opt_getp (Some v) ''msg'' = Some (JStr (message_str m)) \<and> opt_getp (Some v) ''data'' \<noteq> None)"
proof (cases v)
  case (JObj ps)
  have verbs: "t \<in> set verb_values \<longleftrightarrow> (\<exists>e. t = verb_str e)" for t
    by (auto simp: verb_values_def enum_UNIV simp del: values_simps)
  have messages: "t \<in> set message_values \<longleftrightarrow> (\<exists>m. t = message_str m)" for t
    by (auto simp: message_values_def enum_UNIV simp del: values_simps)
  show ?thesis
    by (auto simp: JObj isWsPayload_def verbs messages simp del: values_simps split: option.splits js.splits)
qed (simp_all add: isWsPayload_def)

text \<open>
  The guards and the types. \<^verbatim>\<open>isWsPayload\<close> accepts exactly the values of the declared type \<^verbatim>\<open>WsPayload\<close>
  but that it does not look at the id: with a textual id the guard is exact. \<^verbatim>\<open>isCertsPayload\<close>
  accepts every value of its type, and reads its certificates where the type has them.
\<close>

theorem isWsPayload_against_type:
  "as_WsPayload v \<noteq> None \<longleftrightarrow> isWsPayload v \<and> as_string (opt_getp (Some v) ''id'') \<noteq> None"
proof
  assume "as_WsPayload v \<noteq> None"
  then show "isWsPayload v \<and> as_string (opt_getp (Some v) ''id'') \<noteq> None"
    by (auto simp: as_WsPayload_iff isWsPayload_iff as_string_def)
next
  assume r: "isWsPayload v \<and> as_string (opt_getp (Some v) ''id'') \<noteq> None"
  then obtain e m d i where "opt_getp (Some v) ''verb'' = Some (JStr (verb_str e))"
    "opt_getp (Some v) ''msg'' = Some (JStr (message_str m))" "opt_getp (Some v) ''data'' = Some d"
    "opt_getp (Some v) ''id'' = Some (JStr i)"
    by (auto simp: isWsPayload_iff as_string_iff)
  then have "as_WsPayload v = Some \<lparr> wp_verb = e, wp_msg = m, wp_data = d, wp_id = i \<rparr>"
    by (simp add: as_WsPayload_iff)
  then show "as_WsPayload v \<noteq> None" by simp
qed

lemma as_ICACerts_object: "as_ICACerts v = Some c \<Longrightarrow> truthy v"
  by (cases v; cases "the v") (auto simp: as_ICACerts_def as_string_def)

theorem isCertsPayload_complete:
  assumes "as_CertsWsPayload v = Some (w, c)"
  shows "isCertsPayload v \<and> as_ICACerts (Some (extractCerts (opt_getp (Some v) ''data''))) = Some c"
proof -
  from assms have w: "as_WsPayload v = Some w" "wp_verb w = NOTIFY" "wp_msg w = CONFIGURATION"
    and c: "as_ICACerts (payload_creds v) = Some c"
    by (auto simp: as_CertsWsPayload_def split: option.splits if_splits)
  have "truthy (payload_creds v)" using c by (rule as_ICACerts_object)
  then have "isCertsPayload v" using w by (simp add: isCertsPayload_def as_WsPayload_iff)
  moreover have "Some (extractCerts (opt_getp (Some v) ''data'')) = payload_creds v"
    using \<open>truthy (payload_creds v)\<close> by (cases "payload_creds v") simp_all
  ultimately show ?thesis using c by simp
qed

text \<open>
  It also accepts others: certificates that are no object with the three texts, as any text that is
  not empty, count as certificates and are handed to \<^verbatim>\<open>loadCerts\<close>'s caller and to \<^verbatim>\<open>onCert\<close>.
\<close>

theorem isCertsPayload_unsound:
  "isCertsPayload sample_certs \<and> as_CertsWsPayload sample_certs = None
     \<and> as_ICACerts (Some (extractCerts (opt_getp (Some sample_certs) ''data''))) = None"
  by (simp add: as_CertsWsPayload_def as_ICACerts_def as_string_def split: option.split)

end
